(* ===== verification/Disk_Prelude.thy ===== *)
theory Disk_Prelude
  imports Main "HOL-Library.Word" "HOL-Library.Monad_Syntax"
begin

text \<open>
  What every component of the development shares: the machine types of the C code, C strings,
  bounded character buffers, decimal conversion and a weakest-precondition predicate for the
  handlers.

  \<^item> A C string is a \<^typ>\<open>string\<close>: the bytes before the terminating NUL. Binary data
    (\<open>unsigned char *\<close> with a length) is a list of \<open>byte\<close>s.
  \<^item> A computation that may run into undefined behaviour (a write past a fixed-size buffer, a
    null dereference, a signed overflow) has an option type, and \<^const>\<open>None\<close> is the
    undefined behaviour. Reaching \<^const>\<open>Some\<close> therefore includes memory safety.
\<close>

unbundle bit_operations_syntax

section \<open>Machine types\<close>

type_synonym byte = "8 word"
type_synonym u32 = "32 word"
type_synonym u64 = "64 word"

named_theorems wp_rules \<open>weakest-precondition rules of the handlers' primitive operations\<close>
named_theorems buf_simps \<open>facts about bounded buffers and lengths of generated text\<close>

lemma unat_byte_less: "unat (b :: byte) < 256"
proof -
  have "unat b < 2 ^ LENGTH(8)" by (rule unsigned_less)
  then show ?thesis by simp
qed

lemma unat_u32_less: "unat (w :: u32) < 2 ^ 32"
proof -
  have "unat w < 2 ^ LENGTH(32)" by (rule unsigned_less)
  then show ?thesis by simp
qed

definition byte_of_char :: "char \<Rightarrow> byte" where
  "byte_of_char c = of_nat (of_char c)"

definition char_of_byte :: "byte \<Rightarrow> char" where
  "char_of_byte b = char_of (unat b)"

lemma char_of_byte_of_char [simp]: "char_of_byte (byte_of_char c) = c"
  by (simp add: byte_of_char_def char_of_byte_def unat_of_nat)

lemma byte_of_char_of_byte [simp]: "byte_of_char (char_of_byte b) = b"
proof -
  have "unat b mod 256 = unat b"
    using unat_byte_less [of b] by simp
  then show ?thesis
    by (simp add: byte_of_char_def char_of_byte_def)
qed

lemma byte_of_char_eq_iff [simp]: "byte_of_char c = byte_of_char d \<longleftrightarrow> c = d"
  by (metis char_of_byte_of_char)

subsection \<open>Bitwise equality of words of a fixed width\<close>

text \<open>
  Two words are equal if they agree on each of their bits; with the width a numeral the
  quantifier unfolds into finitely many bit equations, which \<open>simp add: bit_simps upt_rec\<close>
  decides for shifts, masks and boolean operations.
\<close>

lemma word_eq_bits_iff:
  fixes a b :: "'a::len word"
  shows "a = b \<longleftrightarrow> (\<forall>n \<in> set [0..<LENGTH('a)]. bit a n = bit b n)"
  by (auto simp: bit_eq_iff intro: bit_imp_le_length)

lemma byte_eq_bits_iff: "a = b \<longleftrightarrow> (\<forall>n \<in> set [0..<8]. bit a n = bit (b :: byte) n)"
  using word_eq_bits_iff [of a b] by simp

lemma u32_eq_bits_iff: "a = b \<longleftrightarrow> (\<forall>n \<in> set [0..<32]. bit a n = bit (b :: u32) n)"
  using word_eq_bits_iff [of a b] by simp

lemma u64_eq_bits_iff: "a = b \<longleftrightarrow> (\<forall>n \<in> set [0..<64]. bit a n = bit (b :: u64) n)"
  using word_eq_bits_iff [of a b] by simp

lemma bit_byte_high: "8 \<le> n \<Longrightarrow> \<not> bit (b :: byte) n"
  using bit_imp_le_length [of b n] by auto

section \<open>Outcomes\<close>

text \<open>
  The result of an operation that succeeds, reports a failure, or runs into undefined behaviour, and
  the composition of two such operations.
\<close>

datatype ('e, 'a) outcome = Ok 'a | Fail 'e | UB

fun bindO :: "('e, 'a) outcome \<Rightarrow> ('a \<Rightarrow> ('e, 'b) outcome) \<Rightarrow> ('e, 'b) outcome" where
  "bindO (Ok x) f = f x"
| "bindO (Fail e) f = Fail e"
| "bindO UB f = UB"

lemma bindO_eq_Ok: "bindO m f = Ok y \<longleftrightarrow> (\<exists>x. m = Ok x \<and> f x = Ok y)"
  by (cases m) auto

lemma bindO_eq_UB: "bindO m f = UB \<longleftrightarrow> m = UB \<or> (\<exists>x. m = Ok x \<and> f x = UB)"
  by (cases m) auto

lemma bindO_assoc: "bindO (bindO m f) g = bindO m (\<lambda>x. bindO (f x) g)"
  by (cases m) auto

section \<open>Encoders with a decoder\<close>

text \<open>
  The contract of a reversible encoding: decoding an encoded value gives it back. Base64, the DES
  padding and cipher, and the decimal printing of integers implement it; what clients use is that
  encoded values can be compared instead of the values.
\<close>

locale codec =
  fixes encode :: "'a \<Rightarrow> 'b" and decode :: "'b \<Rightarrow> 'a option"
  assumes decode_encode: "decode (encode x) = Some x"
begin

lemma encode_eq_iff: "encode x = encode y \<longleftrightarrow> x = y"
  by (metis decode_encode option.inject)

lemma decode_all: "those (map decode (map encode xs)) = Some xs"
  by (induction xs) (simp_all add: decode_encode)

end

locale codec_chain = inner: codec enc1 dec1 + outer: codec enc2 dec2
  for enc1 :: "'a \<Rightarrow> 'b" and dec1 and enc2 :: "'b \<Rightarrow> 'c" and dec2
begin

lemma chain_decode: "Option.bind (dec2 (enc2 (enc1 x))) dec1 = Some x"
  by (simp add: inner.decode_encode outer.decode_encode)

end

sublocale codec_chain \<subseteq> chain: codec "\<lambda>x. enc2 (enc1 x)" "\<lambda>z. Option.bind (dec2 z) dec1"
  by unfold_locales (rule chain_decode)

end
