(* ===== verification/C_String.thy ===== *)
theory C_String
  imports Disk_Prelude
begin

text \<open>
  The functions of the C library the server applies to strings: character classes, searching
  (\<open>strstr\<close>, \<open>strchr\<close>), decimal conversion (\<open>%d\<close>, \<open>atoi\<close>) and stores into character arrays of a fixed
  size (\<open>sprintf\<close>, \<open>strcpy\<close>), which are undefined behaviour when the text and its terminating NUL do
  not fit.
\<close>

section \<open>Fixed-size buffers\<close>

text \<open>Writing the C string \<open>s\<close> into a \<open>char\<close> array of \<open>n\<close> bytes.\<close>

definition store :: "nat \<Rightarrow> string \<Rightarrow> string option" where
  "store n s = (if length s < n then Some s else None)"

lemma store_fits [buf_simps]: "length s < n \<Longrightarrow> store n s = Some s"
  by (simp add: store_def)

lemma store_eq_Some [simp]: "store n s = Some t \<longleftrightarrow> t = s \<and> length s < n"
  by (auto simp: store_def)

lemma store_eq_None [simp]: "store n s = None \<longleftrightarrow> n \<le> length s"
  by (auto simp: store_def)

section \<open>Character classes\<close>

text \<open>\<open>isspace\<close> of the C locale: space, \<open>\t\<close>, \<open>\n\<close>, \<open>\v\<close>, \<open>\f\<close>, \<open>\r\<close>.\<close>

definition c_isspace :: "char \<Rightarrow> bool" where
  "c_isspace c = (c \<in> {CHR '' '', CHR 0x09, CHR 0x0A, CHR 0x0B, CHR 0x0C, CHR 0x0D})"

definition c_isdigit :: "char \<Rightarrow> bool" where
  "c_isdigit c = (of_char c \<in> {48..57 :: nat})"

definition digit_char :: "nat \<Rightarrow> char" where
  "digit_char d = char_of (48 + d)"

definition digit_val :: "char \<Rightarrow> nat" where
  "digit_val c = of_char c - 48"

lemma digit_char [simp]:
  assumes "d < 10"
  shows "c_isdigit (digit_char d)" "digit_val (digit_char d) = d"
  using assms by (simp_all add: c_isdigit_def digit_char_def digit_val_def)

lemma digit_char_0: "digit_char 0 = CHR ''0''"
  by (simp add: digit_char_def char_of_def bit_iff_odd)

lemma digit_not_special:
  assumes "c_isdigit c"
  shows "\<not> c_isspace c" "c \<noteq> CHR ''-''" "c \<noteq> CHR ''+''"
  using assms by (auto simp: c_isdigit_def c_isspace_def)

section \<open>Searching\<close>

text \<open>\<open>strstr(s, key)\<close> as the offset of the first occurrence.\<close>

fun strstr :: "string \<Rightarrow> string \<Rightarrow> nat option" where
  "strstr [] key = (if key = [] then Some 0 else None)"
| "strstr (c # s) key =
     (if take (length key) (c # s) = key then Some 0 else map_option Suc (strstr s key))"

lemma strstr_Some:
  "strstr s key = Some i \<Longrightarrow> take (length key) (drop i s) = key \<and> i + length key \<le> length s"
proof (induction s key arbitrary: i rule: strstr.induct)
  case (2 c s key)
  show ?case
  proof (cases "take (length key) (c # s) = key")
    case True
    then have "i = 0" using 2(2) by simp
    with True show ?thesis by (simp, metis length_Cons length_take min.cobounded1)
  next
    case False
    with 2(2) obtain j where "strstr s key = Some j" "i = Suc j" by (auto simp: map_option_case split: option.splits)
    with 2(1) [OF False] show ?thesis by simp
  qed
qed (simp split: if_splits)

lemma strstr_first:
  "strstr s key = Some i \<Longrightarrow> j < i \<Longrightarrow> take (length key) (drop j s) \<noteq> key"
proof (induction s key arbitrary: i j rule: strstr.induct)
  case (2 c s key)
  then show ?case
    by (cases j) (auto split: if_splits)
qed (auto split: if_splits)

lemma strstr_None: "strstr s key = None \<longleftrightarrow> (\<forall>i \<le> length s. take (length key) (drop i s) \<noteq> key)"
proof (induction s key rule: strstr.induct)
  case (1 key)
  then show ?case by auto
next
  case (2 c s key)
  have split: "(\<forall>i \<le> Suc n. P i) \<longleftrightarrow> P 0 \<and> (\<forall>i \<le> n. P (Suc i))" for P :: "nat \<Rightarrow> bool" and n
    by (metis Suc_le_mono not0_implies_Suc zero_le)
  show ?case
    using 2 by (simp only: list.size add_Suc_right add_0_right split) auto
qed

text \<open>An occurrence whose first character appears nowhere before it is the first one.\<close>

lemma strstr_append:
  "key \<noteq> [] \<Longrightarrow> hd key \<notin> set pre \<Longrightarrow> strstr (pre @ key @ post) key = Some (length pre)"
proof (induction pre)
  case Nil
  then show ?case by (cases key) auto
next
  case (Cons c pre)
  then show ?case by (cases key) auto
qed

lemma strstr_upto:
  assumes "\<And>j. j < length pre \<Longrightarrow> take (length key) (drop j (pre @ key @ post)) \<noteq> key"
  shows "strstr (pre @ key @ post) key = Some (length pre)"
proof -
  let ?s = "pre @ key @ post"
  have "take (length key) (drop (length pre) ?s) = key" by simp
  then have "strstr ?s key \<noteq> None" by (simp only: strstr_None) (metis length_append le_add1)
  then obtain i where i: "strstr ?s key = Some i" by blast
  moreover have "\<not> i < length pre" using assms strstr_Some [OF i] by blast
  moreover have "\<not> length pre < i" using strstr_first [OF i, of "length pre"] by auto
  ultimately show ?thesis by simp
qed

section \<open>Decimal conversion\<close>

text \<open>The text of \<open>%d\<close>, \<open>%u\<close> and \<open>%ld\<close>.\<close>

fun show_nat :: "nat \<Rightarrow> string" where
  "show_nat n = (if n < 10 then [digit_char n] else show_nat (n div 10) @ [digit_char (n mod 10)])"

declare show_nat.simps [simp del]

definition show_int :: "int \<Rightarrow> string" where
  "show_int i = (if i < 0 then CHR ''-'' # show_nat (nat (- i)) else show_nat (nat i))"

text \<open>
  \<open>strtol\<close> in base 10: leading white space, an optional sign, the longest run of digits.
\<close>

definition read_nat :: "string \<Rightarrow> nat" where
  "read_nat s = foldl (\<lambda>v c. 10 * v + digit_val c) 0 (takeWhile c_isdigit s)"

definition read_int :: "string \<Rightarrow> int" where
  "read_int s =
     (case dropWhile c_isspace s of
        [] \<Rightarrow> 0
      | c # t \<Rightarrow> (if c = CHR ''-'' then - int (read_nat t)
                  else if c = CHR ''+'' then int (read_nat t) else int (read_nat (c # t))))"

text \<open>The range of a C \<open>int\<close>; \<open>atoi\<close> of a value outside it is undefined behaviour.\<close>

definition in_int :: "int \<Rightarrow> bool" where
  "in_int i \<longleftrightarrow> - (2 ^ 31) \<le> i \<and> i < 2 ^ 31"

definition c_atoi :: "string \<Rightarrow> int option" where
  "c_atoi s = (let i = read_int s in if in_int i then Some i else None)"

text \<open>\<open>atol\<close>, with a 64-bit \<open>long\<close>.\<close>

definition c_atol :: "string \<Rightarrow> int option" where
  "c_atol s = (let i = read_int s in if - (2 ^ 63) \<le> i \<and> i < 2 ^ 63 then Some i else None)"

text \<open>\<open>strtol\<close>, which returns the nearest \<open>long\<close> where \<open>atol\<close> is undefined.\<close>

definition c_strtol :: "string \<Rightarrow> int" where
  "c_strtol s = max (- (2 ^ 63)) (min (2 ^ 63 - 1) (read_int s))"

lemma show_nat_ne [simp]: "show_nat n \<noteq> []"
  by (subst show_nat.simps) simp

lemma show_nat_digits: "c \<in> set (show_nat n) \<Longrightarrow> c_isdigit c"
proof (induction n rule: show_nat.induct)
  case (1 n)
  then show ?case
    by (cases "n < 10") (auto simp: show_nat.simps [of n])
qed

lemma takeWhile_all: "(\<And>x. x \<in> set xs \<Longrightarrow> P x) \<Longrightarrow> takeWhile P xs = xs"
  by (induction xs) auto

lemma read_show_nat [simp]: "read_nat (show_nat n) = n"
proof -
  have "foldl (\<lambda>v c. 10 * v + digit_val c) 0 (show_nat n) = n"
  proof (induction n rule: show_nat.induct)
    case (1 n)
    then show ?case
      by (cases "n < 10") (auto simp: show_nat.simps [of n])
  qed
  then show ?thesis
    by (simp add: read_nat_def takeWhile_all show_nat_digits)
qed

lemma read_show_int [simp]: "read_int (show_int i) = i"
proof (cases "i < 0")
  case True
  then show ?thesis by (simp add: show_int_def read_int_def c_isspace_def)
next
  case False
  obtain c t where ct: "show_nat (nat i) = c # t"
    by (cases "show_nat (nat i)") auto
  then have "c_isdigit c" using show_nat_digits [of c "nat i"] by simp
  then have "\<not> c_isspace c" "c \<noteq> CHR ''-''" "c \<noteq> CHR ''+''"
    by (auto dest: digit_not_special)
  moreover have "read_nat (c # t) = nat i"
    by (simp flip: ct)
  ultimately show ?thesis
    using False by (simp add: show_int_def read_int_def ct)
qed

lemma c_atoi_show_int: "in_int i \<Longrightarrow> c_atoi (show_int i) = Some i"
  by (simp add: c_atoi_def)

interpretation decimal: codec show_int "\<lambda>s. Some (read_int s)"
  by unfold_locales simp

lemma show_nat_length: "n < 10 ^ k \<Longrightarrow> 0 < k \<Longrightarrow> length (show_nat n) \<le> k"
proof (induction k arbitrary: n)
  case (Suc k)
  show ?case
  proof (cases "n < 10")
    case True
    then show ?thesis by (simp add: show_nat.simps [of n])
  next
    case False
    then have "0 < k" using Suc.prems by (cases k) auto
    moreover have "n div 10 < 10 ^ k" using Suc.prems by (simp add: div_less_iff_less_mult)
    ultimately show ?thesis using Suc.IH [of "n div 10"] False by (simp add: show_nat.simps [of n])
  qed
qed simp

lemma show_int_length: "in_int i \<Longrightarrow> length (show_int i) \<le> 11"
proof -
  assume "in_int i"
  then have "nat (abs i) < 10 ^ 10" by (auto simp: in_int_def)
  then have "length (show_nat (nat (abs i))) \<le> 10" by (rule show_nat_length) simp
  then show ?thesis by (auto simp: show_int_def)
qed

text \<open>A value of the type \<open>long\<close>.\<close>

definition in_long :: "int \<Rightarrow> bool" where
  "in_long i \<longleftrightarrow> - (2 ^ 63) \<le> i \<and> i < 2 ^ 63"

lemma show_long_length: "in_long i \<Longrightarrow> length (show_int i) \<le> 20"
proof -
  assume "in_long i"
  then have "nat (abs i) < 10 ^ 19" by (auto simp: in_long_def)
  then have "length (show_nat (nat (abs i))) \<le> 19" by (rule show_nat_length) simp
  then show ?thesis by (auto simp: show_int_def)
qed

section \<open>Bytes and conversions\<close>

text \<open>The C string that a byte sequence with a terminating NUL somewhere holds.\<close>

definition c_str :: "string \<Rightarrow> string" where
  "c_str s = takeWhile (\<lambda>c. c \<noteq> CHR 0x00) s"

lemma c_str_id [simp]: "CHR 0x00 \<notin> set s \<Longrightarrow> c_str s = s"
  by (auto simp: c_str_def takeWhile_eq_all_conv)

lemma length_c_str: "length (c_str s) \<le> length s"
  by (simp add: c_str_def length_takeWhile_le)

lemma c_str_no_nul [simp]: "CHR 0x00 \<notin> set (c_str s)"
  by (auto simp: c_str_def dest: set_takeWhileD)

definition newline :: string where "newline = [CHR 0x0A]"

text \<open>The conversions of \<open>long long\<close>, \<open>time_t\<close> and \<open>unsigned int\<close> to \<open>int\<close>.\<close>

definition to_int :: "int \<Rightarrow> int" where
  "to_int i = sint (of_int i :: 32 word)"

lemma to_int_id: "in_int i \<Longrightarrow> to_int i = i"
  by (simp add: to_int_def in_int_def signed_of_int signed_take_bit_int_eq_self)

text \<open>\<open>printf\<close> with a text as its only argument: a directive in it would fetch an argument that is not there.\<close>

definition printf_text :: "string \<Rightarrow> string option" where
  "printf_text out = (if CHR ''%'' \<in> set out then None else Some out)"

end
