(* ===== verification/C_Double.thy ===== *)
theory C_Double
  imports C_String
begin

text \<open>
  The IEEE 754 double precision numbers and the parts of the C library \<open>cJSON\<close> applies to them:
  correctly rounded decimal input (\<open>strtod\<close>), \<open>%.15g\<close> and \<open>%.17g\<close> output, truncation to \<open>int\<close>, and the
  arithmetic of \<open>compare_double\<close>. A finite double is a sign, a mantissa and a binary exponent.
\<close>

section \<open>Doubles and rounding\<close>

datatype dbl = Fin bool nat int | Infinity bool | NaN

text \<open>The magnitude of a finite double as a fraction.\<close>

definition pow2_frac :: "nat \<Rightarrow> int \<Rightarrow> nat \<times> nat" where
  "pow2_frac m e = (if e \<ge> 0 then (m * 2 ^ nat e, 1) else (m, 2 ^ nat (- e)))"

definition round_half_even :: "nat \<Rightarrow> nat \<Rightarrow> nat" where
  "round_half_even n d =
     (let q = n div d; r = n mod d in if 2 * r > d \<or> 2 * r = d \<and> odd q then q + 1 else q)"

lemma round_half_even_exact [simp]: "0 < d \<Longrightarrow> round_half_even (q * d) d = q"
  by (simp add: round_half_even_def)

fun bitlen :: "nat \<Rightarrow> nat" where
  "bitlen n = (if n = 0 then 0 else Suc (bitlen (n div 2)))"

declare bitlen.simps [simp del]

lemma bitlen_bounds: "0 < n \<Longrightarrow> 0 < bitlen n \<and> 2 ^ (bitlen n - 1) \<le> n \<and> n < 2 ^ bitlen n"
proof (induction n rule: bitlen.induct)
  case (1 n)
  show ?case
  proof (cases "n div 2 = 0")
    case True
    then have "n = 1" using 1(2) by simp
    then show ?thesis by (simp add: bitlen.simps)
  next
    case False
    then have IH: "0 < bitlen (n div 2)" "2 ^ (bitlen (n div 2) - 1) \<le> n div 2" "n div 2 < 2 ^ bitlen (n div 2)"
      using 1 by auto
    define p where "p = (2 :: nat) ^ (bitlen (n div 2) - 1)"
    have "2 ^ bitlen (n div 2) = 2 * p"
      unfolding p_def using IH(1) by (metis Suc_diff_1 power_Suc)
    moreover from this have "p \<le> n div 2" "n div 2 < 2 * p"
      using IH by (simp_all add: p_def)
    ultimately have "2 * p \<le> n" "n < 4 * p" "2 ^ bitlen (n div 2) = 2 * p" by auto
    then show ?thesis using 1(2) by (subst (1 2 3) bitlen.simps) auto
  qed
qed

text \<open>
  The double nearest to \<open>num / den\<close>, ties to even, with gradual underflow and overflow to infinity:
  \<open>e\<close> is chosen so that the scaled quotient has 53 bits, or is the least exponent.
\<close>

definition scale_round :: "nat \<Rightarrow> nat \<Rightarrow> int \<Rightarrow> nat" where
  "scale_round num den e =
     (if e \<ge> 0 then round_half_even num (den * 2 ^ nat e) else round_half_even (num * 2 ^ nat (- e)) den)"

definition to_dbl :: "bool \<Rightarrow> nat \<Rightarrow> nat \<Rightarrow> dbl" where
  "to_dbl neg num den =
     (if num = 0 then Fin neg 0 0
      else let e0 = int (bitlen num) - int (bitlen den) - 53;
               big = (if e0 + 53 \<ge> 0 then num \<ge> den * 2 ^ nat (e0 + 53) else num * 2 ^ nat (- (e0 + 53)) \<ge> den);
               e = max (if big then e0 + 1 else e0) (-1074);
               m = scale_round num den e;
               (m, e) = (if m = 2 ^ 53 then (2 ^ 52, e + 1) else (m, e))
           in if e > 971 then Infinity neg else Fin neg m e)"

definition dbl_of_int :: "int \<Rightarrow> dbl" where
  "dbl_of_int i = to_dbl (i < 0) (nat (abs i)) 1"

text \<open>Truncation towards zero; comparisons with integers read off it.\<close>

fun dbl_trunc :: "dbl \<Rightarrow> int option" where
  "dbl_trunc (Fin neg m e) = (let (n, d) = pow2_frac m e; t = int (n div d) in Some (if neg then - t else t))"
| "dbl_trunc _ = None"

section \<open>Input\<close>

text \<open>
  \<open>strtod\<close> on text without white space, \<open>inf\<close>, \<open>nan\<close> and hexadecimal notation: the value and the number
  of characters consumed, 0 if there is no number.
\<close>

definition take_sign :: "string \<Rightarrow> bool \<times> nat" where
  "take_sign s = (case s of [] \<Rightarrow> (False, 0)
     | c # _ \<Rightarrow> if c = CHR ''-'' then (True, 1) else if c = CHR ''+'' then (False, 1) else (False, 0))"

definition take_exponent :: "string \<Rightarrow> int \<times> nat" where
  "take_exponent s = (case s of [] \<Rightarrow> (0, 0)
     | c # t \<Rightarrow> if c = CHR ''e'' \<or> c = CHR ''E'' then
         let (neg, k) = take_sign t; ds = takeWhile c_isdigit (drop k t)
         in if ds = [] then (0, 0) else ((if neg then - int (read_nat ds) else int (read_nat ds)), 1 + k + length ds)
       else (0, 0))"

definition strtod :: "string \<Rightarrow> dbl \<times> nat" where
  "strtod s =
     (let (neg, k) = take_sign s;
          s1 = drop k s; ip = takeWhile c_isdigit s1;
          s2 = drop (length ip) s1;
          dot = s2 \<noteq> [] \<and> hd s2 = CHR ''.'';
          fp = (if dot then takeWhile c_isdigit (tl s2) else []);
          used = k + length ip + (if dot then 1 + length fp else 0)
      in if ip = [] \<and> fp = [] then (Fin False 0 0, 0)
         else let (x, l) = take_exponent (drop used s);
                  n = read_nat (ip @ fp); e = x - int (length fp)
              in (if e \<ge> 0 then to_dbl neg (n * 10 ^ nat e) 1 else to_dbl neg n (10 ^ nat (- e)), used + l))"

section \<open>Output\<close>

definition declen :: "nat \<Rightarrow> nat" where
  "declen n = length (show_nat n)"

text \<open>The decimal exponent of \<open>num / den\<close>, for \<open>num\<close> not 0.\<close>

definition dec_exponent :: "nat \<Rightarrow> nat \<Rightarrow> int" where
  "dec_exponent num den =
     (let k = int (declen num) - int (declen den)
      in if (if k \<ge> 0 then num \<ge> den * 10 ^ nat k else num * 10 ^ nat (- k) \<ge> den) then k else k - 1)"

definition dec_scale_round :: "nat \<Rightarrow> nat \<Rightarrow> int \<Rightarrow> nat" where
  "dec_scale_round num den k =
     (if k \<ge> 0 then round_half_even (num * 10 ^ nat k) den else round_half_even num (den * 10 ^ nat (- k)))"

definition strip_zeros :: "string \<Rightarrow> string" where
  "strip_zeros s = rev (dropWhile (\<lambda>c. c = CHR ''0'') (rev s))"

definition with_point :: "string \<Rightarrow> string \<Rightarrow> string" where
  "with_point ip fp = (let fp = strip_zeros fp in if fp = [] then ip else ip @ CHR ''.'' # fp)"

text \<open>\<open>%.Pg\<close> of a finite double.\<close>

definition fmt_g :: "nat \<Rightarrow> bool \<Rightarrow> nat \<Rightarrow> nat \<Rightarrow> string" where
  "fmt_g P neg num den =
     (if neg then ''-'' else []) @
     (if num = 0 then ''0''
      else let x0 = dec_exponent num den;
               n = dec_scale_round num den (int P - 1 - x0);
               (n, x) = (if n = 10 ^ P then (10 ^ (P - 1), x0 + 1) else (n, x0));
               ds = show_nat n
           in if x < -4 \<or> x \<ge> int P then
                with_point (take 1 ds) (drop 1 ds) @ ''e'' @ (if x < 0 then ''-'' else ''+'') @
                  (let es = show_nat (nat (abs x)) in if length es < 2 then CHR ''0'' # es else es)
              else if x \<ge> 0 then with_point (take (nat x + 1) ds) (drop (nat x + 1) ds)
              else with_point ''0'' (replicate (nat (- x) - 1) (CHR ''0'') @ ds))"

section \<open>Comparison\<close>

text \<open>Differences and products are rounded like any double operation.\<close>

definition frac_le :: "nat \<times> nat \<Rightarrow> nat \<times> nat \<Rightarrow> bool" where
  "frac_le a b \<longleftrightarrow> fst a * snd b \<le> fst b * snd a"

fun dbl_frac :: "dbl \<Rightarrow> (nat \<times> nat) option" where
  "dbl_frac (Fin _ m e) = Some (pow2_frac m e)"
| "dbl_frac _ = None"

definition sub_frac :: "bool \<Rightarrow> nat \<times> nat \<Rightarrow> bool \<Rightarrow> nat \<times> nat \<Rightarrow> nat \<times> nat" where
  "sub_frac s a t b =
     (let x = fst a * snd b; y = fst b * snd a; d = snd a * snd b
      in if s = t then (if x \<ge> y then (x - y, d) else (y - x, d)) else (x + y, d))"

text \<open>
  \<open>fabs(a - b) <= max(fabs(a), fabs(b)) * DBL_EPSILON\<close>. With an infinite operand both sides are infinite and the
  comparison holds, except for two equal infinities, whose difference is not a number.
\<close>

definition compare_double :: "dbl \<Rightarrow> dbl \<Rightarrow> bool" where
  "compare_double a b =
     (case (a, b) of
        (Fin s m e, Fin t n f) \<Rightarrow>
          (let fa = pow2_frac m e; fb = pow2_frac n f;
               mx = (if frac_le fa fb then fb else fa);
               df = sub_frac s fa t fb
           in case (dbl_frac (to_dbl False (fst df) (snd df)), dbl_frac (to_dbl False (fst mx) (snd mx * 2 ^ 52))) of
                (Some d, Some eps) \<Rightarrow> frac_le d eps
              | _ \<Rightarrow> False)
      | (Infinity s, Infinity t) \<Rightarrow> s \<noteq> t
      | (Infinity s, Fin t n f) \<Rightarrow> True
      | (Fin s m e, Infinity t) \<Rightarrow> True
      | _ \<Rightarrow> False)"

section \<open>Integers\<close>

text \<open>
  Integers of at most 53 bits are represented exactly, printed without exponent or fraction as long as
  they have at most 15 digits, and read back.
\<close>

lemma bitlen_le: "n < 2 ^ k \<Longrightarrow> bitlen n \<le> k"
proof (cases "n = 0")
  case False
  assume "n < 2 ^ k"
  then have "(2 :: nat) ^ (bitlen n - 1) < 2 ^ k" using False bitlen_bounds [of n] by linarith
  then have "bitlen n - 1 < k" by (rule power_less_imp_less_exp [rotated]) simp
  then show ?thesis by simp
qed (simp add: bitlen.simps)

lemma to_dbl_nat:
  assumes "0 < n" and "n < 2 ^ 53"
  shows "to_dbl neg n 1 = Fin neg (n * 2 ^ (53 - bitlen n)) (int (bitlen n) - 53)"
proof -
  have b: "0 < bitlen n" "2 ^ (bitlen n - 1) \<le> n" "n < 2 ^ bitlen n" "bitlen n \<le> 53"
    using bitlen_bounds [OF assms(1)] bitlen_le [OF assms(2)] by auto
  have one: "bitlen (Suc 0) = 1" by (subst bitlen.simps) (simp add: bitlen.simps [of 0])
  let ?e = "int (bitlen n) - 53"
  have e0: "int (bitlen n) - int (bitlen 1) - 53 + 1 = ?e" by (simp add: one)
  have nat: "nat (int (bitlen n) - int (bitlen 1) - 53 + 53) = bitlen n - 1" using b(1) by (simp add: one)
  have m: "scale_round n 1 ?e = n * 2 ^ (53 - bitlen n)"
  proof (cases "bitlen n = 53")
    case True
    then show ?thesis using round_half_even_exact [of 1 n] by (simp add: scale_round_def)
  next
    case False
    with b(4) have "\<not> 0 \<le> ?e" "nat (- ?e) = 53 - bitlen n" by auto
    then show ?thesis
      using round_half_even_exact [of 1 "n * 2 ^ (53 - bitlen n)"] by (simp add: scale_round_def)
  qed
  have "n * 2 ^ (53 - bitlen n) < 2 ^ bitlen n * 2 ^ (53 - bitlen n)"
    using b(3) by simp
  also have "\<dots> = 2 ^ 53" using b(4) by (simp flip: power_add)
  finally have lt: "n * 2 ^ (53 - bitlen n) \<noteq> 2 ^ 53" by simp
  have max: "max ?e (- 1074) = ?e" "\<not> ?e > 971" using b(4) by auto
  have big: "0 \<le> int (bitlen n) - int (bitlen 1) - 53 + 53" using b(1) by (simp add: one)
  show ?thesis
    unfolding to_dbl_def Let_def nat if_P [OF big] mult_1 if_P [OF b(2)] e0 max(1) m
    using assms(1) lt max(2) by (simp only: if_False prod.case) simp
qed

lemma dbl_trunc_of_int:
  assumes "abs i < 2 ^ 53"
  shows "dbl_trunc (dbl_of_int i) = Some i"
proof (cases "i = 0")
  case True
  then show ?thesis by (simp add: dbl_of_int_def to_dbl_def pow2_frac_def)
next
  case False
  then have n: "0 < nat (abs i)" "nat (abs i) < 2 ^ 53" using assms by auto
  then have "bitlen (nat (abs i)) \<le> 53" by (intro bitlen_le) simp
  then have "nat (53 - int (bitlen (nat (abs i)))) = 53 - bitlen (nat (abs i))"
    "nat (int (bitlen (nat (abs i))) - 53) = 0" by simp_all
  with False show ?thesis
    unfolding dbl_of_int_def to_dbl_nat [OF n] by (auto simp: pow2_frac_def Let_def)
qed

lemma show_nat_zeros: "0 < n \<Longrightarrow> show_nat (n * 10 ^ k) = show_nat n @ replicate k (CHR ''0'')"
proof (induction k)
  case (Suc k)
  have "1 * 10 \<le> n * 10 ^ Suc k" using Suc.prems by (intro mult_le_mono) auto
  then have "\<not> n * 10 ^ Suc k < 10" by simp
  moreover have "n * 10 ^ Suc k div 10 = n * 10 ^ k" "n * 10 ^ Suc k mod 10 = 0" by simp_all
  ultimately have "show_nat (n * 10 ^ Suc k) = show_nat (n * 10 ^ k) @ ''0''"
    by (subst show_nat.simps) (simp only: if_False digit_char_0)
  with Suc show ?case by (simp add: replicate_append_same)
qed simp

lemma declen_bounds: "0 < n \<Longrightarrow> 0 < declen n \<and> 10 ^ (declen n - 1) \<le> n \<and> n < 10 ^ declen n"
proof (induction n rule: show_nat.induct)
  case (1 n)
  show ?case
  proof (cases "n < 10")
    case True
    with 1(2) show ?thesis by (simp add: declen_def show_nat.simps [of n])
  next
    case False
    define k where "k = declen (n div 10)"
    have d: "declen n = Suc k" using False by (simp add: declen_def show_nat.simps [of n] k_def)
    have "0 < k" "10 ^ (k - 1) \<le> n div 10" "n div 10 < 10 ^ k"
      using 1(1) [OF False] False by (auto simp: k_def)
    moreover define p where "p = (10 :: nat) ^ (k - 1)"
    moreover have "10 ^ k = 10 * p" unfolding p_def using \<open>0 < k\<close> by (metis Suc_diff_1 power_Suc)
    ultimately have "10 * p \<le> n" "n < 100 * p" "10 ^ k = 10 * p" by auto
    then show ?thesis by (simp add: d)
  qed
qed

lemma dec_exponent_nat:
  assumes "0 < n" and "0 < d"
  shows "dec_exponent (n * d) d = int (declen n) - 1"
proof -
  have n: "0 < declen n" "10 ^ (declen n - 1) \<le> n" "n < 10 ^ declen n" using declen_bounds [OF assms(1)] by auto
  have d: "0 < declen d" "10 ^ (declen d - 1) \<le> d" "d < 10 ^ declen d" using declen_bounds [OF assms(2)] by auto
  have nd: "0 < declen (n * d)" "10 ^ (declen (n * d) - 1) \<le> n * d" "n * d < 10 ^ declen (n * d)"
    using declen_bounds [of "n * d"] assms by auto
  have "n * d < 10 ^ (declen n + declen d)" using n(3) d(3) by (simp add: power_add mult_strict_mono)
  then have "(10 :: nat) ^ (declen (n * d) - 1) < 10 ^ (declen n + declen d)" using nd(2) by linarith
  then have u: "declen (n * d) - 1 < declen n + declen d" by (rule power_less_imp_less_exp [rotated]) simp
  have "10 ^ (declen n - 1 + (declen d - 1)) \<le> n * d" unfolding power_add by (intro mult_mono n(2) d(2)) auto
  then have "(10 :: nat) ^ (declen n - 1 + (declen d - 1)) < 10 ^ declen (n * d)" using nd(3) by linarith
  then have l: "declen n - 1 + (declen d - 1) < declen (n * d)" by (rule power_less_imp_less_exp [rotated]) simp
  show ?thesis
  proof (cases "declen (n * d) = declen n + declen d")
    case True
    then have k: "int (declen (n * d)) - int (declen d) = int (declen n)" by simp
    have "\<not> d * 10 ^ declen n \<le> n * d" using n(3) assms(2) by (simp add: not_le)
    then show ?thesis by (simp add: dec_exponent_def k)
  next
    case False
    then have "declen (n * d) = declen n - 1 + declen d" using u l n(1) d(1) by linarith
    then have k: "int (declen (n * d)) - int (declen d) = int (declen n - 1)" by simp
    have "d * 10 ^ (declen n - 1) \<le> n * d" using n(2) by simp
    moreover have "nat (int (declen n - 1)) = declen n - 1" by simp
    ultimately show ?thesis
      using n(1) unfolding dec_exponent_def Let_def k by (simp only: of_nat_0_le_iff if_True)
  qed
qed

lemma fmt_g_nat:
  assumes "0 < d" and "n < 10 ^ P" and "0 < P"
  shows "fmt_g P neg (n * d) d = (if neg then ''-'' else []) @ show_nat n"
proof (cases "n = 0")
  case True
  then show ?thesis by (simp add: fmt_g_def show_nat.simps digit_char_0)
next
  case False
  then have n: "0 < n" by simp
  define k where "k = P - declen n"
  have "10 ^ (declen n - 1) \<le> n" "n < 10 ^ declen n" and dn: "0 < declen n" using declen_bounds [OF n] by auto
  then have "(10 :: nat) ^ (declen n - 1) < 10 ^ P" using assms(2) by linarith
  then have "declen n - 1 < P" by (rule power_less_imp_less_exp [rotated]) simp
  then have le: "declen n \<le> P" by simp
  have x: "dec_exponent (n * d) d = int (declen n) - 1" using dec_exponent_nat [OF n assms(1)] .
  have sc: "int P - 1 - (int (declen n) - 1) = int k" using le by (simp add: k_def)
  have r: "dec_scale_round (n * d) d (int k) = n * 10 ^ k"
    using round_half_even_exact [OF assms(1), of "n * 10 ^ k"] by (simp add: dec_scale_round_def ac_simps)
  have "n * 10 ^ k < 10 ^ declen n * 10 ^ k" using \<open>n < 10 ^ declen n\<close> by simp
  also have "\<dots> = 10 ^ P" using le by (simp add: k_def flip: power_add)
  finally have ne: "n * 10 ^ k \<noteq> 10 ^ P" by simp
  have ds: "show_nat (n * 10 ^ k) = show_nat n @ replicate k (CHR ''0'')" by (rule show_nat_zeros [OF n])
  have "nat (int (declen n) - 1) + 1 = declen n" using dn by linarith
  then have t: "nat (int (declen n) - 1) + 1 = length (show_nat n)" by (simp only: declen_def)
  have "strip_zeros (replicate k (CHR ''0'')) = []" by (simp add: strip_zeros_def)
  then have "with_point (show_nat n) (replicate k (CHR ''0'')) = show_nat n" by (simp add: with_point_def)
  moreover have "\<not> (int (declen n) - 1 < - 4 \<or> int P \<le> int (declen n) - 1)" "0 \<le> int (declen n) - 1"
    using dn le by auto
  ultimately show ?thesis
    using n assms(1) unfolding fmt_g_def Let_def x sc r if_not_P [OF ne] prod.case t ds
    by (simp only: if_False if_True mult_eq_0_iff append_eq_conv_conj) (simp del: replicate.simps)
qed


lemma fmt_g_of_int:
  assumes "abs i < 10 ^ P" and "0 < P" and "abs i < 2 ^ 53"
  shows "\<exists>m e. dbl_of_int i = Fin (i < 0) m e \<and> fmt_g P (i < 0) (fst (pow2_frac m e)) (snd (pow2_frac m e)) = show_int i"
proof (cases "i = 0")
  case True
  then show ?thesis
    using assms(2) fmt_g_nat [of 1 0 P False] by (simp add: dbl_of_int_def to_dbl_def pow2_frac_def show_int_def)
next
  case False
  define n where "n = nat (abs i)"
  have n: "0 < n" "n < 2 ^ 53" "n < 10 ^ P" using False assms by (auto simp: n_def nat_less_iff)
  define k where "k = 53 - bitlen n"
  have b: "bitlen n \<le> 53" by (rule bitlen_le) (rule n(2))
  have "dbl_of_int i = Fin (i < 0) (n * 2 ^ k) (int (bitlen n) - 53)"
    unfolding dbl_of_int_def n_def [symmetric] k_def by (rule to_dbl_nat) (use n in auto)
  moreover have "fmt_g P (i < 0) (n * 2 ^ k) (2 ^ k) = show_int i"
    using fmt_g_nat [of "2 ^ k" n P "i < 0"] n(3) assms(2) by (auto simp: show_int_def n_def)
  moreover have "pow2_frac (n * 2 ^ k) (int (bitlen n) - 53) = (n * 2 ^ k, 2 ^ k)"
  proof (cases "bitlen n = 53")
    case True
    then show ?thesis by (simp add: pow2_frac_def k_def)
  next
    case False
    then have "\<not> 0 \<le> int (bitlen n) - 53" "nat (53 - int (bitlen n)) = k" using b by (auto simp: k_def)
    then show ?thesis by (simp add: pow2_frac_def)
  qed
  ultimately show ?thesis by (metis fst_conv snd_conv)
qed

lemma strtod_show_int: "strtod (show_int i) = (dbl_of_int i, length (show_int i))"
proof -
  define n where "n = nat (abs i)"
  have all: "takeWhile c_isdigit (show_nat n) = show_nat n"
    by (rule takeWhile_all) (rule show_nat_digits)
  have ts: "take_sign (show_int i) = (i < 0, if i < 0 then 1 else 0)"
  proof (cases "i < 0")
    case False
    obtain c t where "show_nat n = c # t" by (cases "show_nat n") auto
    moreover from this have "c_isdigit c" using show_nat_digits [of c n] by simp
    ultimately show ?thesis
      using False digit_not_special [of c] by (simp add: take_sign_def show_int_def n_def)
  qed (simp add: take_sign_def show_int_def)
  have dr: "drop (if i < 0 then 1 else 0) (show_int i) = show_nat n"
    by (simp add: show_int_def n_def)
  have len: "length (show_int i) = (if i < 0 then 1 else 0) + length (show_nat n)"
    by (simp add: show_int_def n_def)
  show ?thesis
    unfolding strtod_def Let_def ts prod.case dr all
    by (simp add: len take_exponent_def dbl_of_int_def n_def [symmetric])
qed

lemma to_dbl_finite:
  assumes "num < 2 ^ 900"
  shows "\<exists>m e. to_dbl neg num den = Fin neg m e"
proof -
  have "bitlen num \<le> 900" by (rule bitlen_le) (rule assms)
  then show ?thesis
    by (auto simp: to_dbl_def Let_def max_def split: if_splits prod.splits)
qed

lemma compare_double_of_int:
  assumes "abs i < 2 ^ 53"
  shows "compare_double (dbl_of_int i) (dbl_of_int i)"
proof -
  obtain m e where d: "dbl_of_int i = Fin (i < 0) m e" and m: "m < 2 ^ 53" and e: "e \<le> 0"
  proof (cases "i = 0")
    case True
    then show thesis by (intro that [of 0 0]) (simp_all add: dbl_of_int_def to_dbl_def)
  next
    case False
    define n where "n = nat (abs i)"
    have n: "0 < n" "n < 2 ^ 53" using False assms by (auto simp: n_def nat_less_iff)
    have b: "bitlen n \<le> 53" "n < 2 ^ bitlen n" using bitlen_le [OF n(2)] bitlen_bounds [OF n(1)] by auto
    then have "n * 2 ^ (53 - bitlen n) < 2 ^ bitlen n * 2 ^ (53 - bitlen n)" by simp
    also have "\<dots> = 2 ^ 53" using b(1) by (simp flip: power_add)
    finally show thesis
      using b(1) to_dbl_nat [OF n, of "i < 0"]
      by (intro that [of "n * 2 ^ (53 - bitlen n)" "int (bitlen n) - 53"]) (simp_all add: dbl_of_int_def n_def)
  qed
  have f: "fst (pow2_frac m e) = m" using e by (auto simp: pow2_frac_def)
  have "m < 2 ^ 900" using m by (rule order.strict_trans2) (rule power_increasing; simp)
  then obtain m' e' where eps: "to_dbl False m (snd (pow2_frac m e) * 2 ^ 52) = Fin False m' e'"
    using to_dbl_finite by metis
  have zero: "to_dbl False 0 den = Fin False 0 0" for den by (simp add: to_dbl_def)
  have le: "frac_le (pow2_frac 0 0) x" for x by (simp add: frac_le_def pow2_frac_def)
  show ?thesis
    unfolding compare_double_def d prod.case dbl.case Let_def sub_frac_def
    by (simp only: if_cancel f simp_thms if_True order_refl diff_self_eq_0 fst_conv snd_conv zero eps dbl_frac.simps
        option.case prod.case le)
qed

end
