(* ===== verification/CJson.thy ===== *)
theory CJson
  imports C_Double
begin

text \<open>
  The data structure of \<open>src/src/common/cJSON.c\<close> and its printer. The tree of \<open>cJSON\<close> structs linked by
  \<open>child\<close> and \<open>next\<close> is a datatype with one constructor per value of \<open>type & 0xFF\<close>; the members of an
  object carry their key. Allocation is taken to succeed; the limits the code itself imposes on buffer
  sizes are modelled.
\<close>

section \<open>Characters\<close>

abbreviation ord :: "char \<Rightarrow> nat" where
  "ord c \<equiv> of_char c"

definition quote_char :: char where "quote_char = CHR 0x22"
definition backslash :: char where "backslash = CHR 0x5C"

section \<open>Print buffer\<close>

definition INT_MAX :: nat where "INT_MAX = 2147483647"

text \<open>
  \<open>pb_text\<close> is what has been written up to \<open>offset\<close>, \<open>pb_length\<close> the size of the buffer. \<open>update_offset\<close>
  moves the offset behind the text a callee has written; the model appends directly.
\<close>

record printbuffer =
  pb_text :: string
  pb_length :: nat
  pb_depth :: nat
  pb_noalloc :: bool
  pb_format :: bool

definition ensure :: "printbuffer \<Rightarrow> nat \<Rightarrow> (unit, printbuffer) outcome" where
  "ensure p needed =
     (if pb_length p > 0 \<and> length (pb_text p) \<ge> pb_length p then Fail ()
      else if needed > INT_MAX then Fail ()
      else let needed = needed + length (pb_text p) + 1
           in if needed \<le> pb_length p then Ok p
              else if pb_noalloc p then Fail ()
              else if needed > INT_MAX div 2 then
                if needed \<le> INT_MAX then Ok (p\<lparr>pb_length := INT_MAX\<rparr>) else Fail ()
              else Ok (p\<lparr>pb_length := needed * 2\<rparr>))"

text \<open>
  Writing \<open>s\<close> at the offset, with \<open>nul\<close> further bytes (a terminating NUL or none) behind it: undefined
  behaviour if the buffer is too small.
\<close>

definition put :: "printbuffer \<Rightarrow> string \<Rightarrow> nat \<Rightarrow> (unit, printbuffer) outcome" where
  "put p s nul =
     (if length (pb_text p) + length s + nul \<le> pb_length p then Ok (p\<lparr>pb_text := pb_text p @ s\<rparr>) else UB)"

section \<open>Strings\<close>

definition escape_count :: "char \<Rightarrow> nat" where
  "escape_count c =
     (if c \<in> {quote_char, backslash, CHR 0x08, CHR 0x0C, CHR 0x0A, CHR 0x0D, CHR 0x09} then 1
      else if ord c < 32 then 5 else 0)"

definition hex_digit :: "nat \<Rightarrow> char" where
  "hex_digit d = (if d < 10 then char_of (48 + d) else char_of (87 + d))"

text \<open>\<open>sprintf(\<dots>, "u%04x", c)\<close> for a byte.\<close>

definition u04x :: "char \<Rightarrow> string" where
  "u04x c = [CHR ''u'', CHR ''0'', CHR ''0'', hex_digit (ord c div 16), hex_digit (ord c mod 16)]"

definition escape_char :: "char \<Rightarrow> string" where
  "escape_char c =
     (if ord c > 31 \<and> c \<noteq> quote_char \<and> c \<noteq> backslash then [c]
      else backslash #
        (if c = backslash then [backslash]
         else if c = quote_char then [quote_char]
         else if c = CHR 0x08 then ''b''
         else if c = CHR 0x0C then ''f''
         else if c = CHR 0x0A then ''n''
         else if c = CHR 0x0D then ''r''
         else if c = CHR 0x09 then ''t''
         else u04x c))"

text \<open>
  The closing quote is written at the index computed from the counted escapes; bytes before it that
  the copying loop did not reach would be indeterminate.
\<close>

definition print_string_ptr :: "string \<Rightarrow> printbuffer \<Rightarrow> (unit, printbuffer) outcome" where
  "print_string_ptr input p =
     (let escape_characters = sum_list (map escape_count input);
          output_length = length input + escape_characters
      in bindO (ensure p (output_length + 3)) (\<lambda>p.
         if escape_characters = 0 then put p (quote_char # input @ [quote_char]) 1
         else let body = concat (map escape_char input)
              in if length body < output_length then UB
                 else put p (take (output_length + 1) (quote_char # body) @ [quote_char]) 1))"

lemma length_escape_char: "length (escape_char c) = 1 + escape_count c"
proof -
  have "ord quote_char = 34" "ord backslash = 92" by (simp_all add: quote_char_def backslash_def)
  then show ?thesis
    by (auto simp: escape_char_def escape_count_def u04x_def)
qed

definition escape :: "string \<Rightarrow> string" where
  "escape s = concat (map escape_char s)"

lemma length_escape: "length (escape s) = length s + sum_list (map escape_count s)"
  by (induction s) (simp_all add: escape_def length_escape_char)

lemma escape_char_id: "escape_count c = 0 \<Longrightarrow> escape_char c = [c]"
  by (auto simp: escape_count_def escape_char_def split: if_splits)

lemma escape_id: "sum_list (map escape_count s) = 0 \<Longrightarrow> escape s = s"
  by (induction s) (simp_all add: escape_def escape_char_id)

lemma print_string_ptr_eq:
  "print_string_ptr s p =
     bindO (ensure p (length (escape s) + 3)) (\<lambda>p. put p (quote_char # escape s @ [quote_char]) 1)"
  unfolding print_string_ptr_def Let_def length_escape [symmetric] escape_def [symmetric]
  by (cases "ensure p (length (escape s) + 3)") (simp_all add: escape_id del: sum_list_eq_0_iff)

section \<open>Values\<close>

datatype cJSON =
    cJSON_Invalid
  | cJSON_False
  | cJSON_True
  | cJSON_NULL
  | cJSON_Number dbl int
  | cJSON_String string
  | cJSON_Array "cJSON list"
  | cJSON_Object "(string \<times> cJSON) list"
  | cJSON_Raw string

section \<open>The printer\<close>

text \<open>
  \<open>print_number\<close>: 15 significant digits if what they read back as is close enough to the number (\<open>compare_double\<close>),
  otherwise 17. More than
  25 characters would overrun \<open>number_buffer\<close>.
\<close>

fun number_text :: "dbl \<Rightarrow> string" where
  "number_text (Fin neg m e) =
     (let (n, d) = pow2_frac m e; s = fmt_g 15 neg n d
      in if snd (strtod s) = 0 \<or> \<not> compare_double (fst (strtod s)) (Fin neg m e) then fmt_g 17 neg n d else s)"
| "number_text _ = ''null''"

definition print_number :: "dbl \<Rightarrow> printbuffer \<Rightarrow> (unit, printbuffer) outcome" where
  "print_number d p =
     (let s = number_text d
      in if length s > 25 then UB else bindO (ensure p (length s + 1)) (\<lambda>p. put p s 1))"

fun print_value :: "cJSON \<Rightarrow> printbuffer \<Rightarrow> (unit, printbuffer) outcome"
  and print_elements :: "cJSON list \<Rightarrow> printbuffer \<Rightarrow> (unit, printbuffer) outcome"
  and print_members :: "(string \<times> cJSON) list \<Rightarrow> printbuffer \<Rightarrow> (unit, printbuffer) outcome" where
  "print_value cJSON_NULL p = bindO (ensure p 5) (\<lambda>p. put p ''null'' 1)"
| "print_value cJSON_False p = bindO (ensure p 6) (\<lambda>p. put p ''false'' 1)"
| "print_value cJSON_True p = bindO (ensure p 5) (\<lambda>p. put p ''true'' 1)"
| "print_value (cJSON_Number d i) p = print_number d p"
| "print_value (cJSON_Raw s) p = bindO (ensure p (length s + 1)) (\<lambda>p. put p s 1)"
| "print_value (cJSON_String s) p = print_string_ptr s p"
| "print_value (cJSON_Array xs) p =
     bindO (bindO (ensure p 1) (\<lambda>p. put p ''['' 0)) (\<lambda>p.
     bindO (print_elements xs (p\<lparr>pb_depth := pb_depth p + 1\<rparr>)) (\<lambda>p.
     bindO (bindO (ensure p 2) (\<lambda>p. put p '']'' 1)) (\<lambda>p.
     Ok (p\<lparr>pb_depth := pb_depth p - 1\<rparr>))))"
| "print_value (cJSON_Object ms) p =
     bindO (bindO (ensure p ((if pb_format p then 2 else 1) + 1))
       (\<lambda>p. put p (if pb_format p then [CHR ''{'', CHR 0x0A] else ''{'') 0)) (\<lambda>p.
     bindO (print_members ms (p\<lparr>pb_depth := pb_depth p + 1\<rparr>)) (\<lambda>p.
     bindO (bindO (ensure p (if pb_format p then pb_depth p + 1 else 2))
       (\<lambda>p. put p ((if pb_format p then replicate (pb_depth p - 1) (CHR 0x09) else []) @ ''}'') 1)) (\<lambda>p.
     Ok (p\<lparr>pb_depth := pb_depth p - 1\<rparr>))))"
| "print_value cJSON_Invalid p = Fail ()"
| "print_elements [] p = Ok p"
| "print_elements (x # xs) p =
     bindO (print_value x p) (\<lambda>p.
     if xs = [] then Ok p
     else bindO (bindO (ensure p ((if pb_format p then 2 else 1) + 1))
            (\<lambda>p. put p (if pb_format p then '', '' else '','') 1)) (print_elements xs))"
| "print_members [] p = Ok p"
| "print_members ((k, v) # ms) p =
     bindO (if pb_format p then bindO (ensure p (pb_depth p)) (\<lambda>p. put p (replicate (pb_depth p) (CHR 0x09)) 0)
            else Ok p) (\<lambda>p.
     bindO (print_string_ptr k p) (\<lambda>p.
     bindO (bindO (ensure p (if pb_format p then 2 else 1))
       (\<lambda>p. put p (if pb_format p then [CHR '':'', CHR 0x09] else '':'') 0)) (\<lambda>p.
     bindO (print_value v p) (\<lambda>p.
     bindO (bindO (ensure p ((if pb_format p then 1 else 0) + (if ms = [] then 0 else 1) + 1))
       (\<lambda>p. put p ((if ms = [] then [] else '','') @ (if pb_format p then [CHR 0x0A] else [])) 1))
     (print_members ms)))))"

definition print :: "cJSON \<Rightarrow> bool \<Rightarrow> (unit, string) outcome" where
  "print item format =
     bindO (print_value item
       \<lparr>pb_text = [], pb_length = 256, pb_depth = 0, pb_noalloc = False, pb_format = format\<rparr>)
     (\<lambda>p. Ok (pb_text p))"

definition cJSON_Print :: "cJSON \<Rightarrow> (unit, string) outcome" where
  "cJSON_Print item = print item True"

definition cJSON_PrintUnformatted :: "cJSON \<Rightarrow> (unit, string) outcome" where
  "cJSON_PrintUnformatted item = print item False"

definition cJSON_PrintBuffered :: "cJSON \<Rightarrow> int \<Rightarrow> bool \<Rightarrow> (unit, string) outcome" where
  "cJSON_PrintBuffered item prebuffer fmt =
     (if prebuffer < 0 then Fail ()
      else bindO (print_value item
        \<lparr>pb_text = [], pb_length = nat prebuffer, pb_depth = 0, pb_noalloc = False, pb_format = fmt\<rparr>)
      (\<lambda>p. Ok (pb_text p)))"

definition cJSON_PrintPreallocated :: "cJSON \<Rightarrow> int \<Rightarrow> bool \<Rightarrow> (unit, string) outcome" where
  "cJSON_PrintPreallocated item len format =
     (if len < 0 then Fail ()
      else bindO (print_value item
        \<lparr>pb_text = [], pb_length = nat len, pb_depth = 0, pb_noalloc = True, pb_format = format\<rparr>)
      (\<lambda>p. Ok (pb_text p)))"

section \<open>What is printed\<close>

text \<open>The JSON text of a value at a nesting depth, without any buffer.\<close>

fun json_text :: "bool \<Rightarrow> nat \<Rightarrow> cJSON \<Rightarrow> string"
  and json_elements :: "bool \<Rightarrow> nat \<Rightarrow> cJSON list \<Rightarrow> string"
  and json_members :: "bool \<Rightarrow> nat \<Rightarrow> (string \<times> cJSON) list \<Rightarrow> string" where
  "json_text f d cJSON_NULL = ''null''"
| "json_text f d cJSON_False = ''false''"
| "json_text f d cJSON_True = ''true''"
| "json_text f d (cJSON_Number x i) = number_text x"
| "json_text f d (cJSON_Raw s) = s"
| "json_text f d (cJSON_String s) = quote_char # escape s @ [quote_char]"
| "json_text f d (cJSON_Array xs) = ''['' @ json_elements f (d + 1) xs @ '']''"
| "json_text f d (cJSON_Object ms) =
     (if f then [CHR ''{'', CHR 0x0A] else ''{'') @ json_members f (d + 1) ms @
     (if f then replicate d (CHR 0x09) else []) @ ''}''"
| "json_text f d cJSON_Invalid = []"
| "json_elements f d [] = []"
| "json_elements f d (x # xs) =
     json_text f d x @ (if xs = [] then [] else (if f then '', '' else '','') @ json_elements f d xs)"
| "json_members f d [] = []"
| "json_members f d ((k, v) # ms) =
     (if f then replicate d (CHR 0x09) else []) @ (quote_char # escape k @ [quote_char]) @
     (if f then [CHR '':'', CHR 0x09] else '':'') @ json_text f d v @
     ((if ms = [] then [] else '','') @ (if f then [CHR 0x0A] else [])) @ json_members f d ms"

fun printable :: "cJSON \<Rightarrow> bool" where
  "printable (cJSON_Number x i) \<longleftrightarrow> length (number_text x) \<le> 25"
| "printable (cJSON_Array xs) \<longleftrightarrow> list_all printable xs"
| "printable (cJSON_Object ms) \<longleftrightarrow> list_all (\<lambda>(k, v). printable v) ms"
| "printable cJSON_Invalid \<longleftrightarrow> False"
| "printable _ \<longleftrightarrow> True"

section \<open>The printer is correct\<close>

text \<open>
  What a printing step from \<open>p\<close> that should append \<open>s\<close> guarantees: it stays inside the buffer, appends
  exactly \<open>s\<close> and leaves the other fields alone if it succeeds, and succeeds if the buffer may grow and
  the total stays below \<open>INT_MAX\<close>.
\<close>

definition pb_ok :: "printbuffer \<Rightarrow> bool" where
  "pb_ok p \<longleftrightarrow> length (pb_text p) < pb_length p"

lemma pb_ok_depth [simp]: "pb_ok (p\<lparr>pb_depth := d\<rparr>) = pb_ok p"
  by (simp add: pb_ok_def)

definition appended :: "printbuffer \<Rightarrow> string \<Rightarrow> printbuffer \<Rightarrow> bool" where
  "appended p s p' \<longleftrightarrow> pb_text p' = pb_text p @ s \<and> pb_ok p' \<and> pb_depth p' = pb_depth p \<and>
     pb_format p' = pb_format p \<and> pb_noalloc p' = pb_noalloc p \<and>
     (pb_noalloc p \<longrightarrow> pb_length p' = pb_length p)"

definition prints :: "printbuffer \<Rightarrow> string \<Rightarrow> (unit, printbuffer) outcome \<Rightarrow> bool" where
  "prints p s m \<longleftrightarrow> m \<noteq> UB \<and> (\<forall>p'. m = Ok p' \<longrightarrow> appended p s p') \<and>
     (\<not> pb_noalloc p \<and> length (pb_text p) + length s + 2 \<le> INT_MAX \<longrightarrow> (\<exists>p'. m = Ok p'))"

lemma prints_bind:
  assumes "prints p s m" and "\<And>p'. appended p s p' \<Longrightarrow> prints p' t (f p')"
  shows "prints p (s @ t) (bindO m f)"
proof (cases m)
  case (Ok p1)
  with assms(1) have a: "appended p s p1" by (simp add: prints_def)
  with assms(2) have b: "prints p1 t (f p1)" by blast
  have "appended p (s @ t) q" if "appended p1 t q" for q
    using a that by (simp add: appended_def)
  moreover have "length (pb_text p1) + length t = length (pb_text p) + length (s @ t)" "pb_noalloc p1 = pb_noalloc p"
    using a by (simp_all add: appended_def)
  ultimately show ?thesis
    using b unfolding Ok bindO.simps prints_def by presburger
qed (use assms(1) in \<open>auto simp: prints_def\<close>)

lemma prints_Ok: "pb_ok p \<Longrightarrow> prints p [] (Ok p)"
  by (simp add: prints_def appended_def)

lemma prints_bind_Ok:
  assumes "prints p s m"
  shows "prints p s (bindO m Ok)"
  using assms by (cases m) auto

lemma ensure_Ok:
  assumes "pb_ok p" and "ensure p needed = Ok p'"
  shows "pb_text p' = pb_text p \<and> needed + length (pb_text p) + 1 \<le> pb_length p' \<and>
    pb_depth p' = pb_depth p \<and> pb_format p' = pb_format p \<and> pb_noalloc p' = pb_noalloc p \<and>
    (pb_noalloc p \<longrightarrow> pb_length p' = pb_length p)"
  using assms by (auto simp: ensure_def pb_ok_def Let_def split: if_splits)

lemma ensure_not_UB: "ensure p needed \<noteq> UB"
  by (simp add: ensure_def Let_def)

lemma ensure_succeeds:
  assumes "pb_ok p" and "\<not> pb_noalloc p" and "needed + length (pb_text p) + 1 \<le> INT_MAX"
  shows "\<exists>p'. ensure p needed = Ok p'"
  using assms by (auto simp: ensure_def pb_ok_def Let_def)

lemma prints_put:
  assumes "pb_ok p" and "length s \<le> needed" and "needed \<le> length s + 1" and "nul \<le> 1"
    and "\<And>p'. pb_depth p' = pb_depth p \<Longrightarrow> pb_format p' = pb_format p \<Longrightarrow> g p' = s"
  shows "prints p s (bindO (ensure p needed) (\<lambda>p'. put p' (g p') nul))"
proof (cases "ensure p needed")
  case (Ok p')
  note e = ensure_Ok [OF assms(1) Ok]
  then have "put p' (g p') nul = Ok (p'\<lparr>pb_text := pb_text p' @ s\<rparr>)"
    using assms(2,4,5) by (simp add: put_def)
  then show ?thesis
    using e assms(2) by (auto simp: prints_def Ok appended_def pb_ok_def)
next
  case (Fail u)
  then show ?thesis
    using ensure_succeeds [OF assms(1), of needed] assms(3) by (auto simp: prints_def)
qed (simp add: ensure_not_UB)

lemma prints_string: "pb_ok p \<Longrightarrow> prints p (quote_char # escape s @ [quote_char]) (print_string_ptr s p)"
  unfolding print_string_ptr_eq by (rule prints_put) auto

lemma prints_number: "pb_ok p \<Longrightarrow> length (number_text d) \<le> 25 \<Longrightarrow> prints p (number_text d) (print_number d p)"
  unfolding print_number_def Let_def by (simp add: prints_put)

text \<open>Entering and leaving a nesting level.\<close>

lemma prints_nested:
  assumes "prints p a m"
    and "\<And>p'. appended p a p' \<Longrightarrow> prints (p'\<lparr>pb_depth := pb_depth p' + 1\<rparr>) s (f (p'\<lparr>pb_depth := pb_depth p' + 1\<rparr>))"
    and "\<And>p'. pb_ok p' \<Longrightarrow> pb_depth p' = pb_depth p + 1 \<Longrightarrow> pb_format p' = pb_format p \<Longrightarrow> prints p' b (g p')"
  shows "prints p (a @ s @ b) (bindO m (\<lambda>p. bindO (f (p\<lparr>pb_depth := pb_depth p + 1\<rparr>)) (\<lambda>p. bindO (g p)
     (\<lambda>p. Ok (p\<lparr>pb_depth := pb_depth p - 1\<rparr>)))))"
proof (rule prints_bind [OF assms(1)])
  fix p1 assume p1: "appended p a p1"
  let ?p2 = "p1\<lparr>pb_depth := pb_depth p1 + 1\<rparr>"
  have pr: "prints ?p2 (s @ b) (bindO (f ?p2) g)"
  proof (rule prints_bind [OF assms(2) [OF p1]])
    fix p3 assume "appended ?p2 s p3"
    with p1 show "prints p3 b (g p3)" by (intro assms(3)) (simp_all add: appended_def)
  qed
  have eq: "bindO (f ?p2) (\<lambda>p. bindO (g p) h) = bindO (bindO (f ?p2) g) h" for h :: "printbuffer \<Rightarrow> (unit, printbuffer) outcome"
    by (rule bindO_assoc [symmetric])
  show "prints p1 (s @ b) (bindO (f ?p2) (\<lambda>p. bindO (g p) (\<lambda>p. Ok (p\<lparr>pb_depth := pb_depth p - 1\<rparr>))))"
    unfolding eq
  proof (cases "bindO (f ?p2) g")
    case (Ok q)
    then have "appended ?p2 (s @ b) q" using pr by (simp add: prints_def)
    then have "appended p1 (s @ b) (q\<lparr>pb_depth := pb_depth q - 1\<rparr>)" by (simp add: appended_def)
    then show "prints p1 (s @ b) (bindO (bindO (f ?p2) g) (\<lambda>p. Ok (p\<lparr>pb_depth := pb_depth p - 1\<rparr>)))"
      unfolding Ok bindO.simps prints_def by blast
  next
    case (Fail u)
    with pr show "prints p1 (s @ b) (bindO (bindO (f ?p2) g) (\<lambda>p. Ok (p\<lparr>pb_depth := pb_depth p - 1\<rparr>)))"
      unfolding Fail bindO.simps prints_def by simp
  next
    case UB
    with pr show "prints p1 (s @ b) (bindO (bindO (f ?p2) g) (\<lambda>p. Ok (p\<lparr>pb_depth := pb_depth p - 1\<rparr>)))"
      by (simp only: prints_def) blast
  qed
qed

text \<open>A printing step that appends \<open>s\<close> whenever it starts at depth \<open>d\<close> with format \<open>f\<close>.\<close>

definition prints_at :: "nat \<Rightarrow> bool \<Rightarrow> string \<Rightarrow> (printbuffer \<Rightarrow> (unit, printbuffer) outcome) \<Rightarrow> bool" where
  "prints_at d f s m \<longleftrightarrow>
     (\<forall>p. pb_ok p \<longrightarrow> pb_depth p = d \<longrightarrow> pb_format p = f \<longrightarrow> prints p s (m p))"

lemma prints_at_bind:
  assumes "prints_at d f s m" and "prints_at d f t n"
  shows "prints_at d f (s @ t) (\<lambda>p. bindO (m p) n)"
  unfolding prints_at_def
proof (intro allI impI prints_bind)
  fix p assume p: "pb_ok p" "pb_depth p = d" "pb_format p = f"
  then show "prints p s (m p)" using assms(1) by (simp add: prints_at_def)
  fix p' assume "appended p s p'"
  then show "prints p' t (n p')" using assms(2) p by (simp add: prints_at_def appended_def)
qed

lemma prints_at_put:
  assumes "length s \<le> needed d f" and "needed d f \<le> length s + 1" and "nul \<le> 1"
    and "g d f = s"
  shows "prints_at d f s (\<lambda>p. bindO (ensure p (needed (pb_depth p) (pb_format p)))
     (\<lambda>p. put p (g (pb_depth p) (pb_format p)) nul))"
  using assms by (auto simp: prints_at_def intro!: prints_put)

lemma prints_at_string: "prints_at d f (quote_char # escape s @ [quote_char]) (print_string_ptr s)"
  by (simp add: prints_at_def prints_string)

lemma prints_at_Ok: "prints_at d f [] Ok"
  by (simp add: prints_at_def prints_Ok)

lemma prints_at_nested:
  assumes "prints_at d f a m" and "prints_at (d + 1) f s n" and "prints_at (d + 1) f b l"
  shows "prints_at d f (a @ s @ b) (\<lambda>p. bindO (m p) (\<lambda>p. bindO (n (p\<lparr>pb_depth := pb_depth p + 1\<rparr>)) (\<lambda>p. bindO (l p)
     (\<lambda>p. Ok (p\<lparr>pb_depth := pb_depth p - 1\<rparr>)))))"
  unfolding prints_at_def
proof (intro allI impI prints_nested)
  fix p assume p: "pb_ok p" "pb_depth p = d" "pb_format p = f"
  then show "prints p a (m p)" using assms(1) by (simp add: prints_at_def)
  fix p' assume "appended p a p'"
  then have "pb_ok (p'\<lparr>pb_depth := pb_depth p' + 1\<rparr>)" "pb_depth (p'\<lparr>pb_depth := pb_depth p' + 1\<rparr>) = d + 1"
    "pb_format (p'\<lparr>pb_depth := pb_depth p' + 1\<rparr>) = f"
    using p by (simp_all add: appended_def)
  then show "prints (p'\<lparr>pb_depth := pb_depth p' + 1\<rparr>) s (n (p'\<lparr>pb_depth := pb_depth p' + 1\<rparr>))"
    using assms(2) unfolding prints_at_def by blast
next
  fix p p' assume "pb_depth p = d" "pb_format p = f" "pb_ok p'" "pb_depth p' = pb_depth p + 1" "pb_format p' = pb_format p"
  then show "prints p' b (l p')" using assms(3) by (simp add: prints_at_def)
qed

definition prints_value :: "cJSON \<Rightarrow> bool" where
  "prints_value v \<longleftrightarrow> (\<forall>d f. prints_at d f (json_text f d v) (print_value v))"

lemma print_elements_prints:
  "\<forall>x \<in> set xs. prints_value x \<Longrightarrow> prints_at d f (json_elements f d xs) (print_elements xs)"
proof (induction xs)
  case Nil
  have "print_elements [] = Ok" by (rule ext) simp
  then show ?case by (simp add: prints_at_Ok)
next
  case (Cons x xs)
  then have x: "prints_at d f (json_text f d x) (print_value x)" by (simp add: prints_value_def)
  show ?case
  proof (cases "xs = []")
    case True
    have "print_elements [x] = (\<lambda>p. bindO (print_value x p) Ok)" by (rule ext) simp
    then show ?thesis using prints_at_bind [OF x prints_at_Ok] True by simp
  next
    case False
    have "prints_at d f (if f then '', '' else '','') (\<lambda>p. bindO (ensure p ((if pb_format p then 2 else 1) + 1))
        (\<lambda>p. put p (if pb_format p then '', '' else '','') 1))"
      using prints_at_put [of _ "\<lambda>d f. (if f then 2 else 1) + 1" d f 1 "\<lambda>d f. if f then '', '' else '',''"] by simp
    from prints_at_bind [OF x prints_at_bind [OF this Cons.IH]] Cons.prems False show ?thesis
      by (simp add: print_elements.simps [abs_def])
  qed
qed

lemma print_members_prints:
  "\<forall>m \<in> set ms. prints_value (snd m) \<Longrightarrow> prints_at d f (json_members f d ms) (print_members ms)"
proof (induction ms)
  case Nil
  have "print_members [] = Ok" by (rule ext) simp
  then show ?case by (simp add: prints_at_Ok)
next
  case (Cons m ms)
  obtain k v where m: "m = (k, v)" by (cases m)
  have v: "prints_at d f (json_text f d v) (print_value v)"
    using Cons.prems by (simp add: m prints_value_def)
  have rest: "prints_at d f (json_members f d ms) (print_members ms)" using Cons by simp
  have tabs: "prints_at d f (if f then replicate d (CHR 0x09) else []) (\<lambda>p. if pb_format p
     then bindO (ensure p (pb_depth p)) (\<lambda>p. put p (replicate (pb_depth p) (CHR 0x09)) 0) else Ok p)"
    by (cases f) (auto simp: prints_at_def intro!: prints_put prints_Ok)
  have colon: "prints_at d f (if f then [CHR '':'', CHR 0x09] else '':'')
     (\<lambda>p. bindO (ensure p (if pb_format p then 2 else 1)) (\<lambda>p. put p (if pb_format p then [CHR '':'', CHR 0x09] else '':'') 0))"
    by (auto simp: prints_at_def intro!: prints_put)
  have comma: "prints_at d f ((if ms = [] then [] else '','') @ (if f then [CHR 0x0A] else []))
     (\<lambda>p. bindO (ensure p ((if pb_format p then 1 else 0) + (if ms = [] then 0 else 1) + 1))
     (\<lambda>p. put p ((if ms = [] then [] else '','') @ (if pb_format p then [CHR 0x0A] else [])) 1))"
    by (auto simp: prints_at_def intro!: prints_put)
  have "print_members (m # ms) = (\<lambda>p. bindO (if pb_format p then bindO (ensure p (pb_depth p)) (\<lambda>p. put p (replicate (pb_depth p) (CHR 0x09)) 0)
            else Ok p) (\<lambda>p.
     bindO (print_string_ptr k p) (\<lambda>p.
     bindO (bindO (ensure p (if pb_format p then 2 else 1))
       (\<lambda>p. put p (if pb_format p then [CHR '':'', CHR 0x09] else '':'') 0)) (\<lambda>p.
     bindO (print_value v p) (\<lambda>p.
     bindO (bindO (ensure p ((if pb_format p then 1 else 0) + (if ms = [] then 0 else 1) + 1))
       (\<lambda>p. put p ((if ms = [] then [] else '','') @ (if pb_format p then [CHR 0x0A] else [])) 1))
     (print_members ms))))))"
    unfolding m by (rule ext) (rule print_members.simps)
  then show ?case
    using prints_at_bind [OF tabs prints_at_bind [OF prints_at_string prints_at_bind [OF colon
      prints_at_bind [OF v prints_at_bind [OF comma rest]]]]]
    by (simp only: m json_members.simps)
qed

lemma print_value_prints: "printable v \<Longrightarrow> prints_value v"
proof (induction v)
  case (cJSON_Array xs)
  then have xs: "\<forall>x \<in> set xs. prints_value x" by (auto simp: list_all_iff)
  have "prints_at d f ''['' (\<lambda>p. bindO (ensure p 1) (\<lambda>p. put p ''['' 0))"
    "prints_at (d + 1) f '']'' (\<lambda>p. bindO (ensure p 2) (\<lambda>p. put p '']'' 1))" for d f
    by (auto simp: prints_at_def intro!: prints_put)
  from prints_at_nested [OF this(1) print_elements_prints [OF xs] this(2)] show ?case
    unfolding prints_value_def json_text.simps print_value.simps [abs_def] by blast
next
  case (cJSON_Object ms)
  then have ms: "\<forall>m \<in> set ms. prints_value (snd m)" by (force simp: list_all_iff)
  have "prints_at d f (if f then [CHR ''{'', CHR 0x0A] else ''{'')
       (\<lambda>p. bindO (ensure p ((if pb_format p then 2 else 1) + 1)) (\<lambda>p. put p (if pb_format p then [CHR ''{'', CHR 0x0A] else ''{'') 0))"
    "prints_at (d + 1) f ((if f then replicate d (CHR 0x09) else []) @ ''}'')
       (\<lambda>p. bindO (ensure p (if pb_format p then pb_depth p + 1 else 2))
       (\<lambda>p. put p ((if pb_format p then replicate (pb_depth p - 1) (CHR 0x09) else []) @ ''}'') 1))" for d f
    by (auto simp: prints_at_def intro!: prints_put)
  from prints_at_nested [OF this(1) print_members_prints [OF ms] this(2)] show ?case
    unfolding prints_value_def json_text.simps print_value.simps [abs_def] by blast
next
  case (cJSON_String s)
  then show ?case by (simp add: prints_value_def prints_at_def prints_string)
next
  case (cJSON_Number d i)
  then show ?case by (simp add: prints_value_def prints_at_def prints_number)
next
  case (cJSON_Raw s)
  then show ?case by (simp add: prints_value_def prints_at_def prints_put)
qed (simp_all add: prints_value_def prints_at_def prints_put)

lemma number_text_int:
  assumes "abs i < 10 ^ 15"
  shows "number_text (dbl_of_int i) = show_int i"
proof -
  have small: "abs i < 2 ^ 53" using assms by simp
  obtain m e where d: "dbl_of_int i = Fin (i < 0) m e"
    and t: "fmt_g 15 (i < 0) (fst (pow2_frac m e)) (snd (pow2_frac m e)) = show_int i"
    using fmt_g_of_int [OF assms _ small] by auto
  have "show_int i \<noteq> []" by (simp add: show_int_def)
  then have "snd (strtod (show_int i)) \<noteq> 0" "compare_double (fst (strtod (show_int i))) (Fin (i < 0) m e)"
    using compare_double_of_int [OF small] by (simp_all add: strtod_show_int d)
  then show ?thesis
    by (simp add: d split_beta t)
qed

lemma printsD:
  "printable v \<Longrightarrow> pb_ok p \<Longrightarrow> prints p (json_text (pb_format p) (pb_depth p) v) (print_value v p)"
  using print_value_prints by (simp add: prints_value_def prints_at_def)

lemma print_ok:
  assumes "printable v" and "length (json_text f 0 v) + 2 \<le> INT_MAX"
  shows "print v f = Ok (json_text f 0 v)"
proof -
  let ?p = "\<lparr>pb_text = [], pb_length = 256, pb_depth = 0, pb_noalloc = False, pb_format = f\<rparr>"
  have "prints ?p (json_text f 0 v) (print_value v ?p)"
    using printsD [OF assms(1), of ?p] by (simp add: pb_ok_def)
  then show ?thesis
    using assms(2) by (auto simp: print_def prints_def appended_def)
qed

text \<open>
  C16: \<open>cJSON_Print\<close> and \<open>cJSON_PrintUnformatted\<close> render every tree without an invalid item as its JSON
  text, however often the buffer has to be enlarged, as long as the text is shorter than \<open>INT_MAX\<close>; and
  they never write outside the buffer.
\<close>

theorem cJSON_Print_correct:
  assumes "printable v" and "length (json_text True 0 v) + 2 \<le> INT_MAX"
    and "length (json_text False 0 v) + 2 \<le> INT_MAX"
  shows "cJSON_Print v = Ok (json_text True 0 v) \<and> cJSON_PrintUnformatted v = Ok (json_text False 0 v)"
  using assms by (simp add: cJSON_Print_def cJSON_PrintUnformatted_def print_ok)

theorem cJSON_Print_correct_witness:
  "cJSON_Print (cJSON_Array [cJSON_True, cJSON_String ''a'']) = Ok (''[true, '' @ quote_char # ''a'' @ [quote_char] @ '']'')"
  using cJSON_Print_correct [of "cJSON_Array [cJSON_True, cJSON_String ''a'']"]
  by (simp add: INT_MAX_def escape_def escape_char_def quote_char_def backslash_def)

text \<open>
  C18: printing into a preallocated buffer stays inside it whatever its size: the printer reports
  failure, or the buffer holds the JSON text and its terminating NUL.
\<close>

theorem cJSON_PrintPreallocated_safe:
  assumes "printable v"
  shows "case cJSON_PrintPreallocated v len f of
      Ok s \<Rightarrow> s = json_text f 0 v \<and> int (length s) < len | Fail _ \<Rightarrow> True | UB \<Rightarrow> False"
proof (cases "0 < len")
  case True
  let ?p = "\<lparr>pb_text = [], pb_length = nat len, pb_depth = 0, pb_noalloc = True, pb_format = f\<rparr>"
  have "prints ?p (json_text f 0 v) (print_value v ?p)"
    using printsD [OF assms, of ?p] True by (simp add: pb_ok_def)
  then show ?thesis
    using True by (cases "print_value v ?p") (auto simp: cJSON_PrintPreallocated_def prints_def appended_def pb_ok_def)
next
  case False
  have ensure: "ensure \<lparr>pb_text = [], pb_length = 0, pb_depth = 0, pb_noalloc = True, pb_format = f\<rparr> n = Fail ()" for n
    by (simp add: ensure_def)
  have "print_value v \<lparr>pb_text = [], pb_length = 0, pb_depth = 0, pb_noalloc = True, pb_format = f\<rparr> = Fail ()"
    using assms by (cases v) (simp_all add: ensure print_string_ptr_eq print_number_def)
  with False show ?thesis by (simp add: cJSON_PrintPreallocated_def)
qed

theorem cJSON_PrintPreallocated_safe_witness:
  "cJSON_PrintPreallocated (cJSON_Array [cJSON_NULL]) 3 True \<noteq> UB"
  using cJSON_PrintPreallocated_safe [where v = "cJSON_Array [cJSON_NULL]" and len = 3 and f = True] by auto

end
