(* ===== verification/CJson_Parse.thy ===== *)
theory CJson_Parse
  imports CJson
begin

text \<open>
  The parser of \<open>src/src/common/cJSON.c\<close>. The parse buffer is the list of its \<open>length\<close> bytes, for
  \<open>cJSON_Parse\<close> the text with its terminating NUL, and an offset. A parser returns the value and the
  offset behind it, fails with the offset that \<open>cJSON_GetErrorPtr\<close> would report, or reads outside the
  buffer (\<^const>\<open>UB\<close>). The nesting depth left, \<open>CJSON_NESTING_LIMIT - depth\<close>, is what the recursion of
  \<open>parse_value\<close> counts down.
\<close>

section \<open>Strings\<close>

definition hex_val :: "char \<Rightarrow> nat option" where
  "hex_val c =
     (if ord c \<ge> 48 \<and> ord c \<le> 57 then Some (ord c - 48)
      else if ord c \<ge> 65 \<and> ord c \<le> 70 then Some (10 + ord c - 65)
      else if ord c \<ge> 97 \<and> ord c \<le> 102 then Some (10 + ord c - 97)
      else None)"

fun parse_hex4_loop :: "nat \<Rightarrow> nat \<Rightarrow> string \<Rightarrow> nat" where
  "parse_hex4_loop h i [] = 0"
| "parse_hex4_loop h i (c # input) =
     (case hex_val c of
        None \<Rightarrow> 0
      | Some d \<Rightarrow> if i < 3 then parse_hex4_loop (push_bit 4 (h + d)) (i + 1) input else h + d)"

definition parse_hex4 :: "string \<Rightarrow> nat" where
  "parse_hex4 input = parse_hex4_loop 0 0 input"

text \<open>The bytes behind the first one, last byte first.\<close>

fun utf8_loop :: "nat \<Rightarrow> nat \<Rightarrow> string \<Rightarrow> nat \<times> string" where
  "utf8_loop 0 codepoint out = (codepoint, out)"
| "utf8_loop (Suc k) codepoint out =
     utf8_loop k (drop_bit 6 codepoint) (char_of ((codepoint OR 0x80) AND 0xBF) # out)"

definition utf8_bytes :: "nat \<Rightarrow> string option" where
  "utf8_bytes codepoint =
     (if codepoint > 0x10FFFF then None
      else let (utf8_length, first_byte_mark) =
             (if codepoint < 0x80 then (1, 0) else if codepoint < 0x800 then (2, 0xC0)
              else if codepoint < 0x10000 then (3, 0xE0) else (4 :: nat, 0xF0 :: nat));
             (codepoint, out) = utf8_loop (utf8_length - 1) codepoint []
           in Some ((if utf8_length > 1 then char_of ((codepoint OR first_byte_mark) AND 0xFF)
                     else char_of (codepoint AND 0x7F)) # out))"

text \<open>
  \<open>utf16_literal_to_utf8\<close> on the characters from \<open>input_pointer\<close> to \<open>input_end\<close>: the bytes written and the
  length of the sequence.
\<close>

definition utf16_literal_to_utf8 :: "string \<Rightarrow> (string \<times> nat) option" where
  "utf16_literal_to_utf8 s =
     (if length s < 6 then None
      else let first_code = parse_hex4 (drop 2 s)
           in if first_code \<ge> 0xDC00 \<and> first_code \<le> 0xDFFF then None
              else if first_code \<ge> 0xD800 \<and> first_code \<le> 0xDBFF then
                let second = drop 6 s
                in if length second < 6 then None
                   else if second ! 0 \<noteq> backslash \<or> second ! 1 \<noteq> CHR ''u'' then None
                   else let second_code = parse_hex4 (drop 2 second)
                        in if second_code < 0xDC00 \<or> second_code > 0xDFFF then None
                           else map_option (\<lambda>bs. (bs, 12))
                             (utf8_bytes (0x10000 + (push_bit 10 (first_code AND 0x3FF) OR (second_code AND 0x3FF))))
              else map_option (\<lambda>bs. (bs, 6)) (utf8_bytes first_code))"

text \<open>
  The first loop of \<open>parse_string\<close>: the offset of the closing quote (or the end of the buffer) and the
  number of escapes.
\<close>

function string_end :: "string \<Rightarrow> nat \<Rightarrow> nat \<Rightarrow> (nat \<times> nat) option" where
  "string_end content input_end skipped_bytes =
     (if input_end < length content \<and> content ! input_end \<noteq> quote_char then
        if content ! input_end = backslash then
          if input_end + 1 \<ge> length content then None
          else string_end content (input_end + 2) (skipped_bytes + 1)
        else string_end content (input_end + 1) skipped_bytes
      else Some (input_end, skipped_bytes))"
  by auto
termination
  by (relation "measure (\<lambda>(content, i, _). length content - i)") auto

text \<open>
  The second loop, writing into an allocation of \<open>cap + 1\<close> bytes.
\<close>

definition write_out :: "nat \<Rightarrow> string \<Rightarrow> string \<Rightarrow> (nat, string) outcome" where
  "write_out cap out s = (if length out + length s \<le> cap then Ok (out @ s) else UB)"

definition simple_escape :: "char \<Rightarrow> char option" where
  "simple_escape c =
     (if c = CHR ''b'' then Some (CHR 0x08) else if c = CHR ''f'' then Some (CHR 0x0C)
      else if c = CHR ''n'' then Some (CHR 0x0A) else if c = CHR ''r'' then Some (CHR 0x0D)
      else if c = CHR ''t'' then Some (CHR 0x09)
      else if c = quote_char \<or> c = backslash \<or> c = CHR ''/'' then Some c else None)"

function unescape_loop :: "string \<Rightarrow> nat \<Rightarrow> nat \<Rightarrow> nat \<Rightarrow> string \<Rightarrow> (nat, string) outcome" where
  "unescape_loop content input_end cap ip out =
     (if ip < input_end then
        if length content \<le> ip then UB
        else if content ! ip \<noteq> backslash then
          bindO (write_out cap out [content ! ip]) (unescape_loop content input_end cap (ip + 1))
        else if length content \<le> ip + 1 then UB
        else case simple_escape (content ! (ip + 1)) of
            Some c \<Rightarrow> bindO (write_out cap out [c]) (unescape_loop content input_end cap (ip + 2))
          | None \<Rightarrow>
              if content ! (ip + 1) = CHR ''u'' then
                case utf16_literal_to_utf8 (drop ip (take input_end content)) of
                  None \<Rightarrow> Fail ip
                | Some (bs, sequence_length) \<Rightarrow>
                    (if sequence_length = 0 then Fail ip
                     else bindO (write_out cap out bs) (unescape_loop content input_end cap (ip + sequence_length)))
              else Fail ip
      else Ok out)"
  by auto
termination
  by (relation "measure (\<lambda>(_, input_end, _, ip, _). input_end - ip)") auto

declare string_end.simps [simp del] unescape_loop.simps [simp del]

definition parse_string :: "string \<Rightarrow> nat \<Rightarrow> (nat, string \<times> nat) outcome" where
  "parse_string content off =
     (if length content \<le> off then UB
      else if content ! off \<noteq> quote_char then Fail (off + 1)
      else case string_end content (off + 1) 0 of
          None \<Rightarrow> Fail (off + 1)
        | Some (input_end, skipped_bytes) \<Rightarrow>
            (if input_end \<ge> length content \<or> content ! input_end \<noteq> quote_char then Fail (off + 1)
             else bindO (unescape_loop content input_end (input_end - off - skipped_bytes) (off + 1) [])
               (\<lambda>output. Ok (c_str output, input_end + 1))))"

section \<open>Numbers\<close>

definition number_char :: "char \<Rightarrow> bool" where
  "number_char c \<longleftrightarrow> c_isdigit c \<or> c = CHR ''+'' \<or> c = CHR ''-'' \<or> c = CHR ''e'' \<or> c = CHR ''E'' \<or> c = CHR ''.''"

text \<open>The \<open>valueint\<close> of a number: saturated, truncated otherwise.\<close>

definition INT_MIN :: int where "INT_MIN = - 2147483648"

fun valueint :: "dbl \<Rightarrow> int option" where
  "valueint (Infinity neg) = Some (if neg then INT_MIN else int INT_MAX)"
| "valueint NaN = None"
| "valueint d = map_option (\<lambda>t. if t \<ge> int INT_MAX then int INT_MAX else if t \<le> INT_MIN then INT_MIN else t) (dbl_trunc d)"

definition parse_number :: "string \<Rightarrow> nat \<Rightarrow> (nat, cJSON \<times> nat) outcome" where
  "parse_number content off =
     (let number_c_string = take 63 (takeWhile number_char (drop off content));
          (number, used) = strtod number_c_string
      in if used = 0 then Fail off
         else case valueint number of None \<Rightarrow> UB | Some i \<Rightarrow> Ok (cJSON_Number number i, off + used))"

section \<open>Values\<close>

definition buffer_skip_whitespace :: "string \<Rightarrow> nat \<Rightarrow> nat" where
  "buffer_skip_whitespace content off =
     (if length content \<le> off then off
      else let off = off + length (takeWhile (\<lambda>c. ord c \<le> 32) (drop off content))
           in if off = length content then off - 1 else off)"

definition looking_at :: "string \<Rightarrow> nat \<Rightarrow> char \<Rightarrow> bool" where
  "looking_at content off c \<longleftrightarrow> off < length content \<and> content ! off = c"

definition literal_at :: "string \<Rightarrow> nat \<Rightarrow> string \<Rightarrow> bool" where
  "literal_at content off s \<longleftrightarrow> off + length s \<le> length content \<and> take (length s) (drop off content) = s"

text \<open>
  The loops over the elements of an array and the members of an object, from the character before an
  element; the first argument bounds the number of iterations, and running out of it counts as
  undefined behaviour, so that a proof of safety is a proof that it suffices.
\<close>

fun array_loop :: "nat \<Rightarrow> (nat \<Rightarrow> (nat, cJSON \<times> nat) outcome) \<Rightarrow> string \<Rightarrow> nat \<Rightarrow> (nat, cJSON list \<times> nat) outcome" where
  "array_loop 0 pv content off = UB"
| "array_loop (Suc n) pv content off =
     bindO (pv (buffer_skip_whitespace content (off + 1))) (\<lambda>(x, off).
       let off = buffer_skip_whitespace content off
       in if looking_at content off (CHR '','') then
            bindO (array_loop n pv content off) (\<lambda>(xs, off). Ok (x # xs, off))
          else if \<not> looking_at content off (CHR '']'') then Fail off
          else Ok ([x], off + 1))"

definition parse_array :: "(nat \<Rightarrow> (nat, cJSON \<times> nat) outcome) \<Rightarrow> string \<Rightarrow> nat \<Rightarrow> (nat, cJSON \<times> nat) outcome" where
  "parse_array pv content off =
     (let off = buffer_skip_whitespace content (off + 1)
      in if looking_at content off (CHR '']'') then Ok (cJSON_Array [], off + 1)
         else if length content \<le> off then Fail (off - 1)
         else bindO (array_loop (length content) pv content (off - 1)) (\<lambda>(xs, off). Ok (cJSON_Array xs, off)))"

fun object_loop :: "nat \<Rightarrow> (nat \<Rightarrow> (nat, cJSON \<times> nat) outcome) \<Rightarrow> string \<Rightarrow> nat \<Rightarrow> (nat, (string \<times> cJSON) list \<times> nat) outcome" where
  "object_loop 0 pv content off = UB"
| "object_loop (Suc n) pv content off =
     bindO (parse_string content (buffer_skip_whitespace content (off + 1))) (\<lambda>(k, off).
       let off = buffer_skip_whitespace content off
       in if \<not> looking_at content off (CHR '':'') then Fail off
          else bindO (pv (buffer_skip_whitespace content (off + 1))) (\<lambda>(v, off).
            let off = buffer_skip_whitespace content off
            in if looking_at content off (CHR '','') then
                 bindO (object_loop n pv content off) (\<lambda>(ms, off). Ok ((k, v) # ms, off))
               else if \<not> looking_at content off (CHR ''}'') then Fail off
               else Ok ([(k, v)], off + 1)))"

definition parse_object :: "(nat \<Rightarrow> (nat, cJSON \<times> nat) outcome) \<Rightarrow> string \<Rightarrow> nat \<Rightarrow> (nat, cJSON \<times> nat) outcome" where
  "parse_object pv content off =
     (if \<not> looking_at content off (CHR ''{'') then Fail off
      else let off = buffer_skip_whitespace content (off + 1)
      in if looking_at content off (CHR ''}'') then Ok (cJSON_Object [], off + 1)
         else if length content \<le> off then Fail (off - 1)
         else bindO (object_loop (length content) pv content (off - 1)) (\<lambda>(ms, off). Ok (cJSON_Object ms, off)))"

text \<open>
  \<open>parse_value\<close>, with the array and object parsers it may call as arguments.
\<close>

definition value_step :: "(string \<Rightarrow> nat \<Rightarrow> (nat, cJSON \<times> nat) outcome) \<Rightarrow> (string \<Rightarrow> nat \<Rightarrow> (nat, cJSON \<times> nat) outcome) \<Rightarrow>
    string \<Rightarrow> nat \<Rightarrow> (nat, cJSON \<times> nat) outcome" where
  "value_step arr obj content off =
     (if literal_at content off ''null'' then Ok (cJSON_NULL, off + 4)
      else if literal_at content off ''false'' then Ok (cJSON_False, off + 5)
      else if literal_at content off ''true'' then Ok (cJSON_True, off + 4)
      else if looking_at content off quote_char then
        bindO (parse_string content off) (\<lambda>(s, off). Ok (cJSON_String s, off))
      else if off < length content \<and> (content ! off = CHR ''-'' \<or> c_isdigit (content ! off)) then
        parse_number content off
      else if looking_at content off (CHR ''['') then arr content off
      else if looking_at content off (CHR ''{'') then obj content off
      else Fail off)"

definition CJSON_NESTING_LIMIT :: nat where "CJSON_NESTING_LIMIT = 1000"

primrec parse_value :: "nat \<Rightarrow> string \<Rightarrow> nat \<Rightarrow> (nat, cJSON \<times> nat) outcome" where
  "parse_value 0 = value_step (\<lambda>content off. Fail off) (\<lambda>content off. Fail off)"
| "parse_value (Suc depth_left) = value_step
     (\<lambda>content. parse_array (parse_value depth_left content) content)
     (\<lambda>content. parse_object (parse_value depth_left content) content)"

section \<open>Entry points\<close>

definition skip_utf8_bom :: "string \<Rightarrow> nat" where
  "skip_utf8_bom content =
     (if 4 < length content \<and> take 3 content = [CHR 0xEF, CHR 0xBB, CHR 0xBF] then 3 else 0)"

definition error_position :: "string \<Rightarrow> nat \<Rightarrow> nat" where
  "error_position content off = (if off < length content then off else length content - 1)"

definition cJSON_ParseWithLengthOpts :: "string \<Rightarrow> bool \<Rightarrow> (nat, cJSON \<times> nat) outcome" where
  "cJSON_ParseWithLengthOpts content require_null_terminated =
     (if content = [] then Fail 0
      else case parse_value CJSON_NESTING_LIMIT content (buffer_skip_whitespace content (skip_utf8_bom content)) of
          UB \<Rightarrow> UB
        | Fail off \<Rightarrow> Fail (error_position content off)
        | Ok (item, off) \<Rightarrow>
            (if require_null_terminated then
               let off = buffer_skip_whitespace content off
               in if off \<ge> length content \<or> content ! off \<noteq> CHR 0x00 then Fail (error_position content off)
                  else Ok (item, off)
             else Ok (item, off)))"

definition cJSON_ParseWithOpts :: "string \<Rightarrow> bool \<Rightarrow> (nat, cJSON \<times> nat) outcome" where
  "cJSON_ParseWithOpts s require_null_terminated = cJSON_ParseWithLengthOpts (s @ [CHR 0x00]) require_null_terminated"

definition cJSON_Parse :: "string \<Rightarrow> (nat, cJSON) outcome" where
  "cJSON_Parse s = bindO (cJSON_ParseWithOpts s False) (\<lambda>(item, off). Ok item)"

definition cJSON_ParseWithLength :: "string \<Rightarrow> (nat, cJSON) outcome" where
  "cJSON_ParseWithLength content = bindO (cJSON_ParseWithLengthOpts content False) (\<lambda>(item, off). Ok item)"

end
