(* ===== verification/CJson_Roundtrip.thy ===== *)
theory CJson_Roundtrip
  imports CJson_Parse
begin

text \<open>
  Printing and parsing of \<open>src/src/common/cJSON.c\<close> fit together: what \<open>cJSON_Print\<close> and
  \<open>cJSON_PrintUnformatted\<close> write, \<open>cJSON_Parse\<close> reads back as the same tree.
\<close>

section \<open>Strings\<close>

definition skips :: "string \<Rightarrow> nat" where
  "skips s = length (filter (\<lambda>c. escape_char c \<noteq> [c]) s)"

text \<open>The three shapes of an escaped character.\<close>

lemma escape_char_cases:
  obtains (plain) "escape_char c = [c]" "c \<noteq> quote_char" "c \<noteq> backslash"
  | (simple) x where "escape_char c = [backslash, x]" "simple_escape x = Some c"
  | (unicode) "escape_char c = backslash # u04x c" "ord c < 32"
proof -
  have q: "ord quote_char = 34" "ord backslash = 92" by (simp_all add: quote_char_def backslash_def)
  show ?thesis
  proof (cases "ord c > 31 \<and> c \<noteq> quote_char \<and> c \<noteq> backslash")
    case True
    then show ?thesis using plain by (simp add: escape_char_def)
  next
    case False
    show ?thesis
    proof (cases "c \<in> {quote_char, backslash, CHR 0x08, CHR 0x0C, CHR 0x0A, CHR 0x0D, CHR 0x09}")
      case True
      then show ?thesis
        using simple [of "hd (tl (escape_char c))"]
        by (auto simp: escape_char_def simple_escape_def quote_char_def backslash_def)
    next
      case no: False
      with False show ?thesis using unicode by (auto simp: escape_char_def)
    qed
  qed
qed

lemma nth_pre: "content = pre @ c # post \<Longrightarrow> content ! length pre = c \<and> length pre < length content"
  by simp

lemma string_end_plain:
  "content = pre @ p @ rest \<Longrightarrow> quote_char \<notin> set p \<Longrightarrow> backslash \<notin> set p \<Longrightarrow>
     string_end content (length pre) sk = string_end content (length pre + length p) sk"
proof (induction p arbitrary: pre)
  case (Cons c p)
  have at: "content ! length pre = c" "length pre < length content" using nth_pre [of content pre c "p @ rest"] Cons.prems by auto
  have "string_end content (length pre) sk = string_end content (length pre + 1) sk"
    using at Cons.prems by (subst string_end.simps) auto
  moreover have "string_end content (length (pre @ [c])) sk = string_end content (length (pre @ [c]) + length p) sk"
    by (rule Cons.IH) (use Cons.prems in auto)
  ultimately show ?case by simp
qed simp

lemma string_end_backslash:
  assumes "content = pre @ backslash # x # rest"
  shows "string_end content (length pre) sk = string_end content (length pre + 2) (sk + 1)"
  using nth_pre [of content pre backslash "x # rest"] assms
  by (subst string_end.simps) (simp add: quote_char_def backslash_def)

lemma ord_hex_digit: "d < 16 \<Longrightarrow> ord (hex_digit d) = (if d < 10 then 48 + d else 87 + d)"
  by (simp add: hex_digit_def)

lemma hex_digit_plain:
  assumes "d < 16"
  shows "hex_digit d \<noteq> quote_char" "hex_digit d \<noteq> backslash" "hex_val (hex_digit d) = Some d"
proof -
  have "ord quote_char = 34" "ord backslash = 92" by (simp_all add: quote_char_def backslash_def)
  then show "hex_digit d \<noteq> quote_char" "hex_digit d \<noteq> backslash"
    using ord_hex_digit [OF assms] assms by (auto split: if_splits)
  show "hex_val (hex_digit d) = Some d"
    using assms unfolding hex_val_def ord_hex_digit [OF assms] by auto
qed

lemma ord_less: "ord c < 256"
  by (metis of_char_mod_256 mod_less_divisor zero_less_numeral)

lemma u04x_plain: "quote_char \<notin> set (u04x c)" "backslash \<notin> set (u04x c)"
proof -
  have "ord c div 16 < 16" "ord c mod 16 < 16" using ord_less [of c] by (simp_all add: less_mult_imp_div_less)
  then show "quote_char \<notin> set (u04x c)" "backslash \<notin> set (u04x c)"
    using hex_digit_plain(1,2) [symmetric] by (auto simp: u04x_def quote_char_def backslash_def)
qed

lemma string_end_escape:
  "content = pre @ escape s @ quote_char # post \<Longrightarrow>
     string_end content (length pre) sk = Some (length pre + length (escape s), sk + skips s)"
proof (induction s arbitrary: pre sk)
  case Nil
  then show ?case
    using nth_pre [of content pre quote_char post] by (subst string_end.simps) (simp add: escape_def skips_def)
next
  case (Cons c s)
  have content: "content = pre @ escape_char c @ escape s @ quote_char # post" using Cons.prems by (simp add: escape_def)
  have IH: "string_end content (length pre + length (escape_char c)) sk'
      = Some (length pre + length (escape (c # s)), sk' + skips s)" for sk'
    using Cons.IH [of "pre @ escape_char c" sk'] content by (simp add: escape_def add.assoc)
  show ?case
  proof (cases c rule: escape_char_cases)
    case plain
    have "string_end content (length pre) sk = string_end content (length pre + length [c]) sk"
      by (rule string_end_plain [where rest = "escape s @ quote_char # post"]) (use plain content in auto)
    with IH [of sk] plain show ?thesis by (simp add: skips_def)
  next
    case (simple x)
    then have "string_end content (length pre) sk = string_end content (length pre + 2) (sk + 1)"
      by (intro string_end_backslash [where rest = "escape s @ quote_char # post"]) (use content in simp)
    with IH [of "sk + 1"] simple show ?thesis by (simp add: skips_def)
  next
    case unicode
    have "string_end content (length pre) sk = string_end content (length (pre @ [backslash, CHR ''u''])) (sk + 1)"
      using string_end_backslash [of content pre "CHR ''u''" "tl (u04x c) @ escape s @ quote_char # post"] content unicode
      by (simp add: u04x_def)
    also have "\<dots> = string_end content (length (pre @ [backslash, CHR ''u'']) + length (tl (u04x c))) (sk + 1)"
      by (rule string_end_plain [where rest = "escape s @ quote_char # post"])
        (use content unicode u04x_plain [of c] in \<open>auto simp: u04x_def\<close>)
    also have "\<dots> = string_end content (length pre + length (escape_char c)) (sk + 1)"
      using unicode by (simp add: u04x_def)
    finally show ?thesis using IH [of "sk + 1"] unicode by (simp add: skips_def u04x_def)
  qed
qed


lemma parse_hex4_u04x: "parse_hex4 (tl (u04x c) @ rest) = ord c"
proof -
  have d: "ord c div 16 < 16" "ord c mod 16 < 16" using ord_less [of c] by (simp_all add: less_mult_imp_div_less)
  have "hex_val (CHR ''0'') = Some 0" by (simp add: hex_val_def)
  with hex_digit_plain(3) [OF d(1)] hex_digit_plain(3) [OF d(2)] show ?thesis
    by (simp add: parse_hex4_def u04x_def push_bit_eq_mult)
qed

lemma utf8_bytes_ascii: "ord c < 128 \<Longrightarrow> utf8_bytes (ord c) = Some [c]"
proof -
  assume less: "ord c < 128"
  have "ord c AND 127 = take_bit 7 (ord c)" by (simp add: take_bit_eq_mask mask_eq_exp_minus_1)
  also have "\<dots> = ord c" using less by (intro take_bit_nat_eq_self) simp
  finally show ?thesis using less by (simp add: utf8_bytes_def)
qed

lemma utf16_u04x: "ord c < 32 \<Longrightarrow> utf16_literal_to_utf8 (backslash # u04x c @ rest) = Some ([c], 6)"
  using parse_hex4_u04x [of c rest] utf8_bytes_ascii [of c] by (simp add: utf16_literal_to_utf8_def u04x_def)

lemma unescape_escape:
  "content = pre @ escape s @ quote_char # post \<Longrightarrow> length out + length s \<le> cap \<Longrightarrow>
     unescape_loop content (length pre + length (escape s)) cap (length pre) out = Ok (out @ s)"
proof (induction s arbitrary: pre out)
  case Nil
  then show ?case by (subst unescape_loop.simps) (simp add: escape_def)
next
  case (Cons c s)
  let ?e = "length pre + length (escape (c # s))"
  have content: "content = pre @ escape_char c @ escape s @ quote_char # post" using Cons.prems by (simp add: escape_def)
  have IH: "unescape_loop content ?e cap (length pre + length (escape_char c)) (out @ [c]) = Ok (out @ c # s)"
    using Cons.IH [of "pre @ escape_char c" "out @ [c]"] Cons.prems(2) content by (simp add: escape_def add.assoc)
  have w: "write_out cap out [c] = Ok (out @ [c])" using Cons.prems(2) by (simp add: write_out_def)
  have len: "length pre < ?e" "?e < length content" using content by (auto simp: escape_def length_escape_char)
  then have len': "\<not> length content \<le> length pre + 1" by linarith
  show ?case
  proof (cases c rule: escape_char_cases)
    case plain
    then have "content ! length pre = c" using content by simp
    with plain IH w len show ?thesis by (subst unescape_loop.simps) simp
  next
    case (simple x)
    have "content ! length pre = backslash" "content ! (length pre + 1) = x" using content simple by (simp_all add: nth_append)
    with simple IH w len len' show ?thesis by (subst unescape_loop.simps) simp
  next
    case unicode
    have at: "content ! length pre = backslash" "content ! (length pre + 1) = CHR ''u''"
      using content unicode by (simp_all add: nth_append u04x_def)
    have "drop (length pre) (take ?e content) = backslash # u04x c @ escape s"
      unfolding content using unicode by (simp add: escape_def)
    then have "utf16_literal_to_utf8 (drop (length pre) (take ?e content)) = Some ([c], 6)"
      using utf16_u04x [OF unicode(2)] by simp
    moreover have "simple_escape (CHR ''u'') = None" by (simp add: simple_escape_def quote_char_def backslash_def)
    moreover have "length (escape_char c) = 6" using unicode by (simp add: u04x_def)
    ultimately show ?thesis
      using IH w at len len' by (subst unescape_loop.simps) simp
  qed
qed

lemma escape_length: "length s + skips s \<le> length (escape s)"
proof (induction s)
  case (Cons c s)
  then show ?case
    by (cases c rule: escape_char_cases) (auto simp: skips_def escape_def u04x_def)
qed (simp add: skips_def escape_def)

lemma parse_string_escape:
  assumes "content = pre @ (quote_char # escape s @ [quote_char]) @ post" and "CHR 0x00 \<notin> set s"
  shows "parse_string content (length pre) = Ok (s, length pre + length (escape s) + 2)"
proof -
  let ?pre = "pre @ [quote_char]"
  have content: "content = ?pre @ escape s @ quote_char # post" using assms(1) by simp
  let ?e = "length ?pre + length (escape s)"
  have e: "?e < length content" "content ! ?e = quote_char" "content ! length pre = quote_char"
    unfolding content by (simp_all add: nth_append)
  have "string_end content (length ?pre) 0 = Some (?e, skips s)" using string_end_escape [OF content, of 0] by simp
  moreover have "unescape_loop content ?e (?e - length pre - skips s) (length ?pre) [] = Ok ([] @ s)"
    by (rule unescape_escape [OF content]) (use escape_length [of s] in simp)
  moreover have "c_str s = s" using assms(2) by (auto simp: c_str_def takeWhile_eq_all_conv)
  ultimately show ?thesis using e by (simp add: parse_string_def)
qed

section \<open>Values\<close>

text \<open>
  The trees the parser itself can produce, up to numbers, which are restricted to C integers.
\<close>

fun canonical :: "cJSON \<Rightarrow> bool" where
  "canonical (cJSON_Number x i) \<longleftrightarrow> x = dbl_of_int i \<and> INT_MIN \<le> i \<and> i \<le> int INT_MAX"
| "canonical (cJSON_String s) \<longleftrightarrow> CHR 0x00 \<notin> set s"
| "canonical (cJSON_Array xs) \<longleftrightarrow> list_all canonical xs"
| "canonical (cJSON_Object ms) \<longleftrightarrow> list_all (\<lambda>(k, v). CHR 0x00 \<notin> set k \<and> canonical v) ms"
| "canonical (cJSON_Raw s) \<longleftrightarrow> False"
| "canonical cJSON_Invalid \<longleftrightarrow> False"
| "canonical _ \<longleftrightarrow> True"

fun nesting :: "cJSON \<Rightarrow> nat" where
  "nesting (cJSON_Array xs) = Suc (fold max (map nesting xs) 0)"
| "nesting (cJSON_Object ms) = Suc (fold max (map (\<lambda>(k, v). nesting v) ms) 0)"
| "nesting _ = 0"

lemma fold_max_le: "fold max xs (m :: nat) \<le> n \<longleftrightarrow> m \<le> n \<and> (\<forall>x \<in> set xs. x \<le> n)"
  by (induction xs arbitrary: m) auto

lemma small_int: "INT_MIN \<le> i \<Longrightarrow> i \<le> int INT_MAX \<Longrightarrow> abs i < 10 ^ 15 \<and> abs i < 2 ^ 53"
  by (auto simp: INT_MIN_def INT_MAX_def)

lemma int_text: "canonical (cJSON_Number x i) \<Longrightarrow> number_text x = show_int i"
  using number_text_int small_int by auto

lemma valueint_of_int:
  assumes "INT_MIN \<le> i" and "i \<le> int INT_MAX"
  shows "valueint (dbl_of_int i) = Some i"
proof -
  have t: "dbl_trunc (dbl_of_int i) = Some i" using dbl_trunc_of_int small_int assms by auto
  then obtain n m e where "dbl_of_int i = Fin n m e" by (cases "dbl_of_int i") auto
  with t assms show ?thesis by auto
qed

lemma show_int_chars: "\<forall>c \<in> set (show_int i). number_char c"
  using show_nat_digits by (auto simp: show_int_def number_char_def)

lemma show_int_first: "\<exists>c s. show_int i = c # s \<and> (c = CHR ''-'' \<or> c_isdigit c)"
proof (cases "show_nat (nat i)")
  case Nil
  then show ?thesis by (simp add: show_int_def)
next
  case (Cons c s)
  then have "c_isdigit c" using show_nat_digits [of c "nat i"] by simp
  with Cons show ?thesis by (auto simp: show_int_def)
qed

lemma parse_number_int:
  assumes "content = pre @ show_int i @ post" and "post \<noteq> []" and "\<not> number_char (hd post)"
    and "INT_MIN \<le> i" and "i \<le> int INT_MAX"
  shows "parse_number content (length pre) = Ok (cJSON_Number (dbl_of_int i) i, length pre + length (show_int i))"
proof -
  have "takeWhile number_char (show_int i @ post) = show_int i"
    using assms(2,3) show_int_chars [of i] by (cases post) (auto simp: takeWhile_append)
  moreover have "length (show_int i) \<le> 63"
    using show_int_length [of i] assms(4,5) by (simp add: in_int_def INT_MIN_def INT_MAX_def)
  moreover have "show_int i \<noteq> []" using show_int_first [of i] by auto
  ultimately show ?thesis
    using strtod_show_int [of i] valueint_of_int [OF assms(4,5)] by (simp add: parse_number_def assms(1))
qed

text \<open>The first character of a text is not white space, and tells the kind of value.\<close>

lemma json_text_first: "canonical v \<Longrightarrow> \<exists>c s. json_text f d v = c # s \<and> 32 < ord c \<and> ord c < 128 \<and> c \<noteq> CHR '']'' \<and> c \<noteq> CHR ''}''"
proof (cases v)
  case (cJSON_Number x i)
  assume "canonical v"
  with cJSON_Number show ?thesis using int_text [of x i] show_int_first [of i] by (auto simp: c_isdigit_def)
qed (auto simp: quote_char_def)

lemma skip_to:
  assumes "content = pre @ ws @ c # post" and "\<forall>c \<in> set ws. ord c \<le> 32" and "32 < ord c"
  shows "buffer_skip_whitespace content (length pre) = length pre + length ws"
proof -
  have "takeWhile (\<lambda>c. ord c \<le> 32) (drop (length pre) content) = ws"
    using assms by (simp add: takeWhile_append)
  with assms(1) show ?thesis by (simp add: buffer_skip_whitespace_def)
qed

lemma looking_at_pre: "content = pre @ c # post \<Longrightarrow> looking_at content (length pre) c' \<longleftrightarrow> c = c'"
  by (simp add: looking_at_def)

lemma literal_at_pre: "content = pre @ s @ post \<Longrightarrow> literal_at content (length pre) s"
  by (simp add: literal_at_def)

lemma literal_at_first: "content = pre @ c # post \<Longrightarrow> c \<noteq> c' \<Longrightarrow> \<not> literal_at content (length pre) (c' # s)"
  by (simp add: literal_at_def)


text \<open>What it means that the value parser reads a value wherever its text stands.\<close>

definition reads :: "(nat \<Rightarrow> (nat, cJSON \<times> nat) outcome) \<Rightarrow> string \<Rightarrow> bool \<Rightarrow> nat \<Rightarrow> cJSON \<Rightarrow> bool" where
  "reads pv content f d v \<longleftrightarrow> (\<forall>pre post. content = pre @ json_text f d v @ post \<longrightarrow> post \<noteq> [] \<longrightarrow> \<not> number_char (hd post) \<longrightarrow>
     pv (length pre) = Ok (v, length pre + length (json_text f d v)))"

lemma readsD:
  "reads pv content f d v \<Longrightarrow> content = pre @ json_text f d v @ c # post \<Longrightarrow> \<not> number_char c \<Longrightarrow>
     pv (length pre) = Ok (v, length pre + length (json_text f d v))"
  by (auto simp: reads_def)

lemma array_loop_reads:
  "xs \<noteq> [] \<Longrightarrow> \<forall>x \<in> set xs. canonical x \<and> reads pv content f d x \<Longrightarrow>
   content = pre @ c0 # ws @ json_elements f d xs @ CHR '']'' # post \<Longrightarrow> \<forall>c \<in> set ws. ord c \<le> 32 \<Longrightarrow> length xs \<le> n \<Longrightarrow>
     array_loop n pv content (length pre) = Ok (xs, length pre + length ws + length (json_elements f d xs) + 2)"
proof (induction xs arbitrary: n pre c0 ws)
  case (Cons x xs)
  obtain m where n: "n = Suc m" using Cons.prems(5) by (cases n) auto
  let ?t = "json_text f d x"
  let ?ps = "pre @ c0 # ws"
  obtain c s where t: "?t = c # s" "32 < ord c" using json_text_first [of x f d] Cons.prems(2) by auto
  have comma: "\<not> number_char (CHR '','')" "\<not> number_char (CHR '']'')" by (simp_all add: number_char_def c_isdigit_def)
  have skip1: "buffer_skip_whitespace content (length pre + 1) = length ?ps"
    using skip_to [of content "pre @ [c0]" ws c] Cons.prems(3,4) t by simp
  show ?case
  proof (cases "xs = []")
    case True
    then have content: "content = ?ps @ ?t @ CHR '']'' # post" using Cons.prems(3) by simp
    then have pv: "pv (length ?ps) = Ok (x, length (?ps @ ?t))"
      using readsD Cons.prems(2) comma by fastforce
    have content': "content = (?ps @ ?t) @ CHR '']'' # post" using content by simp
    have skip2: "buffer_skip_whitespace content (length (?ps @ ?t)) = length (?ps @ ?t)"
      using skip_to [of content "?ps @ ?t" "[]" "CHR '']''" post] content' by simp
    show ?thesis
      using skip1 pv skip2 looking_at_pre [OF content'] True unfolding n array_loop.simps by simp
  next
    case False
    define ws' where "ws' = (if f then '' '' else [])"
    have content: "content = (?ps @ ?t) @ CHR '','' # ws' @ json_elements f d xs @ CHR '']'' # post"
      using Cons.prems(3) False by (simp add: ws'_def)
    have "reads pv content f d x" using Cons.prems(2) by simp
    then have pv: "pv (length ?ps) = Ok (x, length (?ps @ ?t))"
      using readsD [of pv content f d x ?ps "CHR '',''"] content comma by simp
    have skip2: "buffer_skip_whitespace content (length (?ps @ ?t)) = length (?ps @ ?t)"
      using skip_to [of content "?ps @ ?t" "[]" "CHR '',''"] content by simp
    have "array_loop m pv content (length (?ps @ ?t)) = Ok (xs, length (?ps @ ?t) + length ws' + length (json_elements f d xs) + 2)"
      by (rule Cons.IH [OF False _ content]) (use Cons.prems(2,5) n in \<open>auto simp: ws'_def\<close>)
    then show ?thesis
      using skip1 pv skip2 looking_at_pre [OF content] False unfolding n array_loop.simps by (simp add: ws'_def)
  qed
qed simp

lemma elements_length: "\<forall>x \<in> set xs. canonical x \<Longrightarrow> length xs \<le> length (json_elements f d xs)"
proof (induction xs)
  case (Cons x xs)
  then show ?case using json_text_first [of x f d] by (auto simp: Suc_le_eq)
qed simp

lemma parse_array_reads:
  assumes "\<forall>x \<in> set xs. canonical x \<and> reads pv content f (d + 1) x" and "content = pre @ json_text f d (cJSON_Array xs) @ post"
  shows "parse_array pv content (length pre) = Ok (cJSON_Array xs, length pre + length (json_text f d (cJSON_Array xs)))"
proof (cases xs)
  case Nil
  then have "content = (pre @ ''['') @ CHR '']'' # post" using assms(2) by simp
  then show ?thesis
    using skip_to [of content "pre @ ''[''" "[]" "CHR '']''" post] looking_at_pre [of content "pre @ ''[''" "CHR '']''" post] Nil
    by (simp add: parse_array_def)
next
  case (Cons x ys)
  let ?es = "json_elements f (d + 1) xs"
  obtain c s where t: "json_text f (d + 1) x = c # s" "32 < ord c" "c \<noteq> CHR '']''"
    using json_text_first [of x f "d + 1"] assms(1) Cons by auto
  then obtain s' where c: "?es = c # s'" using Cons by simp
  have content: "content = pre @ CHR ''['' # [] @ ?es @ CHR '']'' # post" using assms(2) by simp
  then have content': "content = (pre @ ''['') @ c # s' @ CHR '']'' # post" using c by simp
  have len: "length xs \<le> length content" using elements_length [of xs f "d + 1"] assms(1) content by simp
  have "xs \<noteq> []" "\<forall>c \<in> set []. ord c \<le> 32" using Cons by simp_all
  from array_loop_reads [OF this(1) assms(1) content this(2) len]
  have "array_loop (length content) pv content (length pre) = Ok (xs, length pre + length ?es + 2)" by simp
  moreover have "buffer_skip_whitespace content (length pre + 1) = length pre + 1"
    using skip_to [of content "pre @ ''[''" "[]" c] content' t by simp
  moreover have "\<not> looking_at content (length pre + 1) (CHR '']'')" "length pre + 1 < length content"
    using looking_at_pre [OF content'] t content' by auto
  ultimately show ?thesis by (simp add: parse_array_def)
qed


definition json_body :: "bool \<Rightarrow> nat \<Rightarrow> string \<Rightarrow> cJSON \<Rightarrow> (string \<times> cJSON) list \<Rightarrow> string" where
  "json_body f d k v ms = (quote_char # escape k @ [quote_char]) @
     (if f then [CHR '':'', CHR 0x09] else '':'') @ json_text f d v @
     ((if ms = [] then [] else '','') @ (if f then [CHR 0x0A] else [])) @ json_members f d ms"

definition indent :: "bool \<Rightarrow> nat \<Rightarrow> string" where
  "indent f d = (if f then replicate d (CHR 0x09) else [])"

lemma json_members_body: "json_members f d ((k, v) # ms) = indent f d @ json_body f d k v ms"
  by (simp add: json_body_def indent_def)

lemma indent_space: "\<forall>c \<in> set (indent f d). ord c \<le> 32"
  by (simp add: indent_def)

lemma object_loop_reads:
  "(k, v) # ms = all \<Longrightarrow> \<forall>(k, v) \<in> set all. CHR 0x00 \<notin> set k \<and> canonical v \<and> reads pv content f d v \<Longrightarrow>
   content = pre @ c0 # ws @ json_body f d k v ms @ indent f e @ CHR ''}'' # post \<Longrightarrow> \<forall>c \<in> set ws. ord c \<le> 32 \<Longrightarrow> length all \<le> n \<Longrightarrow>
     object_loop n pv content (length pre) = Ok (all, length pre + length ws + length (json_body f d k v ms) + length (indent f e) + 2)"
proof (induction all arbitrary: n pre c0 ws k v ms)
  case IH: (Cons kv' ms')
  then have ms': "ms' = ms" "kv' = (k, v)" by auto
  obtain m where n: "n = Suc m" using IH.prems(5) by (cases n) auto
  have wf: "CHR 0x00 \<notin> set k" "canonical v" and rv: "reads pv content f d v" using IH.prems(2) ms' by auto
  let ?k = "quote_char # escape k @ [quote_char]"
  let ?t = "json_text f d v"
  let ?ps = "pre @ c0 # ws"
  let ?tab = "if f then [CHR 0x09] else []"
  let ?nl = "if f then [CHR 0x0A] else []"
  let ?pv = "?ps @ ?k @ CHR '':'' # ?tab"
  obtain c s where t: "?t = c # s" "32 < ord c" using json_text_first [of v f d] wf by auto
  have seps: "\<not> number_char (CHR '','')" "\<not> number_char (CHR ''}'')" "\<not> number_char (CHR 0x0A)" "\<not> number_char (CHR 0x09)"
    by (simp_all add: number_char_def c_isdigit_def)
  define rest where "rest = (if ms = [] then [] else '','') @ ?nl @ json_members f d ms @ indent f e @ CHR ''}'' # post"
  have content: "content = ?ps @ ?k @ CHR '':'' # ?tab @ ?t @ rest"
    using IH.prems(3) by (simp add: rest_def json_body_def)
  have skip1: "buffer_skip_whitespace content (length pre + 1) = length ?ps"
    using skip_to [of content "pre @ [c0]" ws quote_char] IH.prems(4) content by (simp add: quote_char_def)
  have key: "parse_string content (length ?ps) = Ok (k, length (?ps @ ?k))"
    using parse_string_escape [of content ?ps k] content wf by simp
  have skip2: "buffer_skip_whitespace content (length (?ps @ ?k)) = length (?ps @ ?k)"
    using skip_to [of content "?ps @ ?k" "[]" "CHR '':''"] content by simp
  have colon: "looking_at content (length (?ps @ ?k)) (CHR '':'')"
    using looking_at_pre [of content "?ps @ ?k" "CHR '':''"] content by simp
  have skip3: "buffer_skip_whitespace content (length (?ps @ ?k) + 1) = length ?pv"
    using skip_to [of content "?ps @ ?k @ '':''" ?tab c] content t by simp
  obtain r0 rs where r0: "rest = r0 # rs" "\<not> number_char r0"
    using seps by (cases f; cases ms; cases e) (auto simp: rest_def indent_def)
  have val: "pv (length ?pv) = Ok (v, length (?pv @ ?t))"
    using readsD [OF rv, of ?pv r0 rs] content r0 by simp
  show ?case
  proof (cases ms)
    case Nil
    have ws2: "\<forall>c \<in> set (?nl @ indent f e). ord c \<le> 32" using indent_space by auto
    have c2: "content = (?pv @ ?t) @ (?nl @ indent f e) @ CHR ''}'' # post" using content Nil by (simp add: rest_def)
    then have c3: "content = (?pv @ ?t @ ?nl @ indent f e) @ CHR ''}'' # post" by simp
    have skip4: "buffer_skip_whitespace content (length (?pv @ ?t)) = length (?pv @ ?t @ ?nl @ indent f e)"
      using skip_to [OF c2 ws2] by simp
    show ?thesis
      using skip1 key skip2 colon skip3 val skip4 looking_at_pre [OF c3] Nil ms' unfolding n object_loop.simps
      by (simp add: json_body_def)
  next
    case (Cons kv ms2)
    obtain k2 v2 where kv: "kv = (k2, v2)" by (cases kv)
    have c2: "content = (?pv @ ?t) @ CHR '','' # (?nl @ indent f d) @ json_body f d k2 v2 ms2 @ indent f e @ CHR ''}'' # post"
      using content Cons kv by (simp add: rest_def json_members_body del: json_members.simps)
    have skip4: "buffer_skip_whitespace content (length (?pv @ ?t)) = length (?pv @ ?t)"
      using skip_to [of content "?pv @ ?t" "[]" "CHR '',''"] c2 by simp
    have "object_loop m pv content (length (?pv @ ?t)) =
        Ok (ms', length (?pv @ ?t) + length (?nl @ indent f d) + length (json_body f d k2 v2 ms2) + length (indent f e) + 2)"
      by (rule IH.IH [OF _ _ c2]) (use IH.prems(2,5) n ms' Cons kv indent_space in auto)
    then show ?thesis
      using skip1 key skip2 colon skip3 val skip4 looking_at_pre [OF c2] Cons ms' kv unfolding n object_loop.simps
      by (simp add: json_body_def json_members_body del: json_members.simps)
  qed
qed simp


lemma members_length: "length ms \<le> length (json_members f d ms)"
  by (induction ms) auto

lemma json_object_text:
  "json_text f d (cJSON_Object ms) = CHR ''{'' # (if f then [CHR 0x0A] else []) @ json_members f (d + 1) ms @ indent f d @ ''}''"
  by (simp add: indent_def)

lemma parse_object_reads:
  assumes "\<forall>(k, v) \<in> set ms. CHR 0x00 \<notin> set k \<and> canonical v \<and> reads pv content f (d + 1) v"
    and "content = pre @ json_text f d (cJSON_Object ms) @ post"
  shows "parse_object pv content (length pre) = Ok (cJSON_Object ms, length pre + length (json_text f d (cJSON_Object ms)))"
proof -
  define nl where "nl = (if f then [CHR 0x0A] else [])"
  have nl: "\<forall>c \<in> set nl. ord c \<le> 32" by (simp add: nl_def)
  have content: "content = pre @ CHR ''{'' # nl @ json_members f (d + 1) ms @ indent f d @ CHR ''}'' # post"
    using assms(2) by (simp only: json_object_text nl_def) simp
  then have open_brace: "looking_at content (length pre) (CHR ''{'')" using looking_at_pre by blast
  show ?thesis
  proof (cases ms)
    case Nil
    have c1: "content = (pre @ ''{'') @ (nl @ indent f d) @ CHR ''}'' # post" using content Nil by simp
    then have c2: "content = (pre @ ''{'' @ nl @ indent f d) @ CHR ''}'' # post" by simp
    have "buffer_skip_whitespace content (length pre + 1) = length (pre @ ''{'' @ nl @ indent f d)"
      using skip_to [OF c1] nl indent_space by fastforce
    then show ?thesis
      using open_brace looking_at_pre [OF c2] Nil by (simp add: parse_object_def json_object_text nl_def [symmetric] del: json_text.simps)
  next
    case (Cons kv ms2)
    obtain k v where kv: "kv = (k, v)" by (cases kv)
    let ?body = "json_body f (d + 1) k v ms2"
    let ?ws = "nl @ indent f (d + 1)"
    have c1: "content = (pre @ ''{'') @ ?ws @ ?body @ indent f d @ CHR ''}'' # post"
      using content Cons kv by (simp only: json_members_body) simp
    obtain b where b: "?body = quote_char # b" by (simp add: json_body_def)
    have skip: "buffer_skip_whitespace content (length pre + 1) = length (pre @ ''{'' @ ?ws)"
      using skip_to [of content "pre @ ''{''" ?ws quote_char] c1 b nl indent_space by (fastforce simp: quote_char_def)
    obtain pre0 c0 where p: "''{'' @ ?ws = pre0 @ [c0]" by (cases "''{'' @ ?ws" rule: rev_cases) auto
    have c2: "content = (pre @ pre0) @ c0 # [] @ ?body @ indent f d @ CHR ''}'' # post" using c1 p by simp
    have "length ms \<le> length content" using members_length [of ms f "d + 1"] content by simp
    moreover have "(k, v) # ms2 = ms" "\<forall>c \<in> set []. ord c \<le> 32" using Cons kv by simp_all
    ultimately have loop: "object_loop (length content) pv content (length (pre @ pre0)) =
        Ok (ms, length (pre @ pre0) + length ?body + length (indent f d) + 2)"
      using object_loop_reads [OF _ assms(1) c2] by simp
    have len: "length (pre @ ''{'' @ ?ws) = length (pre @ pre0) + 1" using p by (metis append.assoc length_append length_append_singleton Suc_eq_plus1)
    have "\<not> looking_at content (length (pre @ ''{'' @ ?ws)) (CHR ''}'')" "length (pre @ ''{'' @ ?ws) < length content"
      using looking_at_pre [of content "pre @ ''{'' @ ?ws" quote_char] c1 b by (auto simp: quote_char_def)
    then have "parse_object pv content (length pre) = Ok (cJSON_Object ms, length (pre @ ''{'' @ ?ws) + length ?body + length (indent f d) + 1)"
      using open_brace loop unfolding parse_object_def Let_def skip len by simp
    also have "length (pre @ ''{'' @ ?ws) + length ?body + length (indent f d) + 1 = length pre + length (json_text f d (cJSON_Object ms))"
      unfolding json_object_text Cons kv json_members_body by (simp add: nl_def)
    finally show ?thesis .
  qed
qed

lemma value_step_number:
  assumes "content = pre @ c # post" and "c = CHR ''-'' \<or> c_isdigit c"
  shows "value_step arr obj content (length pre) = parse_number content (length pre)"
proof -
  have c: "c \<noteq> CHR ''n''" "c \<noteq> CHR ''f''" "c \<noteq> CHR ''t''" "c \<noteq> quote_char"
    using assms(2) by (auto simp: c_isdigit_def quote_char_def)
  note lit = literal_at_first [OF assms(1) c(1)] literal_at_first [OF assms(1) c(2)] literal_at_first [OF assms(1) c(3)]
  have "length pre < length content" "content ! length pre = c" using assms(1) by simp_all
  with assms(2) c show ?thesis unfolding value_step_def looking_at_pre [OF assms(1)] by (simp add: lit)
qed

lemma value_step_string:
  "content = pre @ quote_char # post \<Longrightarrow>
     value_step arr obj content (length pre) = bindO (parse_string content (length pre)) (\<lambda>(s, off). Ok (cJSON_String s, off))"
  using literal_at_first [of content pre quote_char post]
  by (auto simp: value_step_def looking_at_pre quote_char_def)

lemma value_step_array:
  "content = pre @ CHR ''['' # post \<Longrightarrow> value_step arr obj content (length pre) = arr content (length pre)"
  using literal_at_first [of content pre "CHR ''[''" post]
  by (auto simp: value_step_def looking_at_pre c_isdigit_def quote_char_def)

lemma value_step_object:
  "content = pre @ CHR ''{'' # post \<Longrightarrow> value_step arr obj content (length pre) = obj content (length pre)"
  using literal_at_first [of content pre "CHR ''{''" post]
  by (auto simp: value_step_def looking_at_pre c_isdigit_def quote_char_def)

lemma value_step_literal:
  "content = pre @ ''null'' @ post \<Longrightarrow> value_step arr obj content (length pre) = Ok (cJSON_NULL, length pre + 4)"
  "content = pre @ ''false'' @ post \<Longrightarrow> value_step arr obj content (length pre) = Ok (cJSON_False, length pre + 5)"
  "content = pre @ ''true'' @ post \<Longrightarrow> value_step arr obj content (length pre) = Ok (cJSON_True, length pre + 4)"
  by (simp_all add: value_step_def literal_at_def)


lemmas value_step_at = value_step_string value_step_array value_step_object value_step_literal

lemma parse_value_Suc: "parse_value (Suc n) content = value_step (\<lambda>content. parse_array (parse_value n content) content)
    (\<lambda>content. parse_object (parse_value n content) content) content"
  by simp

lemma parse_value_step: "\<exists>arr obj. parse_value n content = value_step arr obj content"
  by (cases n) auto

lemma parse_value_literal:
  "parse_value n (pre @ CHR ''n'' # CHR ''u'' # CHR ''l'' # CHR ''l'' # post) (length pre) = Ok (cJSON_NULL, Suc (Suc (Suc (Suc (length pre)))))"
  "parse_value n (pre @ CHR ''f'' # CHR ''a'' # CHR ''l'' # CHR ''s'' # CHR ''e'' # post) (length pre) = Ok (cJSON_False, Suc (Suc (Suc (Suc (Suc (length pre))))))"
  "parse_value n (pre @ CHR ''t'' # CHR ''r'' # CHR ''u'' # CHR ''e'' # post) (length pre) = Ok (cJSON_True, Suc (Suc (Suc (Suc (length pre)))))"
  using value_step_literal [of _ pre post] by (cases n; force)+

lemma parse_value_reads: "canonical v \<Longrightarrow> nesting v \<le> n \<Longrightarrow> reads (parse_value n content) content f d v"
proof (induction v arbitrary: n d rule: canonical.induct)
  case (1 x i)
  show ?case unfolding reads_def
  proof (intro allI impI)
    fix pre post assume content: "content = pre @ json_text f d (cJSON_Number x i) @ post" and post: "post \<noteq> []" "\<not> number_char (hd post)"
    have shown: "json_text f d (cJSON_Number x i) = show_int i" using int_text [OF 1(1)] by simp
    obtain c s where first: "show_int i = c # s" "c = CHR ''-'' \<or> c_isdigit c" using show_int_first by blast
    have "parse_value n content (length pre) = parse_number content (length pre)"
      using parse_value_step [of n content] value_step_number [of content pre c "s @ post"] content shown first by auto
    also have "\<dots> = Ok (cJSON_Number x i, length pre + length (show_int i))"
      using parse_number_int [OF content [unfolded shown] post] 1(1) by simp
    finally show "parse_value n content (length pre) = Ok (cJSON_Number x i, length pre + length (json_text f d (cJSON_Number x i)))"
      by (simp only: shown)
  qed
next
  case (2 s)
  then show ?case
    using parse_value_step [of n content] parse_string_escape [of content _ s]
    by (auto simp: reads_def value_step_at)
next
  case (3 xs)
  then obtain m where n: "n = Suc m" by (cases n) auto
  have "\<forall>x \<in> set xs. canonical x \<and> reads (parse_value m content) content f (d + 1) x"
    using 3 n by (auto simp: list_all_iff fold_max_le)
  from parse_array_reads [OF this] show ?case
    unfolding reads_def n parse_value_Suc by (auto simp: value_step_array)
next
  case (4 ms)
  then obtain m where n: "n = Suc m" by (cases n) auto
  have "\<forall>(k, v) \<in> set ms. CHR 0x00 \<notin> set k \<and> canonical v \<and> reads (parse_value m content) content f (d + 1) v"
    using 4 n by (fastforce simp: list_all_iff fold_max_le)
  from parse_object_reads [OF this] show ?case
    unfolding reads_def n parse_value_Suc json_object_text by (auto simp: value_step_object)
qed (simp_all add: reads_def parse_value_literal)

lemma canonical_printable: "canonical v \<Longrightarrow> printable v"
proof (induction v rule: canonical.induct)
  case (1 x i)
  then have "in_int i" by (simp add: in_int_def INT_MIN_def INT_MAX_def)
  then show ?case using int_text [OF 1] show_int_length [of i] by simp
qed (auto simp: list_all_iff)

lemma cJSON_Parse_text:
  assumes "canonical v" and "nesting v \<le> CJSON_NESTING_LIMIT"
  shows "cJSON_Parse (json_text f 0 v) = Ok v"
proof -
  define content where "content = json_text f 0 v @ [CHR 0x00]"
  obtain c s where c: "json_text f 0 v = c # s" "32 < ord c" "ord c < 128" using json_text_first [OF assms(1)] by blast
  have bom: "skip_utf8_bom content = 0"
  proof -
    have "ord (CHR 0xEF) = 239" by simp
    then have "c \<noteq> CHR 0xEF" using c by auto
    then have "take 3 content \<noteq> [CHR 0xEF, CHR 0xBB, CHR 0xBF]" using c by (cases s) (auto simp: content_def)
    then show ?thesis unfolding skip_utf8_bom_def by simp
  qed
  have skip: "buffer_skip_whitespace content 0 = 0"
    using skip_to [of content "[]" "[]" c "s @ [CHR 0x00]"] c by (simp add: content_def)
  have "content = [] @ json_text f 0 v @ [CHR 0x00]" by (simp add: content_def)
  moreover have "\<not> number_char (CHR 0x00)" by (simp add: number_char_def c_isdigit_def)
  ultimately have "parse_value CJSON_NESTING_LIMIT content (length ([] :: string)) = Ok (v, length ([] :: string) + length (json_text f 0 v))"
    by (rule readsD [OF parse_value_reads [OF assms]])
  then have "parse_value CJSON_NESTING_LIMIT content (buffer_skip_whitespace content (skip_utf8_bom content)) = Ok (v, length (json_text f 0 v))"
    by (simp only: bom skip list.size add_0)
  moreover have "content \<noteq> []" by (simp add: content_def)
  ultimately have "cJSON_ParseWithLengthOpts content False = Ok (v, length (json_text f 0 v))"
    unfolding cJSON_ParseWithLengthOpts_def by (simp only: if_False outcome.case prod.case)
  then show ?thesis unfolding cJSON_Parse_def cJSON_ParseWithOpts_def content_def by simp
qed

text \<open>
  C3: what \<open>cJSON_Print\<close> or \<open>cJSON_PrintUnformatted\<close> writes for a tree of literals, NUL-free strings,
  numbers that are integers in the range of \<open>int\<close>, arrays and objects, nested at most \<open>CJSON_NESTING_LIMIT\<close> deep,
  \<open>cJSON_Parse\<close> reads back as the same tree. Other numbers are not claimed: \<open>print_number\<close> shortens a double to 15
  digits when \<open>compare_double\<close> takes the two for equal.
\<close>

theorem cJSON_print_parse_roundtrip:
  assumes "canonical v" and "nesting v \<le> CJSON_NESTING_LIMIT"
    and "length (json_text True 0 v) + 2 \<le> INT_MAX" and "length (json_text False 0 v) + 2 \<le> INT_MAX"
  shows "\<exists>t u. cJSON_Print v = Ok t \<and> cJSON_PrintUnformatted v = Ok u \<and> cJSON_Parse t = Ok v \<and> cJSON_Parse u = Ok v"
  using assms print_ok [OF canonical_printable] cJSON_Parse_text
  by (auto simp: cJSON_Print_def cJSON_PrintUnformatted_def)


theorem cJSON_print_parse_roundtrip_witness:
  "cJSON_Parse (''['' @ show_int 7 @ '', true]'') = Ok (cJSON_Array [cJSON_Number (dbl_of_int 7) 7, cJSON_True])"
proof -
  let ?v = "cJSON_Array [cJSON_Number (dbl_of_int 7) 7, cJSON_True]"
  have num: "number_text (dbl_of_int 7) = show_int 7" by (rule number_text_int) simp
  have "length (show_int 7) \<le> 11" by (rule show_int_length) (simp add: in_int_def)
  then have len: "length (json_text f 0 ?v) + 2 \<le> INT_MAX" for f by (simp add: num INT_MAX_def)
  have can: "canonical ?v" "nesting ?v \<le> CJSON_NESTING_LIMIT"
    by (simp_all add: INT_MIN_def INT_MAX_def CJSON_NESTING_LIMIT_def)
  have "cJSON_Print ?v = Ok (json_text True 0 ?v)"
    unfolding cJSON_Print_def by (rule print_ok [OF canonical_printable [OF can(1)] len])
  then have "cJSON_Parse (json_text True 0 ?v) = Ok ?v"
    using cJSON_print_parse_roundtrip [OF can len len] by auto
  then show ?thesis by (simp add: num)
qed

end
