(* ===== verification/CJson_Safe.thy ===== *)
theory CJson_Safe
  imports CJson_Roundtrip
begin

text \<open>
  Memory safety of the parser of \<open>src/src/common/cJSON.c\<close>: on a NUL-terminated buffer every parser stays
  inside it, the output buffer of \<open>parse_string\<close> is large enough, and the loops over elements and members
  end; without the NUL an object that stops behind a comma is read past its end.
\<close>

section \<open>The output buffer of parse_string\<close>

text \<open>The number of characters and escapes from \<open>i\<close> to \<open>e\<close>, as the first loop sees them.\<close>

function tokens :: "string \<Rightarrow> nat \<Rightarrow> nat \<Rightarrow> nat" where
  "tokens content e i =
     (if i < e then 1 + tokens content e (if content ! i = backslash then i + 2 else i + 1) else 0)"
  by auto
termination
  by (relation "measure (\<lambda>(_, e, i). e - i)") auto

declare tokens.simps [simp del]

lemma tokens_step: "tokens content e (i + 1) \<le> tokens content e i"
proof (induction "e - i" arbitrary: i rule: less_induct)
  case less
  show ?case
  proof (cases "i < e")
    case False
    then show ?thesis by (simp add: tokens.simps)
  next
    case True
    show ?thesis
    proof (cases "content ! i = backslash")
      case False
      with True show ?thesis by (subst (2) tokens.simps) simp
    next
      case bs: True
      have "tokens content e (i + 1) \<le> 1 + tokens content e (i + 2)"
      proof (cases "i + 1 < e")
        case lt: True
        have "tokens content e (i + 2 + 1) \<le> tokens content e (i + 2)"
          by (rule less) (use True in simp)
        then show ?thesis
          using lt by (subst tokens.simps) (auto simp: numeral_3_eq_3)
      qed (simp add: tokens.simps)
      with True bs show ?thesis by (subst (2) tokens.simps) simp
    qed
  qed
qed

lemma tokens_mono: "i \<le> j \<Longrightarrow> tokens content e j \<le> tokens content e i"
  by (induction j rule: dec_induct) (auto intro: order_trans [OF tokens_step [simplified]])

lemma tokens_plain:
  assumes "i + k \<le> e" and "\<And>j. i \<le> j \<Longrightarrow> j < i + k \<Longrightarrow> content ! j \<noteq> backslash"
  shows "tokens content e i = k + tokens content e (i + k)"
  using assms
proof (induction k arbitrary: i)
  case (Suc k)
  have "tokens content e i = 1 + tokens content e (i + 1)"
    using Suc.prems(1) Suc.prems(2) [of i] by (subst tokens.simps) simp
  moreover have "tokens content e (i + 1) = k + tokens content e (i + 1 + k)"
    by (rule Suc.IH) (use Suc.prems in auto)
  ultimately show ?case by simp
qed simp

lemma string_end_tokens:
  "string_end content i sk = Some (e, sk') \<Longrightarrow> i \<le> length content \<Longrightarrow>
     i \<le> e \<and> e \<le> length content \<and> e + sk = i + tokens content e i + sk' \<and> (e < length content \<longrightarrow> content ! e = quote_char)"
proof (induction content i sk rule: string_end.induct)
  case (1 content i sk)
  show ?case
  proof (cases "i < length content \<and> content ! i \<noteq> quote_char")
    case False
    then have "string_end content i sk = Some (i, sk)" by (subst string_end.simps) (simp only: if_False)
    with 1(3,4) False show ?thesis by (auto simp: tokens.simps)
  next
    case True
    show ?thesis
    proof (cases "content ! i = backslash")
      case bs: True
      have lt: "i + 1 < length content" using 1(3) True bs by (subst (asm) string_end.simps) (auto split: if_splits)
      then have "string_end content (i + 2) (sk + 1) = Some (e, sk')"
        using 1(3) True bs by (subst (asm) string_end.simps) simp
      then have IH: "i + 2 \<le> e" "e \<le> length content" "e + (sk + 1) = i + 2 + tokens content e (i + 2) + sk'"
         "e < length content \<longrightarrow> content ! e = quote_char"
        using 1(1) [OF True bs] lt by auto
      then have "tokens content e i = 1 + tokens content e (i + 2)" using bs by (subst tokens.simps) simp
      with IH show ?thesis by simp
    next
      case nb: False
      then have "string_end content (i + 1) sk = Some (e, sk')"
        using 1(3) True by (subst (asm) string_end.simps) simp
      then have IH: "i + 1 \<le> e" "e \<le> length content" "e + sk = i + 1 + tokens content e (i + 1) + sk'"
         "e < length content \<longrightarrow> content ! e = quote_char"
        using 1(2) [OF True nb] True by auto
      then have "tokens content e i = 1 + tokens content e (i + 1)" using nb by (subst tokens.simps) simp
      with IH show ?thesis by simp
    qed
  qed
qed


lemma length_utf8_bytes: "utf8_bytes cp = Some bs \<Longrightarrow> length bs \<le> 4 \<and> (cp < 0x80 \<longrightarrow> length bs = 1)"
proof -
  have "length (snd (utf8_loop k cp out)) = k + length out" for k cp out
    by (induction k arbitrary: cp out) simp_all
  from this [of 0 cp "[]"] this [of 1 cp "[]"] this [of 2 cp "[]"] this [of 3 cp "[]"]
  show "utf8_bytes cp = Some bs \<Longrightarrow> ?thesis"
    by (auto simp: utf8_bytes_def Let_def split: if_splits prod.splits)
qed

lemma parse_hex4_digits:
  assumes "parse_hex4 s \<noteq> 0"
  shows "4 \<le> length s \<and> (\<forall>j < 4. s ! j \<noteq> backslash)"
proof -
  have bs: "hex_val backslash = None" by (simp add: hex_val_def backslash_def)
  obtain a s1 where 1: "s = a # s1" using assms by (cases s) (auto simp: parse_hex4_def)
  obtain b s2 where 2: "s1 = b # s2" using assms 1 by (cases s1) (auto simp: parse_hex4_def split: option.splits)
  obtain c s3 where 3: "s2 = c # s3" using assms 1 2 by (cases s2) (auto simp: parse_hex4_def split: option.splits)
  obtain d t where 4: "s3 = d # t" using assms 1 2 3 by (cases s3) (auto simp: parse_hex4_def split: option.splits)
  have "s = a # b # c # d # t" using 1 2 3 4 by simp
  moreover from assms this have "hex_val a \<noteq> None" "hex_val b \<noteq> None" "hex_val c \<noteq> None" "hex_val d \<noteq> None"
    by (auto simp: parse_hex4_def split: option.splits)
  ultimately show ?thesis using bs by (auto simp: less_Suc_eq numeral_eq_Suc)
qed

lemma utf16_tokens:
  assumes "utf16_literal_to_utf8 (drop ip (take e content)) = Some (bs, k)" and "content ! ip = backslash" and "e < length content"
  shows "0 < k \<and> length bs + tokens content e (ip + k) \<le> tokens content e ip"
proof -
  let ?s = "drop ip (take e content)"
  let ?first = "parse_hex4 (drop 2 ?s)"
  have len: "6 \<le> length ?s" using assms(1) by (auto simp: utf16_literal_to_utf8_def split: if_splits)
  have ip: "tokens content e ip = 1 + tokens content e (ip + 2)"
    using len assms(2,3) by (subst tokens.simps) auto
  have six: "4 + tokens content e (ip + 6) = tokens content e (ip + 2)" if "?first \<noteq> 0"
  proof -
    have "\<forall>j < 4. drop 2 ?s ! j \<noteq> backslash" using parse_hex4_digits [OF that] by blast
    then have "content ! j \<noteq> backslash" if "ip + 2 \<le> j" "j < ip + 2 + 4" for j
    proof -
      have "drop 2 ?s ! (j - (ip + 2)) \<noteq> backslash" using \<open>\<forall>j < 4. drop 2 ?s ! j \<noteq> backslash\<close> that by simp
      moreover have "drop 2 ?s ! (j - (ip + 2)) = content ! (ip + 2 + (j - (ip + 2)))" using that len assms(3) by simp
      moreover have "ip + 2 + (j - (ip + 2)) = j" using that by simp
      ultimately show ?thesis by (simp only: not_False_eq_True)
    qed
    then show ?thesis
      using tokens_plain [of "ip + 2" 4 e content] len assms(3) by (auto simp: add.commute)
  qed
  show ?thesis
  proof (cases "k = 6")
    case True
    show ?thesis
    proof (cases "?first = 0")
      case z: True
      then have "utf8_bytes 0 = Some bs" using assms(1) by (auto simp: utf16_literal_to_utf8_def Let_def split: if_splits)
      then have "length bs = 1" using length_utf8_bytes [of 0 bs] by simp
      moreover have "tokens content e (ip + 6) \<le> tokens content e (ip + 2)" by (rule tokens_mono) simp
      ultimately show ?thesis using ip True by simp
    next
      case nz: False
      have "length bs \<le> 4"
        using assms(1) by (auto simp: utf16_literal_to_utf8_def Let_def split: if_splits dest: length_utf8_bytes)
      with six [OF nz] ip True show ?thesis by simp
    qed
  next
    case False
    then have k: "k = 12" "?first \<noteq> 0" "length bs \<le> 4"
      using assms(1) by (auto simp: utf16_literal_to_utf8_def Let_def split: if_splits dest: length_utf8_bytes)
    moreover have "tokens content e (ip + 12) \<le> tokens content e (ip + 6)" by (rule tokens_mono) simp
    ultimately show ?thesis using six ip by simp
  qed
qed

lemma unescape_no_UB:
  assumes "e < length content" and "length out + tokens content e ip \<le> cap"
  shows "unescape_loop content e cap ip out \<noteq> UB"
  using assms
proof (induction content e cap ip out rule: unescape_loop.induct)
  case (1 content e cap ip out)
  show ?case
  proof (cases "ip < e")
    case False
    then show ?thesis by (simp add: unescape_loop.simps)
  next
    case ip: True
    show ?thesis
    proof (cases "content ! ip = backslash")
      case False
      have "tokens content e ip = 1 + tokens content e (ip + 1)" using ip False by (subst tokens.simps) simp
      with 1 ip False show ?thesis
        by (subst unescape_loop.simps) (auto simp: write_out_def)
    next
      case bs: True
      have t: "tokens content e ip = 1 + tokens content e (ip + 2)" using ip bs by (subst tokens.simps) simp
      show ?thesis
      proof (cases "simple_escape (content ! (ip + 1))")
        case (Some c)
        with 1 ip bs t show ?thesis
          by (subst unescape_loop.simps) (auto simp: write_out_def)
      next
        case None
        show ?thesis
        proof (cases "content ! (ip + 1) = CHR ''u'' \<and> utf16_literal_to_utf8 (drop ip (take e content)) \<noteq> None")
          case False
          with None ip bs 1(4) show ?thesis
            by (subst unescape_loop.simps) (auto split: option.splits)
        next
          case True
          then obtain b k where bk: "utf16_literal_to_utf8 (drop ip (take e content)) = Some (b, k)" by auto
          then have "0 < k" "length b + tokens content e (ip + k) \<le> tokens content e ip"
            using utf16_tokens [OF bk bs 1(4)] by auto
          with 1 ip bs None True bk show ?thesis
            by (subst unescape_loop.simps) (auto simp: write_out_def)
        qed
      qed
    qed
  qed
qed


section \<open>The parser stays inside the buffer\<close>

text \<open>
  What a parser promises on a NUL-terminated buffer: started before the end it does not read outside,
  and on success it has moved forward and not past the NUL.
\<close>

definition advances :: "string \<Rightarrow> nat \<Rightarrow> (nat, 'a \<times> nat) outcome \<Rightarrow> bool" where
  "advances content off m \<longleftrightarrow> m \<noteq> UB \<and> (\<forall>x off'. m = Ok (x, off') \<longrightarrow> off < off' \<and> off' < length content)"

definition nul_terminated :: "string \<Rightarrow> bool" where
  "nul_terminated content \<longleftrightarrow> content \<noteq> [] \<and> last content = CHR 0x00"

lemma nul_terminated_nth: "nul_terminated content \<Longrightarrow> i < length content \<Longrightarrow> content ! i \<noteq> CHR 0x00 \<Longrightarrow> Suc i < length content"
  by (cases "i = length content - 1") (auto simp: nul_terminated_def last_conv_nth)

lemma looking_at_next: "nul_terminated content \<Longrightarrow> looking_at content off c \<Longrightarrow> c \<noteq> CHR 0x00 \<Longrightarrow> Suc off < length content"
  using nul_terminated_nth [of content off] by (auto simp: looking_at_def)

lemma skip_bounds:
  assumes "off < length content"
  shows "off \<le> buffer_skip_whitespace content off \<and> buffer_skip_whitespace content off < length content"
  using assms length_takeWhile_le [of "\<lambda>c. ord c \<le> 32" "drop off content"]
  by (auto simp: buffer_skip_whitespace_def Let_def)

lemma parse_string_advances:
  assumes "nul_terminated content" and "off < length content"
  shows "advances content off (parse_string content off)"
proof (cases "content ! off = quote_char")
  case False
  with assms show ?thesis by (simp add: advances_def parse_string_def)
next
  case q: True
  show ?thesis
  proof (cases "string_end content (off + 1) 0")
    case None
    with assms q show ?thesis by (simp add: advances_def parse_string_def)
  next
    case (Some es)
    obtain e sk where es: "es = (e, sk)" by (cases es)
    then have e: "off + 1 \<le> e" "e = off + 1 + tokens content e (off + 1) + sk"
      using string_end_tokens [of content "off + 1" 0 e sk] Some assms(2) by auto
    show ?thesis
    proof (cases "e \<ge> length content \<or> content ! e \<noteq> quote_char")
      case True
      with assms q Some es show ?thesis by (auto simp: advances_def parse_string_def)
    next
      case False
      have "length [] + tokens content e (off + 1) \<le> e - off - sk" using e(2) by simp
      then have "unescape_loop content e (e - off - sk) (off + 1) [] \<noteq> UB"
        using False by (intro unescape_no_UB) auto
      moreover have "e + 1 < length content"
        using False nul_terminated_nth [OF assms(1), of e] by (simp add: quote_char_def)
      ultimately show ?thesis
        using assms q Some es False e(1)
        by (cases "unescape_loop content e (e - off - sk) (off + 1) []") (auto simp: advances_def parse_string_def)
    qed
  qed
qed

lemma advances_weaken: "advances content off m \<Longrightarrow> off0 \<le> off \<Longrightarrow> advances content off0 m"
  by (auto simp: advances_def)

lemma strtod_used: "snd (strtod s) \<le> length s"
proof -
  have sign: "snd (take_sign t) \<le> length t" for t by (auto simp: take_sign_def split: list.splits)
  have expo: "snd (take_exponent t) \<le> length t" for t
  proof (cases t)
    case (Cons c u)
    have "snd (take_sign u) + length (takeWhile c_isdigit (drop (snd (take_sign u)) u)) \<le> length u"
      using sign [of u] length_takeWhile_le [of c_isdigit "drop (snd (take_sign u)) u"] by simp
    then show ?thesis by (auto simp: Cons take_exponent_def Let_def split_beta)
  qed (simp add: take_exponent_def)
  define k where "k = snd (take_sign s)"
  define ip where "ip = takeWhile c_isdigit (drop k s)"
  define s2 where "s2 = drop (length ip) (drop k s)"
  define dot where "dot = (s2 \<noteq> [] \<and> hd s2 = CHR ''.'')"
  define fp where "fp = (if dot then takeWhile c_isdigit (tl s2) else [])"
  define used where "used = k + length ip + (if dot then 1 + length fp else 0)"
  have "k \<le> length s" using sign by (simp add: k_def)
  moreover have "length ip \<le> length (drop k s)" unfolding ip_def by (rule length_takeWhile_le)
  moreover have "dot \<Longrightarrow> 1 + length fp \<le> length s2"
    using length_takeWhile_le [of c_isdigit "tl s2"] by (cases s2) (auto simp: dot_def fp_def)
  ultimately have "used \<le> length s" by (auto simp: used_def s2_def)
  moreover have "snd (take_exponent (drop used s)) \<le> length s - used" using expo [of "drop used s"] by simp
  moreover have "snd (strtod s) = (if ip = [] \<and> fp = [] then 0 else used + snd (take_exponent (drop used s)))"
    unfolding strtod_def split_beta Let_def used_def fp_def dot_def s2_def ip_def k_def
    by (simp only: if_distrib [of snd] snd_conv)
  ultimately show ?thesis by (simp split: if_splits)
qed

lemma strtod_valueint: "\<exists>i. valueint (fst (strtod s)) = Some i"
proof -
  have fin: "to_dbl neg n d \<noteq> NaN" for neg n d by (simp add: to_dbl_def Let_def)
  have ite: "a \<noteq> NaN \<Longrightarrow> b \<noteq> NaN \<Longrightarrow> (if c then a else b) \<noteq> NaN" for a b c by simp
  have "fst (strtod s) \<noteq> NaN"
    unfolding strtod_def split_beta Let_def if_distrib [of fst] fst_conv
    by (intro ite fin) simp
  moreover have "d \<noteq> NaN \<Longrightarrow> \<exists>i. valueint d = Some i" for d by (cases d) (auto simp: split_beta Let_def)
  ultimately show ?thesis by blast
qed

lemma parse_number_advances:
  assumes "nul_terminated content" and "off < length content"
  shows "advances content off (parse_number content off)"
proof -
  define n where "n = takeWhile number_char (drop off content)"
  obtain d used where du: "strtod (take 63 n) = (d, used)" by fastforce
  then obtain i where i: "valueint d = Some i" using strtod_valueint [of "take 63 n"] by auto
  have used: "used \<le> length n" using strtod_used [of "take 63 n"] du by simp
  have "off + length n < length content" if "n \<noteq> []"
  proof -
    have "content ! (off + (length n - 1)) = last n" "off + length n \<le> length content"
      using that takeWhile_nth [of "length n - 1" number_char "drop off content"] assms(2)
        length_takeWhile_le [of number_char "drop off content"]
      by (simp_all add: n_def last_conv_nth)
    moreover have "last n \<in> set n" using that by simp
    then have "number_char (last n)" unfolding n_def by (rule set_takeWhileD [THEN conjunct2])
    then have "last n \<noteq> CHR 0x00" by (auto simp: number_char_def c_isdigit_def)
    ultimately show ?thesis
      using nul_terminated_nth [OF assms(1), of "off + (length n - 1)"] that by (cases n) auto
  qed
  with used i du show ?thesis
    by (cases "n = []") (auto simp: advances_def parse_number_def n_def [symmetric])
qed

lemma literal_advances:
  assumes "nul_terminated content" and "literal_at content off s" and "s \<noteq> []" and "last s \<noteq> CHR 0x00"
  shows "advances content off (Ok (x, off + length s))"
proof -
  have "content ! (off + (length s - 1)) = last s" "off + length s \<le> length content"
    using assms nth_take [of "length s - 1" "length s" "drop off content"]
    by (simp_all add: literal_at_def last_conv_nth)
  then show ?thesis
    using nul_terminated_nth [OF assms(1), of "off + (length s - 1)"] assms(3,4) by (cases s) (auto simp: advances_def)
qed

lemma bindO_advances:
  assumes "advances content a m" and "\<And>x b. m = Ok (x, b) \<Longrightarrow> a < b \<Longrightarrow> b < length content \<Longrightarrow> advances content off (f x b)"
  shows "advances content off (bindO m (\<lambda>(x, b). f x b))"
  using assms by (cases m) (auto simp: advances_def)

lemma advances_Ok [simp]: "advances content off (Ok (x, b)) \<longleftrightarrow> off < b \<and> b < length content"
  and advances_Fail [simp]: "advances content off (Fail e)"
  by (auto simp: advances_def)

definition sound_parser :: "string \<Rightarrow> (nat \<Rightarrow> (nat, 'a \<times> nat) outcome) \<Rightarrow> bool" where
  "sound_parser content p \<longleftrightarrow> (\<forall>off < length content. advances content off (p off))"

lemma array_loop_advances:
  assumes "nul_terminated content" and "sound_parser content pv"
  shows "off + 1 < length content \<Longrightarrow> length content \<le> off + n \<Longrightarrow> advances content off (array_loop n pv content off)"
proof (induction n arbitrary: off)
  case (Suc n)
  let ?a = "buffer_skip_whitespace content (off + 1)"
  have a: "off < ?a" "?a < length content" using skip_bounds [OF Suc.prems(1)] by auto
  show ?case unfolding array_loop.simps Let_def
  proof (rule bindO_advances)
    show "advances content ?a (pv ?a)" using assms(2) a by (simp add: sound_parser_def)
  next
    fix x b assume b: "?a < b" "b < length content"
    let ?c = "buffer_skip_whitespace content b"
    have c: "off < ?c" "?c < length content" using skip_bounds [OF b(2)] a b by auto
    show "advances content off
      (if looking_at content ?c (CHR '','') then bindO (array_loop n pv content ?c) (\<lambda>(xs, off). Ok (x # xs, off))
       else if \<not> looking_at content ?c (CHR '']'') then Fail ?c else Ok ([x], ?c + 1))"
      using c Suc.IH [of ?c] Suc.prems looking_at_next [OF assms(1), of ?c]
      by (auto intro!: bindO_advances [where a = ?c])
  qed
qed simp

lemma parse_array_advances:
  assumes "nul_terminated content" and "sound_parser content pv" and "looking_at content off (CHR ''['')"
  shows "advances content off (parse_array pv content off)"
proof -
  let ?a = "buffer_skip_whitespace content (off + 1)"
  have a: "off < ?a" "?a < length content"
    using skip_bounds [of "off + 1" content] looking_at_next [OF assms(1,3)] by auto
  have "advances content (?a - 1) (array_loop (length content) pv content (?a - 1))"
    using a by (intro array_loop_advances assms) auto
  with a looking_at_next [OF assms(1), of ?a] show ?thesis
    by (auto simp: parse_array_def Let_def intro!: bindO_advances [where a = "?a - 1"])
qed

lemma object_loop_advances:
  assumes "nul_terminated content" and "sound_parser content pv"
  shows "off + 1 < length content \<Longrightarrow> length content \<le> off + n \<Longrightarrow> advances content off (object_loop n pv content off)"
proof (induction n arbitrary: off)
  case (Suc n)
  let ?a = "buffer_skip_whitespace content (off + 1)"
  have a: "off < ?a" "?a < length content" using skip_bounds [OF Suc.prems(1)] by auto
  show ?case unfolding object_loop.simps Let_def
  proof (rule bindO_advances)
    show "advances content ?a (parse_string content ?a)" using assms(1) a by (intro parse_string_advances)
  next
    fix k b assume b: "?a < b" "b < length content"
    let ?c = "buffer_skip_whitespace content b"
    let ?d = "buffer_skip_whitespace content (?c + 1)"
    have c: "off < ?c" "?c < length content" using skip_bounds [OF b(2)] a b by auto
    have rest: "advances content off (bindO (pv ?d) (\<lambda>(v, off).
        if looking_at content (buffer_skip_whitespace content off) (CHR '','') then
          bindO (object_loop n pv content (buffer_skip_whitespace content off)) (\<lambda>(ms, off). Ok ((k, v) # ms, off))
        else if \<not> looking_at content (buffer_skip_whitespace content off) (CHR ''}'') then Fail (buffer_skip_whitespace content off)
        else Ok ([(k, v)], buffer_skip_whitespace content off + 1)))"
      if colon: "looking_at content ?c (CHR '':'')"
    proof (rule bindO_advances)
      have "?c + 1 < length content" using looking_at_next [OF assms(1) colon] by simp
      then have d: "?c < ?d" "?d < length content" using skip_bounds [of "?c + 1" content] by auto
      then show "advances content ?d (pv ?d)" using assms(2) by (simp add: sound_parser_def)
      fix v e assume e: "?d < e" "e < length content"
      let ?f = "buffer_skip_whitespace content e"
      have f: "off < ?f" "?f < length content" using skip_bounds [OF e(2)] c d e by auto
      show "advances content off
        (if looking_at content ?f (CHR '','') then bindO (object_loop n pv content ?f) (\<lambda>(ms, off). Ok ((k, v) # ms, off))
         else if \<not> looking_at content ?f (CHR ''}'') then Fail ?f else Ok ([(k, v)], ?f + 1))"
        using f Suc.IH [of ?f] Suc.prems looking_at_next [OF assms(1), of ?f]
        by (auto intro!: bindO_advances [where a = ?f])
    qed
    then show "advances content off
      (if \<not> looking_at content ?c (CHR '':'') then Fail ?c
       else bindO (pv ?d) (\<lambda>(v, off).
        if looking_at content (buffer_skip_whitespace content off) (CHR '','') then
          bindO (object_loop n pv content (buffer_skip_whitespace content off)) (\<lambda>(ms, off). Ok ((k, v) # ms, off))
        else if \<not> looking_at content (buffer_skip_whitespace content off) (CHR ''}'') then Fail (buffer_skip_whitespace content off)
        else Ok ([(k, v)], buffer_skip_whitespace content off + 1)))"
      by simp
  qed
qed simp

lemma parse_object_advances:
  assumes "nul_terminated content" and "sound_parser content pv"
  shows "advances content off (parse_object pv content off)"
proof (cases "looking_at content off (CHR ''{'')")
  case True
  let ?a = "buffer_skip_whitespace content (off + 1)"
  have a: "off < ?a" "?a < length content"
    using skip_bounds [of "off + 1" content] looking_at_next [OF assms(1) True] by auto
  have "advances content (?a - 1) (object_loop (length content) pv content (?a - 1))"
    using a by (intro object_loop_advances assms) auto
  with a True looking_at_next [OF assms(1), of ?a] show ?thesis
    by (auto simp: parse_object_def Let_def intro!: bindO_advances [where a = "?a - 1"])
qed (simp add: parse_object_def)

lemma value_step_advances:
  assumes "nul_terminated content" and "off < length content"
    and "looking_at content off (CHR ''['') \<Longrightarrow> advances content off (arr content off)"
    and "looking_at content off (CHR ''{'') \<Longrightarrow> advances content off (obj content off)"
  shows "advances content off (value_step arr obj content off)"
proof -
  have "advances content off (bindO (parse_string content off) (\<lambda>(s, off). Ok (cJSON_String s, off)))"
    using parse_string_advances [OF assms(1,2)] by (auto intro!: bindO_advances)
  moreover note literal_advances [OF assms(1), of off "''null''" cJSON_NULL, simplified]
    literal_advances [OF assms(1), of off "''false''" cJSON_False, simplified]
    literal_advances [OF assms(1), of off "''true''" cJSON_True, simplified]
    parse_number_advances [OF assms(1,2)]
  ultimately show ?thesis using assms(3,4) by (simp add: value_step_def numeral_eq_Suc)
qed

lemma parse_value_sound: "nul_terminated content \<Longrightarrow> sound_parser content (parse_value depth_left content)"
proof (induction depth_left)
  case 0
  then show ?case unfolding sound_parser_def parse_value.simps by (auto intro!: value_step_advances)
next
  case (Suc depth_left)
  then have "advances content off (parse_value (Suc depth_left) content off)" if "off < length content" for off
    using that by (auto intro!: value_step_advances parse_array_advances parse_object_advances)
  then show ?case unfolding sound_parser_def by blast
qed

lemma if_bound: "0 < l \<Longrightarrow> (if 4 < l \<and> b then 3 else 0) < (l :: nat)"
  by simp

lemma cJSON_ParseWithLengthOpts_safe:
  assumes "nul_terminated content"
  shows "cJSON_ParseWithLengthOpts content b \<noteq> UB"
proof -
  define start where "start = buffer_skip_whitespace content (skip_utf8_bom content)"
  have "0 < length content" using assms by (simp add: nul_terminated_def)
  then have "skip_utf8_bom content < length content" unfolding skip_utf8_bom_def by (rule if_bound)
  from skip_bounds [OF this] have "start < length content" by (simp only: start_def)
  then have "advances content start (parse_value CJSON_NESTING_LIMIT content start)"
    using parse_value_sound [OF assms, of CJSON_NESTING_LIMIT] unfolding sound_parser_def by blast
  then have "parse_value CJSON_NESTING_LIMIT content start \<noteq> UB" unfolding advances_def by blast
  moreover define r where "r = parse_value CJSON_NESTING_LIMIT content start"
  ultimately show ?thesis
    unfolding cJSON_ParseWithLengthOpts_def Let_def start_def [symmetric] r_def [symmetric]
    by (cases r) (auto simp: split_beta)
qed

lemma parse_no_UB: "cJSON_ParseWithOpts s b \<noteq> UB" "cJSON_Parse s \<noteq> UB"
proof -
  have "nul_terminated (s @ [CHR 0x00])" by (simp add: nul_terminated_def)
  then show opts: "cJSON_ParseWithOpts s b \<noteq> UB" for b
    unfolding cJSON_ParseWithOpts_def by (rule cJSON_ParseWithLengthOpts_safe)
  from opts [of False] show "cJSON_Parse s \<noteq> UB" by (auto simp: cJSON_Parse_def bindO_eq_UB)
qed

text \<open>
  C4: \<open>cJSON_ParseWithOpts\<close> and \<open>cJSON_Parse\<close> never read or write outside their buffers, whatever NUL-free
  text they are given: malformed input is a parse error.
\<close>

theorem cJSON_Parse_safe: "cJSON_Parse s \<noteq> UB \<and> cJSON_ParseWithOpts s require_null_terminated \<noteq> UB"
  by (simp add: parse_no_UB)

section \<open>Buffers without a NUL\<close>

text \<open>Members without line breaks, and a comma at the end of the buffer.\<close>

lemma object_loop_overread:
  assumes "ms \<noteq> []" and "\<forall>(k, v) \<in> set ms. CHR 0x00 \<notin> set k \<and> canonical v \<and> reads pv content False d v"
    and "content = pre @ c0 # json_members False d ms @ '',''" and "length ms < n"
  shows "object_loop n pv content (length pre) = UB"
  using assms
proof (induction ms arbitrary: n pre c0)
  case (Cons m ms)
  obtain k v where m: "m = (k, v)" by (cases m)
  obtain l where n: "n = Suc l" using Cons.prems(4) by (cases n) auto
  have wf: "CHR 0x00 \<notin> set k" "canonical v" and rv: "reads pv content False d v" using Cons.prems(2) m by auto
  let ?k = "quote_char # escape k @ [quote_char]" and ?t = "json_text False d v" and ?ps = "pre @ [c0]"
  let ?pv = "?ps @ ?k @ '':''"
  obtain c s where t: "?t = c # s" "32 < ord c" using json_text_first [of v False d] wf by auto
  define rest where "rest = (if ms = [] then [] else '','' @ json_members False d ms) @ '',''"
  have content: "content = ?ps @ ?k @ CHR '':'' # ?t @ rest"
    using Cons.prems(3) by (simp add: m rest_def)
  have skip1: "buffer_skip_whitespace content (length pre + 1) = length ?ps"
    using skip_to [of content ?ps "[]" quote_char] content by (simp add: quote_char_def)
  have key: "parse_string content (length ?ps) = Ok (k, length (?ps @ ?k))"
    using parse_string_escape [of content ?ps k] content wf by simp
  have skip2: "buffer_skip_whitespace content (length (?ps @ ?k)) = length (?ps @ ?k)"
    using skip_to [of content "?ps @ ?k" "[]" "CHR '':''"] content by simp
  have colon: "looking_at content (length (?ps @ ?k)) (CHR '':'')"
    using looking_at_pre [of content "?ps @ ?k" "CHR '':''"] content by simp
  have skip3: "buffer_skip_whitespace content (length (?ps @ ?k) + 1) = length ?pv"
    using skip_to [of content "?ps @ ?k @ '':''" "[]" c] content t by simp
  obtain rs where r: "rest = CHR '','' # rs" by (cases ms) (auto simp: rest_def)
  have "\<not> number_char (CHR '','')" by (simp add: number_char_def c_isdigit_def)
  then have val: "pv (length ?pv) = Ok (v, length (?pv @ ?t))"
    using readsD [OF rv, of ?pv "CHR '',''" rs] content r by simp
  have c2: "content = (?pv @ ?t) @ CHR '','' # rs" using content r by simp
  have skip4: "buffer_skip_whitespace content (length (?pv @ ?t)) = length (?pv @ ?t)"
    using skip_to [of content "?pv @ ?t" "[]" "CHR '',''"] c2 by simp
  have "object_loop l pv content (length (?pv @ ?t)) = UB"
  proof (cases "ms = []")
    case True
    then have "length content = length (?pv @ ?t) + 1" using c2 r by (simp add: rest_def)
    moreover obtain l' where "l = Suc l'" using Cons.prems(4) n by (cases l) auto
    ultimately show ?thesis by (simp add: buffer_skip_whitespace_def parse_string_def)
  next
    case False
    then have c3: "content = (?pv @ ?t) @ CHR '','' # json_members False d ms @ '',''" using content by (simp add: rest_def)
    show ?thesis using Cons.IH [OF False _ c3, of l] Cons.prems(2,4) n by simp
  qed
  then show ?case
    using skip1 key skip2 colon skip3 val skip4 looking_at_pre [OF c2] unfolding n object_loop.simps by simp
qed simp

text \<open>
  C38: \<open>cJSON_ParseWithLength\<close>, given a buffer without a terminating NUL, reads behind the buffer whenever the text of an object
  stops after a comma: the opening brace, any number of members but at least one, and a comma that is the last byte.
\<close>

theorem cJSON_ParseWithLength_overread:
  assumes "canonical (cJSON_Object ms)" and "nesting (cJSON_Object ms) \<le> CJSON_NESTING_LIMIT" and "ms \<noteq> []"
  shows "cJSON_ParseWithLength (''{'' @ json_members False 1 ms @ '','') = UB"
proof -
  define content where "content = ''{'' @ json_members False 1 ms @ '',''"
  let ?pv = "parse_value (CJSON_NESTING_LIMIT - 1) content"
  obtain k v ms2 where ms: "ms = (k, v) # ms2" using assms(3) by (cases ms) auto
  then obtain w where w: "content = ''{'' @ quote_char # w" by (simp add: content_def)
  have members: "\<forall>(k, v) \<in> set ms. CHR 0x00 \<notin> set k \<and> canonical v \<and> reads ?pv content False 1 v"
    using assms(1,2) by (fastforce simp: list_all_iff fold_max_le CJSON_NESTING_LIMIT_def intro: parse_value_reads)
  have "length ms < length content" using members_length [of ms False 1] by (simp add: content_def)
  moreover have "content = [] @ CHR ''{'' # json_members False 1 ms @ '',''" by (simp add: content_def)
  ultimately have loop: "object_loop (length content) ?pv content 0 = UB"
    using object_loop_overread [OF assms(3) members, of "[]" "CHR ''{''" "length content"] by (simp only: list.size)
  have skip: "buffer_skip_whitespace content 0 = 0" "buffer_skip_whitespace content 1 = 1"
    using skip_to [of content "[]" "[]" "CHR ''{''" "quote_char # w"] skip_to [of content "''{''" "[]" quote_char w] w
    by (simp_all add: quote_char_def)
  have at: "looking_at content 0 (CHR ''{'')" "\<not> looking_at content 1 (CHR ''}'')" "1 < length content"
    using looking_at_pre [of content "[]" "CHR ''{''"] looking_at_pre [of content "''{''" quote_char w] w by (auto simp: quote_char_def)
  have "CJSON_NESTING_LIMIT = Suc (CJSON_NESTING_LIMIT - 1)" by (simp add: CJSON_NESTING_LIMIT_def)
  then have "parse_value CJSON_NESTING_LIMIT content = value_step (\<lambda>content. parse_array (parse_value (CJSON_NESTING_LIMIT - 1) content) content)
      (\<lambda>content. parse_object (parse_value (CJSON_NESTING_LIMIT - 1) content) content) content"
    using parse_value_Suc by metis
  then have "parse_value CJSON_NESTING_LIMIT content 0 = parse_object ?pv content 0"
    using value_step_object [of content "[]" "quote_char # w"] w by simp
  also have "\<dots> = UB" using at skip(2) loop by (simp add: parse_object_def)
  finally have "parse_value CJSON_NESTING_LIMIT content 0 = UB" .
  moreover have "skip_utf8_bom content = 0" by (simp add: w skip_utf8_bom_def)
  ultimately have "cJSON_ParseWithLengthOpts content False = UB" using skip at(3) by (auto simp: cJSON_ParseWithLengthOpts_def)
  then show ?thesis by (simp add: cJSON_ParseWithLength_def content_def)
qed

theorem cJSON_ParseWithLength_overread_witness:
  "cJSON_ParseWithLength (''{'' @ [quote_char, CHR ''a'', quote_char] @ '':null,'') = UB"
  using cJSON_ParseWithLength_overread [of "[(''a'', cJSON_NULL)]"]
  by (simp add: CJSON_NESTING_LIMIT_def escape_def escape_char_def quote_char_def backslash_def)

end
