(* ===== verification/CJson_Tree.thy ===== *)
theory CJson_Tree
  imports CJson_Parse
begin

text \<open>
  The functions of \<open>src/src/common/cJSON.c\<close> that build, query and compare trees, and \<open>cJSON_Minify\<close>.
  A pointer that may be \<open>NULL\<close> is an option. Items are values here: a function that links an item into a
  parent returns the new parent; the pointers themselves are the subject of the theory \<open>CJson_List\<close>.
\<close>

section \<open>Lookup\<close>

definition c_tolower :: "char \<Rightarrow> nat" where
  "c_tolower c = (if 65 \<le> ord c \<and> ord c \<le> 90 then ord c + 32 else ord c)"

fun case_insensitive_strcmp :: "string \<Rightarrow> string \<Rightarrow> int" where
  "case_insensitive_strcmp [] [] = 0"
| "case_insensitive_strcmp [] (b # t) = - int (c_tolower b)"
| "case_insensitive_strcmp (a # s) [] = int (c_tolower a)"
| "case_insensitive_strcmp (a # s) (b # t) =
     (if c_tolower a = c_tolower b then case_insensitive_strcmp s t else int (c_tolower a) - int (c_tolower b))"

text \<open>The chain from \<open>child\<close>, with the \<open>string\<close> of each item.\<close>

fun children :: "cJSON \<Rightarrow> (string option \<times> cJSON) list" where
  "children (cJSON_Array xs) = map (Pair None) xs"
| "children (cJSON_Object ms) = map (\<lambda>(k, v). (Some k, v)) ms"
| "children _ = []"

text \<open>The count is converted from \<open>size_t\<close> to \<open>int\<close>.\<close>

fun cJSON_GetArraySize :: "cJSON option \<Rightarrow> int" where
  "cJSON_GetArraySize None = 0"
| "cJSON_GetArraySize (Some array) = sint (of_nat (length (children array)) :: 32 word)"

fun get_array_loop :: "(string option \<times> cJSON) list \<Rightarrow> nat \<Rightarrow> cJSON option" where
  "get_array_loop [] index = None"
| "get_array_loop ((k, x) # cs) index = (if index > 0 then get_array_loop cs (index - 1) else Some x)"

fun get_array_item :: "cJSON option \<Rightarrow> nat \<Rightarrow> cJSON option" where
  "get_array_item None index = None"
| "get_array_item (Some array) index = get_array_loop (children array) index"

definition cJSON_GetArrayItem :: "cJSON option \<Rightarrow> int \<Rightarrow> cJSON option" where
  "cJSON_GetArrayItem array index = (if index < 0 then None else get_array_item array (nat index))"

text \<open>
  The loop of \<open>get_object_item\<close>: a case-sensitive search stops at an item without a name, the other one
  passes over it, since a \<open>NULL\<close> name compares as different.
\<close>

fun get_object_loop :: "bool \<Rightarrow> string \<Rightarrow> (string option \<times> cJSON) list \<Rightarrow> cJSON option" where
  "get_object_loop case_sensitive name [] = None"
| "get_object_loop case_sensitive name ((None, x) # cs) =
     (if case_sensitive then None else get_object_loop case_sensitive name cs)"
| "get_object_loop case_sensitive name ((Some k, x) # cs) =
     (if (if case_sensitive then name = k else case_insensitive_strcmp name k = 0) then Some x
      else get_object_loop case_sensitive name cs)"

definition get_object_item :: "cJSON option \<Rightarrow> string option \<Rightarrow> bool \<Rightarrow> cJSON option" where
  "get_object_item object name case_sensitive =
     (case (object, name) of (Some v, Some n) \<Rightarrow> get_object_loop case_sensitive n (children v) | _ \<Rightarrow> None)"

definition cJSON_GetObjectItem :: "cJSON option \<Rightarrow> string \<Rightarrow> cJSON option" where
  "cJSON_GetObjectItem object string = get_object_item object (Some string) False"

definition cJSON_GetObjectItemCaseSensitive :: "cJSON option \<Rightarrow> string \<Rightarrow> cJSON option" where
  "cJSON_GetObjectItemCaseSensitive object string = get_object_item object (Some string) True"

definition cJSON_HasObjectItem :: "cJSON option \<Rightarrow> string \<Rightarrow> bool" where
  "cJSON_HasObjectItem object string \<longleftrightarrow> cJSON_GetObjectItem object string \<noteq> None"

section \<open>Creation\<close>

definition cJSON_CreateNull :: cJSON where "cJSON_CreateNull = cJSON_NULL"
definition cJSON_CreateTrue :: cJSON where "cJSON_CreateTrue = cJSON_True"
definition cJSON_CreateFalse :: cJSON where "cJSON_CreateFalse = cJSON_False"

definition cJSON_CreateBool :: "bool \<Rightarrow> cJSON" where
  "cJSON_CreateBool boolean = (if boolean then cJSON_True else cJSON_False)"

text \<open>Converting a NaN to \<open>int\<close> is undefined.\<close>

definition cJSON_CreateNumber :: "dbl \<Rightarrow> cJSON option" where
  "cJSON_CreateNumber num = map_option (cJSON_Number num) (valueint num)"

definition cJSON_CreateString :: "string option \<Rightarrow> cJSON option" where
  "cJSON_CreateString s = map_option cJSON_String s"

definition cJSON_CreateRaw :: "string option \<Rightarrow> cJSON option" where
  "cJSON_CreateRaw raw = map_option cJSON_Raw raw"

definition cJSON_CreateArray :: cJSON where "cJSON_CreateArray = cJSON_Array []"
definition cJSON_CreateObject :: cJSON where "cJSON_CreateObject = cJSON_Object []"

text \<open>
  Linking an item into its parent: the new parent, \<^const>\<open>None\<close> when the code returns \<open>false\<close> or the parent is
  neither an array nor, with a key, an object.
\<close>

fun add_item_to_array :: "cJSON option \<Rightarrow> cJSON option \<Rightarrow> cJSON option" where
  "add_item_to_array (Some (cJSON_Array xs)) (Some item) = Some (cJSON_Array (xs @ [item]))"
| "add_item_to_array array item = None"

fun add_item_to_object :: "cJSON option \<Rightarrow> string option \<Rightarrow> cJSON option \<Rightarrow> cJSON option" where
  "add_item_to_object (Some (cJSON_Object ms)) (Some string) (Some item) = Some (cJSON_Object (ms @ [(string, item)]))"
| "add_item_to_object object string item = None"

definition cJSON_AddNullToObject :: "cJSON option \<Rightarrow> string option \<Rightarrow> cJSON option" where
  "cJSON_AddNullToObject object name = add_item_to_object object name (Some cJSON_CreateNull)"

definition cJSON_AddTrueToObject :: "cJSON option \<Rightarrow> string option \<Rightarrow> cJSON option" where
  "cJSON_AddTrueToObject object name = add_item_to_object object name (Some cJSON_CreateTrue)"

definition cJSON_AddFalseToObject :: "cJSON option \<Rightarrow> string option \<Rightarrow> cJSON option" where
  "cJSON_AddFalseToObject object name = add_item_to_object object name (Some cJSON_CreateFalse)"

definition cJSON_AddBoolToObject :: "cJSON option \<Rightarrow> string option \<Rightarrow> bool \<Rightarrow> cJSON option" where
  "cJSON_AddBoolToObject object name boolean = add_item_to_object object name (Some (cJSON_CreateBool boolean))"

definition cJSON_AddNumberToObject :: "cJSON option \<Rightarrow> string option \<Rightarrow> dbl \<Rightarrow> cJSON option" where
  "cJSON_AddNumberToObject object name number = add_item_to_object object name (cJSON_CreateNumber number)"

definition cJSON_AddStringToObject :: "cJSON option \<Rightarrow> string option \<Rightarrow> string option \<Rightarrow> cJSON option" where
  "cJSON_AddStringToObject object name string = add_item_to_object object name (cJSON_CreateString string)"

definition cJSON_AddRawToObject :: "cJSON option \<Rightarrow> string option \<Rightarrow> string option \<Rightarrow> cJSON option" where
  "cJSON_AddRawToObject object name raw = add_item_to_object object name (cJSON_CreateRaw raw)"

definition cJSON_AddObjectToObject :: "cJSON option \<Rightarrow> string option \<Rightarrow> cJSON option" where
  "cJSON_AddObjectToObject object name = add_item_to_object object name (Some cJSON_CreateObject)"

definition cJSON_AddArrayToObject :: "cJSON option \<Rightarrow> string option \<Rightarrow> cJSON option" where
  "cJSON_AddArrayToObject object name = add_item_to_object object name (Some cJSON_CreateArray)"

text \<open>
  The array constructors build the chain from the first \<open>count\<close> elements; reading more elements than the
  C array has is \<^const>\<open>UB\<close>, a failed element or a negative count gives \<open>NULL\<close>.
\<close>

definition create_array :: "('a \<Rightarrow> cJSON option) \<Rightarrow> 'a list \<Rightarrow> int \<Rightarrow> (unit, cJSON) outcome" where
  "create_array mk xs count =
     (if count < 0 then Fail ()
      else if length xs < nat count then UB
      else case those (map mk (take (nat count) xs)) of None \<Rightarrow> Fail () | Some ns \<Rightarrow> Ok (cJSON_Array ns))"

definition cJSON_CreateIntArray :: "int list \<Rightarrow> int \<Rightarrow> (unit, cJSON) outcome" where
  "cJSON_CreateIntArray numbers count = create_array (\<lambda>i. cJSON_CreateNumber (dbl_of_int i)) numbers count"

definition cJSON_CreateDoubleArray :: "dbl list \<Rightarrow> int \<Rightarrow> (unit, cJSON) outcome" where
  "cJSON_CreateDoubleArray numbers count = create_array cJSON_CreateNumber numbers count"

definition cJSON_CreateStringArray :: "string option list \<Rightarrow> int \<Rightarrow> (unit, cJSON) outcome" where
  "cJSON_CreateStringArray strings count = create_array cJSON_CreateString strings count"

section \<open>Types\<close>

definition cJSON_IsInvalid :: "cJSON option \<Rightarrow> bool" where
  "cJSON_IsInvalid item \<longleftrightarrow> (case item of Some cJSON_Invalid \<Rightarrow> True | _ \<Rightarrow> False)"

definition cJSON_IsFalse :: "cJSON option \<Rightarrow> bool" where
  "cJSON_IsFalse item \<longleftrightarrow> (case item of Some cJSON_False \<Rightarrow> True | _ \<Rightarrow> False)"

definition cJSON_IsTrue :: "cJSON option \<Rightarrow> bool" where
  "cJSON_IsTrue item \<longleftrightarrow> (case item of Some cJSON_True \<Rightarrow> True | _ \<Rightarrow> False)"

definition cJSON_IsBool :: "cJSON option \<Rightarrow> bool" where
  "cJSON_IsBool item \<longleftrightarrow> (case item of Some cJSON_True \<Rightarrow> True | Some cJSON_False \<Rightarrow> True | _ \<Rightarrow> False)"

definition cJSON_IsNull :: "cJSON option \<Rightarrow> bool" where
  "cJSON_IsNull item \<longleftrightarrow> (case item of Some cJSON_NULL \<Rightarrow> True | _ \<Rightarrow> False)"

definition cJSON_IsNumber :: "cJSON option \<Rightarrow> bool" where
  "cJSON_IsNumber item \<longleftrightarrow> (case item of Some (cJSON_Number _ _) \<Rightarrow> True | _ \<Rightarrow> False)"

definition cJSON_IsString :: "cJSON option \<Rightarrow> bool" where
  "cJSON_IsString item \<longleftrightarrow> (case item of Some (cJSON_String _) \<Rightarrow> True | _ \<Rightarrow> False)"

definition cJSON_IsArray :: "cJSON option \<Rightarrow> bool" where
  "cJSON_IsArray item \<longleftrightarrow> (case item of Some (cJSON_Array _) \<Rightarrow> True | _ \<Rightarrow> False)"

definition cJSON_IsObject :: "cJSON option \<Rightarrow> bool" where
  "cJSON_IsObject item \<longleftrightarrow> (case item of Some (cJSON_Object _) \<Rightarrow> True | _ \<Rightarrow> False)"

definition cJSON_IsRaw :: "cJSON option \<Rightarrow> bool" where
  "cJSON_IsRaw item \<longleftrightarrow> (case item of Some (cJSON_Raw _) \<Rightarrow> True | _ \<Rightarrow> False)"

text \<open>\<open>valuestring\<close> is \<open>NULL\<close> in items that are neither strings nor raw.\<close>

fun valuestring :: "cJSON \<Rightarrow> string option" where
  "valuestring (cJSON_String s) = Some s"
| "valuestring (cJSON_Raw s) = Some s"
| "valuestring _ = None"

definition cJSON_GetStringValue :: "cJSON option \<Rightarrow> string option" where
  "cJSON_GetStringValue item = (if \<not> cJSON_IsString item then None else Option.bind item valuestring)"

definition cJSON_GetNumberValue :: "cJSON option \<Rightarrow> dbl" where
  "cJSON_GetNumberValue item = (case item of Some (cJSON_Number d _) \<Rightarrow> d | _ \<Rightarrow> NaN)"

section \<open>Duplication and comparison\<close>

fun cJSON_Duplicate :: "cJSON \<Rightarrow> bool \<Rightarrow> cJSON" where
  "cJSON_Duplicate (cJSON_Array xs) recurse = cJSON_Array (if recurse then map (\<lambda>x. cJSON_Duplicate x True) xs else [])"
| "cJSON_Duplicate (cJSON_Object ms) recurse =
     cJSON_Object (if recurse then map (\<lambda>(k, x). (k, cJSON_Duplicate x True)) ms else [])"
| "cJSON_Duplicate item recurse = item"

lemma get_object_loop_mem: "get_object_loop cs name kxs = Some x \<Longrightarrow> x \<in> snd ` set kxs"
  by (induction cs name kxs rule: get_object_loop.induct) (auto split: if_splits)

lemma size_element: "x \<in> set xs \<Longrightarrow> size x < size (cJSON_Array xs)"
  by (induction xs) auto

lemma size_member: "(k, x) \<in> set ms \<Longrightarrow> size x < size (cJSON_Object ms)"
  by (induction ms) auto

lemma get_object_item_mem: "get_object_item (Some (cJSON_Object ms)) name cs = Some x \<Longrightarrow> \<exists>k. (k, x) \<in> set ms"
  by (cases name) (force simp: get_object_item_def dest!: get_object_loop_mem)+

lemma get_object_item_size: "get_object_item (Some (cJSON_Object ms)) name cs = Some x \<Longrightarrow> size x < size (cJSON_Object ms)"
  using get_object_item_mem size_member by blast

lemma size_zip: "(x, y) \<in> set (zip xs ys) \<Longrightarrow> size x + size y < size (cJSON_Array xs) + size (cJSON_Array ys)"
  using size_element [of x xs] size_element [of y ys] by (fastforce dest: set_zip_leftD set_zip_rightD)

lemma size_lookup:
  "(k, x) \<in> set ms \<Longrightarrow> get_object_item (Some (cJSON_Object ns)) name cs = Some y \<Longrightarrow>
     size x + size y < size (cJSON_Object ms) + size (cJSON_Object ns)"
  using size_member [of k x ms] get_object_item_size [of ns name cs y] by linarith

text \<open>
  \<open>cJSON_Compare\<close> below the roots. Two different items have different children, so that the shortcut for identical items
  can only apply to the roots.
\<close>

function compare_items :: "cJSON \<Rightarrow> cJSON \<Rightarrow> bool \<Rightarrow> bool" where
  "compare_items a b case_sensitive =
     (case (a, b) of
        (cJSON_False, cJSON_False) \<Rightarrow> True
      | (cJSON_True, cJSON_True) \<Rightarrow> True
      | (cJSON_NULL, cJSON_NULL) \<Rightarrow> True
      | (cJSON_Number x _, cJSON_Number y _) \<Rightarrow> compare_double x y
      | (cJSON_String s, cJSON_String t) \<Rightarrow> s = t
      | (cJSON_Raw s, cJSON_Raw t) \<Rightarrow> s = t
      | (cJSON_Array xs, cJSON_Array ys) \<Rightarrow>
          length xs = length ys \<and> list_all (\<lambda>(x, y). compare_items x y case_sensitive) (zip xs ys)
      | (cJSON_Object ms, cJSON_Object ns) \<Rightarrow>
          list_all (\<lambda>(k, x). case get_object_item (Some b) (Some k) case_sensitive of
              None \<Rightarrow> False | Some y \<Rightarrow> compare_items x y case_sensitive) ms \<and>
          list_all (\<lambda>(k, y). case get_object_item (Some a) (Some k) case_sensitive of
              None \<Rightarrow> False | Some x \<Rightarrow> compare_items y x case_sensitive) ns
      | _ \<Rightarrow> False)"
  by pat_completeness auto
termination
proof (relation "measure (\<lambda>(a, b, _). size a + size b)", goal_cases)
  case 1
  then show ?case by simp
next
  case 2
  then show ?case by (auto dest!: size_zip simp del: cJSON.size)
next
  case 3
  then show ?case by (auto dest: size_lookup simp del: cJSON.size)
next
  case 4
  then show ?case by (auto dest: size_lookup simp: add.commute simp del: cJSON.size)
qed


declare compare_items.simps [simp del]

text \<open>The type of an item, \<open>type & 0xFF\<close>.\<close>

fun same_type :: "cJSON \<Rightarrow> cJSON \<Rightarrow> bool" where
  "same_type cJSON_Invalid cJSON_Invalid = True"
| "same_type cJSON_False cJSON_False = True"
| "same_type cJSON_True cJSON_True = True"
| "same_type cJSON_NULL cJSON_NULL = True"
| "same_type (cJSON_Number x i) (cJSON_Number y j) = True"
| "same_type (cJSON_String s) (cJSON_String t) = True"
| "same_type (cJSON_Array xs) (cJSON_Array ys) = True"
| "same_type (cJSON_Object ms) (cJSON_Object ns) = True"
| "same_type (cJSON_Raw s) (cJSON_Raw t) = True"
| "same_type _ _ = False"

text \<open>\<open>identical\<close> says whether the two pointers are equal.\<close>

definition cJSON_Compare :: "bool \<Rightarrow> cJSON option \<Rightarrow> cJSON option \<Rightarrow> bool \<Rightarrow> bool" where
  "cJSON_Compare identical a b case_sensitive =
     (case (a, b) of
        (Some a, Some b) \<Rightarrow>
          if \<not> same_type a b \<or> a = cJSON_Invalid then False
          else if identical then True
          else compare_items a b case_sensitive
      | _ \<Rightarrow> False)"

section \<open>Lookup is by name\<close>

definition same_name :: "bool \<Rightarrow> string \<Rightarrow> string \<Rightarrow> bool" where
  "same_name cs a b \<longleftrightarrow> (if cs then a = b else map c_tolower a = map c_tolower b)"

lemma same_name_refl [simp]: "same_name cs a a"
  by (simp add: same_name_def)

lemma c_tolower_pos: "c \<noteq> CHR 0x00 \<Longrightarrow> 0 < c_tolower c"
proof -
  assume "c \<noteq> CHR 0x00"
  have "c = char_of (ord c)" by simp
  moreover have "char_of (0 :: nat) = CHR 0x00" by (simp add: char_of_def)
  ultimately have "ord c \<noteq> 0" using \<open>c \<noteq> CHR 0x00\<close> by metis
  then show ?thesis by (simp add: c_tolower_def)
qed

lemma case_insensitive_strcmp_0:
  "CHR 0x00 \<notin> set s \<Longrightarrow> CHR 0x00 \<notin> set t \<Longrightarrow> case_insensitive_strcmp s t = 0 \<longleftrightarrow> map c_tolower s = map c_tolower t"
proof (induction s t rule: case_insensitive_strcmp.induct)
  case (2 b t)
  then show ?case using c_tolower_pos [of b] by auto
next
  case (3 a s)
  then show ?case using c_tolower_pos [of a] by auto
qed auto

lemma get_object_loop_find:
  "CHR 0x00 \<notin> set name \<Longrightarrow> \<forall>(k, x) \<in> set ms. CHR 0x00 \<notin> set k \<Longrightarrow>
     get_object_loop cs name (map (\<lambda>(k, v). (Some k, v)) ms) = map_option snd (find (\<lambda>(k, v). same_name cs name k) ms)"
  by (induction ms) (auto simp: same_name_def case_insensitive_strcmp_0)


text \<open>
  C30: \<open>cJSON_GetObjectItem\<close> returns the first member whose name is the same up to upper and lower case,
  \<open>cJSON_GetObjectItemCaseSensitive\<close> the first one with exactly the name, and \<open>NULL\<close> if there is none; a
  member added to the object is found unless an earlier one has its name.
\<close>

theorem get_object_item_first:
  assumes "CHR 0x00 \<notin> set name" and "\<forall>(k, x) \<in> set ms. CHR 0x00 \<notin> set k" and "CHR 0x00 \<notin> set k"
    and "add_item_to_object (Some (cJSON_Object ms)) (Some k) (Some item) = Some object"
  shows "get_object_item (Some object) (Some name) cs =
    (case find (\<lambda>(k, v). same_name cs name k) ms of
       Some (_, v) \<Rightarrow> Some v | None \<Rightarrow> if same_name cs name k then Some item else None)"
proof -
  have object: "object = cJSON_Object (ms @ [(k, item)])" using assms(4) by simp
  have "get_object_item (Some object) (Some name) cs = map_option snd (find (\<lambda>(k, v). same_name cs name k) (ms @ [(k, item)]))"
    using get_object_loop_find [OF assms(1), of "ms @ [(k, item)]" cs] assms(2,3)
    by (simp add: object get_object_item_def)
  moreover have "find P (xs @ ys) = (case find P xs of None \<Rightarrow> find P ys | Some x \<Rightarrow> Some x)" for P and xs ys :: "(string \<times> cJSON) list"
    by (induction xs) auto
  ultimately show ?thesis by (auto split: option.split)
qed

theorem get_object_item_first_witness:
  "cJSON_GetObjectItem (Some (cJSON_Object ([(''User'', cJSON_True)] @ [(''token'', cJSON_NULL)]))) ''user'' = Some cJSON_True"
  using get_object_item_first [of "''user''" "[(''User'', cJSON_True)]" "''token''" cJSON_NULL _ False]
  by (simp add: cJSON_GetObjectItem_def same_name_def c_tolower_def)

section \<open>Comparison\<close>

text \<open>
  What it means for two trees to be alike: the same literals and strings, numbers that \<open>compare_double\<close> takes for
  equal, arrays with the same number of elements that are alike one by one, and objects in which the same names have
  members, whatever their order, and the members of a name are alike (in both directions, \<open>compare_double\<close> rounds).
\<close>

definition member_of :: "bool \<Rightarrow> string \<Rightarrow> (string \<times> cJSON) list \<Rightarrow> cJSON option" where
  "member_of cs k ms = map_option snd (find (\<lambda>(k', v). same_name cs k k') ms)"

inductive alike :: "bool \<Rightarrow> cJSON \<Rightarrow> cJSON \<Rightarrow> bool" for cs where
  alike_False: "alike cs cJSON_False cJSON_False"
| alike_True: "alike cs cJSON_True cJSON_True"
| alike_NULL: "alike cs cJSON_NULL cJSON_NULL"
| alike_Number: "compare_double x y \<Longrightarrow> alike cs (cJSON_Number x i) (cJSON_Number y j)"
| alike_String: "alike cs (cJSON_String s) (cJSON_String s)"
| alike_Raw: "alike cs (cJSON_Raw s) (cJSON_Raw s)"
| alike_Array: "list_all2 (alike cs) xs ys \<Longrightarrow> alike cs (cJSON_Array xs) (cJSON_Array ys)"
| alike_Object: "(\<And>k. rel_option (\<lambda>x y. alike cs x y \<and> alike cs y x) (member_of cs k ms) (member_of cs k ns)) \<Longrightarrow>
    alike cs (cJSON_Object ms) (cJSON_Object ns)"

inductive_simps alike_items:
  "alike cs cJSON_False b" "alike cs cJSON_True b" "alike cs cJSON_NULL b" "alike cs (cJSON_Number x i) b"
  "alike cs (cJSON_String s) b" "alike cs (cJSON_Raw s) b" "alike cs (cJSON_Array xs) b" "alike cs (cJSON_Object ms) b"
  "alike cs cJSON_Invalid b"

text \<open>The names in an object are C strings, and no two of them are the same.\<close>

fun unique_names :: "bool \<Rightarrow> cJSON \<Rightarrow> bool" where
  "unique_names cs (cJSON_Array xs) \<longleftrightarrow> list_all (unique_names cs) xs"
| "unique_names cs (cJSON_Object ms) \<longleftrightarrow>
     sorted_wrt (\<lambda>(k, _) (k', _). \<not> same_name cs k' k) ms \<and> list_all (\<lambda>(k, v). CHR 0x00 \<notin> set k \<and> unique_names cs v) ms"
| "unique_names cs _ \<longleftrightarrow> True"

lemma same_name_trans: "same_name cs a b \<Longrightarrow> same_name cs a c \<longleftrightarrow> same_name cs b c"
  by (auto simp: same_name_def)

lemma member_of_same: "same_name cs a b \<Longrightarrow> member_of cs a ms = member_of cs b ms"
  unfolding member_of_def by (subst same_name_trans) auto

lemma member_of_Some: "member_of cs k ms = Some v \<Longrightarrow> \<exists>k'. (k', v) \<in> set ms \<and> same_name cs k k'"
  by (auto simp: member_of_def find_Some_iff in_set_conv_nth) blast

lemma member_of_unique:
  "sorted_wrt (\<lambda>(k, _) (k', _). \<not> same_name cs k' k) ms \<Longrightarrow> (k, v) \<in> set ms \<Longrightarrow> member_of cs k ms = Some v"
  unfolding member_of_def by (induction ms) auto

lemma get_member:
  "CHR 0x00 \<notin> set k \<Longrightarrow> unique_names cs (cJSON_Object ms) \<Longrightarrow> get_object_item (Some (cJSON_Object ms)) (Some k) cs = member_of cs k ms"
  using get_object_loop_find [of k ms cs] by (auto simp: get_object_item_def member_of_def list_all_iff)

lemma objects_alike:
  assumes ms: "unique_names cs (cJSON_Object ms)" and ns: "unique_names cs (cJSON_Object ns)"
    and IH: "\<And>k x k' y. (k, x) \<in> set ms \<Longrightarrow> (k', y) \<in> set ns \<Longrightarrow>
      (compare_items x y cs \<longleftrightarrow> alike cs x y) \<and> (compare_items y x cs \<longleftrightarrow> alike cs y x)"
  shows "compare_items (cJSON_Object ms) (cJSON_Object ns) cs \<longleftrightarrow> alike cs (cJSON_Object ms) (cJSON_Object ns)"
proof -
  let ?to = "\<lambda>ms ns. \<forall>(k, x) \<in> set ms. \<exists>y. member_of cs k ns = Some y \<and> compare_items x y cs"
  have look: "get_object_item (Some (cJSON_Object ns)) (Some k) cs = member_of cs k ns" if "(k, x) \<in> set ms" for k x
    using that ms by (intro get_member [OF _ ns]) (auto simp: list_all_iff)
  have look': "get_object_item (Some (cJSON_Object ms)) (Some k) cs = member_of cs k ms" if "(k, x) \<in> set ns" for k x
    using that ns by (intro get_member [OF _ ms]) (auto simp: list_all_iff)
  have compare: "compare_items (cJSON_Object ms) (cJSON_Object ns) cs \<longleftrightarrow> ?to ms ns \<and> ?to ns ms"
    by (subst compare_items.simps) (auto simp: list_all_iff look look' split: option.splits)
  have unique: "member_of cs k ms = Some x" if "(k, x) \<in> set ms" for k x using member_of_unique that ms by simp
  have unique': "member_of cs k ns = Some x" if "(k, x) \<in> set ns" for k x using member_of_unique that ns by simp
  show ?thesis
  proof
    assume "compare_items (cJSON_Object ms) (cJSON_Object ns) cs"
    then have to: "?to ms ns" "?to ns ms" by (simp_all add: compare)
    have "rel_option (\<lambda>x y. alike cs x y \<and> alike cs y x) (member_of cs k ms) (member_of cs k ns)" for k
    proof (cases "member_of cs k ms")
      case None
      have "member_of cs k ns = None"
      proof (rule ccontr)
        assume "member_of cs k ns \<noteq> None"
        then obtain y k' where "(k', y) \<in> set ns" "same_name cs k k'" using member_of_Some by blast
        then show False using to(2) None member_of_same by fastforce
      qed
      with None show ?thesis by simp
    next
      case (Some x)
      then obtain k1 where x: "(k1, x) \<in> set ms" "same_name cs k k1" using member_of_Some by blast
      then obtain y where y: "member_of cs k ns = Some y" "compare_items x y cs" using to(1) member_of_same by fastforce
      then obtain k2 where y': "(k2, y) \<in> set ns" "same_name cs k k2" using member_of_Some by blast
      then obtain z where "member_of cs k ms = Some z" "compare_items y z cs" using to(2) member_of_same by fastforce
      then show ?thesis using Some y IH [OF x(1) y'(1)] by simp
    qed
    then show "alike cs (cJSON_Object ms) (cJSON_Object ns)" by (rule alike_Object)
  next
    assume "alike cs (cJSON_Object ms) (cJSON_Object ns)"
    then have rel: "rel_option (\<lambda>x y. alike cs x y \<and> alike cs y x) (member_of cs k ms) (member_of cs k ns)" for k
      by (simp add: alike_items)
    have "?to ms ns"
    proof clarify
      fix k x assume x: "(k, x) \<in> set ms"
      then obtain y where y: "member_of cs k ns = Some y" "alike cs x y" using rel [of k] unique by (auto simp: option_rel_Some1)
      then show "\<exists>y. member_of cs k ns = Some y \<and> compare_items x y cs" using member_of_Some IH [OF x] by blast
    qed
    moreover have "?to ns ms"
    proof clarify
      fix k y assume y: "(k, y) \<in> set ns"
      then obtain x where x: "member_of cs k ms = Some x" "alike cs y x" using rel [of k] unique' by (auto simp: option_rel_Some2)
      then show "\<exists>x. member_of cs k ms = Some x \<and> compare_items y x cs" using member_of_Some IH [OF _ y] by blast
    qed
    ultimately show "compare_items (cJSON_Object ms) (cJSON_Object ns) cs" by (simp add: compare)
  qed
qed

lemma compare_items_alike:
  "unique_names cs a \<Longrightarrow> unique_names cs b \<Longrightarrow> compare_items a b cs \<longleftrightarrow> alike cs a b"
proof (induction "size a + size b" arbitrary: a b rule: less_induct)
  case less
  consider xs ys where "a = cJSON_Array xs" "b = cJSON_Array ys" | ms ns where "a = cJSON_Object ms" "b = cJSON_Object ns"
    | "\<not> ((\<exists>xs ys. a = cJSON_Array xs \<and> b = cJSON_Array ys) \<or> (\<exists>ms ns. a = cJSON_Object ms \<and> b = cJSON_Object ns))" by blast
  then show ?case
  proof cases
    case 1
    have "compare_items x y cs \<longleftrightarrow> alike cs x y" if "(x, y) \<in> set (zip xs ys)" for x y
      by (rule less.hyps) (use size_zip [OF that] less.prems 1 that in \<open>auto simp: list_all_iff dest: set_zip_leftD set_zip_rightD\<close>)
    then show ?thesis by (subst compare_items.simps) (auto simp: 1 alike_items list_all2_iff list_all_iff)
  next
    case 2
    have "(compare_items x y cs \<longleftrightarrow> alike cs x y) \<and> (compare_items y x cs \<longleftrightarrow> alike cs y x)"
      if "(k, x) \<in> set ms" "(k', y) \<in> set ns" for k x k' y
    proof -
      have "size x + size y < size a + size b" using size_member [OF that(1)] size_member [OF that(2)] unfolding 2 by linarith
      moreover have "unique_names cs x" "unique_names cs y" using less.prems that by (auto simp: 2 list_all_iff)
      ultimately show ?thesis using less.hyps by (simp add: add.commute)
    qed
    then show ?thesis using less.prems unfolding 2 by (intro objects_alike) blast+
  next
    case 3
    then show ?thesis by (subst compare_items.simps) (cases a; cases b; auto simp: alike_items)
  qed
qed

text \<open>
  C31: \<open>cJSON_Compare\<close> of two different items finds exactly the trees equal that are alike, if the names in their objects are
  C strings and no object has two members of the same name: the members may come in any order, but no name may be missing on
  either side and no array may be longer. The same item compares equal to itself unless it is invalid, and \<open>NULL\<close> never.
\<close>

theorem cJSON_Compare_alike:
  assumes "unique_names cs a" and "unique_names cs b"
  shows "(cJSON_Compare False (Some a) (Some b) cs \<longleftrightarrow> alike cs a b)
    \<and> (cJSON_Compare True (Some a) (Some a) cs \<longleftrightarrow> a \<noteq> cJSON_Invalid)
    \<and> \<not> cJSON_Compare i None q cs \<and> \<not> cJSON_Compare i p None cs"
proof -
  have "alike cs a b \<Longrightarrow> same_type a b \<and> a \<noteq> cJSON_Invalid" by (induction rule: alike.cases) auto
  moreover have "same_type a a" by (cases a) simp_all
  ultimately show ?thesis using compare_items_alike [OF assms] by (auto simp: cJSON_Compare_def split: option.splits)
qed

theorem cJSON_Compare_alike_witness:
  "cJSON_Compare False (Some (cJSON_Object [(''a'', cJSON_True), (''b'', cJSON_NULL)])) (Some (cJSON_Object [(''B'', cJSON_NULL), (''A'', cJSON_True)])) False
   \<and> \<not> cJSON_Compare False (Some (cJSON_Object [(''a'', cJSON_True)])) (Some (cJSON_Object [(''a'', cJSON_True), (''b'', cJSON_NULL)])) False"
proof -
  let ?a = "cJSON_Object [(''a'', cJSON_True), (''b'', cJSON_NULL)]" and ?b = "cJSON_Object [(''B'', cJSON_NULL), (''A'', cJSON_True)]"
    and ?c = "cJSON_Object [(''a'', cJSON_True)]"
  have u: "unique_names False ?a" "unique_names False ?b" "unique_names False ?c" by (simp_all add: same_name_def c_tolower_def)
  have "member_of False ''b'' [(''a'', cJSON_True)] = None" "member_of False ''b'' [(''a'', cJSON_True), (''b'', cJSON_NULL)] = Some cJSON_NULL"
    by (simp_all add: member_of_def same_name_def c_tolower_def)
  then have "\<not> alike False ?c ?a" by (auto simp: alike_items intro!: exI [of _ "''b''"])
  moreover have "alike False ?a ?b"
    by (intro alike_Object) (auto simp: member_of_def same_name_def c_tolower_def alike_items)
  ultimately show ?thesis using cJSON_Compare_alike [OF u(1,2)] cJSON_Compare_alike [OF u(3,1)] by simp
qed

end
