(* ===== verification/CJson_Minify.thy ===== *)
theory CJson_Minify
  imports CJson_Tree CJson_Roundtrip
begin

text \<open>
  \<open>cJSON_Minify\<close> of \<open>src/src/common/cJSON.c\<close>, which removes white space and comments from a text in place
  (\<open>into\<close> never overtakes \<open>json\<close>, so the text left to read is not overwritten): on the formatted text of a
  tree it gives the unformatted text, except when a string ends in a backslash.
\<close>

section \<open>Minify\<close>

fun oneline_rest :: "string \<Rightarrow> string" where
  "oneline_rest [] = []"
| "oneline_rest (c # s) = (if c = CHR 0x0A then s else oneline_rest s)"

definition skip_oneline_comment :: "string \<Rightarrow> string" where
  "skip_oneline_comment input = oneline_rest (drop 2 input)"

fun multiline_rest :: "string \<Rightarrow> string" where
  "multiline_rest [] = []"
| "multiline_rest (c # s) =
     (if c = CHR ''*'' \<and> s \<noteq> [] \<and> hd s = CHR ''/'' then tl s else multiline_rest s)"

definition skip_multiline_comment :: "string \<Rightarrow> string" where
  "skip_multiline_comment input = multiline_rest (drop 2 input)"

text \<open>What is written and what is left to read; only \<open>\"\<close> counts as an escape.\<close>

fun minify_chars :: "string \<Rightarrow> string \<times> string" where
  "minify_chars [] = ([], [])"
| "minify_chars (c # s) =
     (if c = quote_char then ([quote_char], s)
      else if c = backslash \<and> s \<noteq> [] \<and> hd s = quote_char then
        let (out, rest) = minify_chars (tl s) in (c # quote_char # out, rest)
      else let (out, rest) = minify_chars s in (c # out, rest))"

definition minify_string :: "string \<Rightarrow> string \<times> string" where
  "minify_string input = (let (out, rest) = minify_chars (tl input) in (hd input # out, rest))"

lemma oneline_rest_length: "length (oneline_rest s) \<le> length s"
  by (induction s) auto

lemma multiline_rest_length: "length (multiline_rest s) \<le> length s"
  by (induction s) auto

lemma minify_chars_length: "length (snd (minify_chars s)) \<le> length s"
proof (induction s rule: minify_chars.induct)
  case (2 c s)
  then show ?case by (cases s) (auto simp: Let_def split_beta)
qed simp

function cJSON_Minify :: "string \<Rightarrow> string" where
  "cJSON_Minify [] = []"
| "cJSON_Minify (c # json) =
     (if c = CHR '' '' \<or> c = CHR 0x09 \<or> c = CHR 0x0D \<or> c = CHR 0x0A then cJSON_Minify json
      else if c = CHR ''/'' then
        if json \<noteq> [] \<and> hd json = CHR ''/'' then cJSON_Minify (skip_oneline_comment (c # json))
        else if json \<noteq> [] \<and> hd json = CHR ''*'' then cJSON_Minify (skip_multiline_comment (c # json))
        else cJSON_Minify json
      else if c = quote_char then
        let (out, rest) = minify_string (c # json) in out @ cJSON_Minify rest
      else c # cJSON_Minify json)"
  by pat_completeness auto
termination
proof (relation "measure length", goal_cases)
  case (3 c json)
  then show ?case using oneline_rest_length [of "drop 1 json"] by (auto simp: skip_oneline_comment_def)
next
  case (4 c json)
  then show ?case using multiline_rest_length [of "drop 1 json"] by (auto simp: skip_multiline_comment_def)
next
  case (6 c json p out rest)
  then show ?case using minify_chars_length [of json] by (auto simp: minify_string_def split_beta Let_def)
qed auto

declare cJSON_Minify.simps(2) [simp del]

section \<open>Minify undoes formatting\<close>

definition special :: "char \<Rightarrow> bool" where
  "special c \<longleftrightarrow> c \<in> {CHR '' '', CHR 0x09, CHR 0x0D, CHR 0x0A, CHR ''/'', quote_char}"

lemma minify_step: "\<not> special c \<Longrightarrow> cJSON_Minify (c # s) = c # cJSON_Minify s"
  unfolding special_def by (subst cJSON_Minify.simps(2)) (simp only: insert_iff empty_iff simp_thms de_Morgan_disj if_False)

lemma minify_blank: "c \<in> {CHR '' '', CHR 0x09, CHR 0x0A} \<Longrightarrow> cJSON_Minify (c # s) = cJSON_Minify s"
  by (subst cJSON_Minify.simps(2)) (simp only: insert_iff empty_iff simp_thms if_True split: if_split, blast)

lemma minify_plain: "\<forall>c \<in> set s. \<not> special c \<Longrightarrow> cJSON_Minify (s @ t) = s @ cJSON_Minify t"
  by (induction s) (simp_all add: minify_step)

lemma minify_space: "\<forall>c \<in> set s. c \<in> {CHR '' '', CHR 0x09, CHR 0x0A} \<Longrightarrow> cJSON_Minify (s @ t) = cJSON_Minify t"
  by (induction s) (simp_all add: minify_blank del: insert_iff)

lemma escape_char_first: "\<exists>c s. escape_char x = c # s \<and> c \<noteq> quote_char"
  by (cases x rule: escape_char_cases) (auto simp: quote_char_def backslash_def)

lemma minify_chars_plain:
  "quote_char \<notin> set p \<Longrightarrow> backslash \<notin> set p \<Longrightarrow> minify_chars (p @ t) = (p @ fst (minify_chars t), snd (minify_chars t))"
  by (induction p) (auto simp: split_beta Let_def)

lemma minify_chars_escape_append:
  "s = [] \<or> last s \<noteq> backslash \<or> u = [] \<or> hd u \<noteq> quote_char \<Longrightarrow>
     minify_chars (escape s @ u) = (escape s @ fst (minify_chars u), snd (minify_chars u))"
proof (induction s)
  case Nil
  then show ?case by (simp add: escape_def)
next
  case (Cons c s)
  let ?u = "escape s @ u" and ?r = "minify_chars u"
  have IH: "minify_chars ?u = (escape s @ fst ?r, snd ?r)" using Cons by (cases "s = []") auto
  have nb: "backslash \<noteq> quote_char" by (simp add: backslash_def quote_char_def)
  have esc: "escape (c # s) = escape_char c @ escape s" by (simp add: escape_def)
  show ?case
  proof (cases c rule: escape_char_cases)
    case plain
    then show ?thesis using minify_chars_plain [of "[c]" ?u] IH esc by simp
  next
    case (simple x)
    show ?thesis
    proof (cases "x = backslash")
      case True
      then have c: "c = backslash" using simple(2) by (simp add: simple_escape_def backslash_def quote_char_def)
      have "?u = [] \<or> hd ?u \<noteq> quote_char"
      proof (cases s)
        case Nil
        then show ?thesis using Cons.prems c by (simp add: escape_def)
      next
        case (Cons d r)
        obtain e q where "escape_char d = e # q" "e \<noteq> quote_char" using escape_char_first by blast
        then show ?thesis by (simp add: Cons escape_def)
      qed
      then show ?thesis using IH esc simple True nb by auto
    next
      case False
      then show ?thesis
        using IH esc simple nb minify_chars_plain [of "[x]" ?u] by (cases "x = quote_char") auto
    qed
  next
    case unicode
    have "minify_chars (u04x c @ ?u) = (u04x c @ escape s @ fst ?r, snd ?r)"
      using minify_chars_plain [OF u04x_plain, of c ?u] IH by simp
    then show ?thesis using esc unicode nb by (simp add: u04x_def quote_char_def)
  qed
qed

lemma minify_chars_escape:
  "s = [] \<or> last s \<noteq> backslash \<Longrightarrow> minify_chars (escape s @ quote_char # t) = (escape s @ [quote_char], t)"
  using minify_chars_escape_append [of s "quote_char # t"] by simp

lemma minify_quoted:
  "s = [] \<or> last s \<noteq> backslash \<Longrightarrow>
     cJSON_Minify ((quote_char # escape s @ [quote_char]) @ t) = (quote_char # escape s @ [quote_char]) @ cJSON_Minify t"
  using minify_chars_escape [of s t]
  by (simp, subst cJSON_Minify.simps(2)) (simp add: minify_string_def quote_char_def)

fun no_trailing_backslash :: "cJSON \<Rightarrow> bool" where
  "no_trailing_backslash (cJSON_String s) \<longleftrightarrow> s = [] \<or> last s \<noteq> backslash"
| "no_trailing_backslash (cJSON_Array xs) \<longleftrightarrow> list_all no_trailing_backslash xs"
| "no_trailing_backslash (cJSON_Object ms) \<longleftrightarrow> list_all (\<lambda>(k, v). (k = [] \<or> last k \<noteq> backslash) \<and> no_trailing_backslash v) ms"
| "no_trailing_backslash _ \<longleftrightarrow> True"

definition minifies :: "cJSON \<Rightarrow> bool" where
  "minifies v \<longleftrightarrow> (\<forall>d t. cJSON_Minify (json_text True d v @ t) = json_text False d v @ cJSON_Minify t)"

lemma minify_elements:
  "\<forall>x \<in> set xs. minifies x \<Longrightarrow> cJSON_Minify (json_elements True d xs @ t) = json_elements False d xs @ cJSON_Minify t"
proof (induction xs)
  case (Cons x xs)
  have sep: "cJSON_Minify ('', '' @ u) = '','' @ cJSON_Minify u" for u
    by (simp add: minify_step minify_blank special_def quote_char_def)
  show ?case using Cons sep [of "json_elements True d xs @ t"] by (simp add: minifies_def)
qed simp

lemma minify_members:
  "\<forall>(k, v) \<in> set ms. (k = [] \<or> last k \<noteq> backslash) \<and> minifies v \<Longrightarrow>
     cJSON_Minify (json_members True d ms @ t) = json_members False d ms @ cJSON_Minify t"
proof (induction ms)
  case (Cons m ms)
  obtain k v where m: "m = (k, v)" by (cases m)
  have ok: "k = [] \<or> last k \<noteq> backslash" "minifies v" using Cons.prems m by auto
  have tabs: "cJSON_Minify (replicate d (CHR 0x09) @ u) = cJSON_Minify u" for u by (rule minify_space) simp
  have colon: "cJSON_Minify ([CHR '':'', CHR 0x09] @ u) = '':'' @ cJSON_Minify u" for u
    by (simp add: minify_step minify_blank special_def quote_char_def)
  have sep: "cJSON_Minify (((if ms = [] then [] else '','') @ [CHR 0x0A]) @ u) = (if ms = [] then [] else '','') @ cJSON_Minify u" for u
    by (simp add: minify_step minify_blank special_def quote_char_def)
  have "cJSON_Minify (json_members True d ms @ t) = json_members False d ms @ cJSON_Minify t" using Cons by auto
  then show ?case
    unfolding m json_members.simps if_True if_False append.assoc
    using ok(2) tabs colon [simplified] sep [simplified] minify_quoted [OF ok(1), simplified]
    by (simp add: minifies_def)
qed simp

lemma canonical_minifies: "canonical v \<Longrightarrow> no_trailing_backslash v \<Longrightarrow> minifies v"
proof (induction v rule: canonical.induct)
  case (1 x i)
  have "\<forall>c \<in> set (show_int i). \<not> special c"
    using show_int_chars [of i] by (auto simp: special_def number_char_def c_isdigit_def quote_char_def)
  then show ?case using int_text [OF 1(1)] minify_plain by (simp add: minifies_def)
next
  case (2 s)
  then show ?case using minify_quoted [of s] by (simp add: minifies_def)
next
  case (3 xs)
  then have "\<forall>x \<in> set xs. minifies x" by (auto simp: list_all_iff)
  note es = minify_elements [OF this]
  have "cJSON_Minify (''['' @ u) = ''['' @ cJSON_Minify u" "cJSON_Minify ('']'' @ u) = '']'' @ cJSON_Minify u" for u
    by (simp_all add: minify_step minify_blank special_def quote_char_def)
  then show ?case by (simp add: minifies_def es)
next
  case (4 ms)
  then have "\<forall>(k, v) \<in> set ms. (k = [] \<or> last k \<noteq> backslash) \<and> minifies v" by (fastforce simp: list_all_iff)
  note members = minify_members [OF this]
  have open_close: "cJSON_Minify ([CHR ''{'', CHR 0x0A] @ u) = ''{'' @ cJSON_Minify u" "cJSON_Minify (''}'' @ u) = ''}'' @ cJSON_Minify u" for u
    by (simp_all add: minify_step minify_blank special_def quote_char_def)
  have tabs: "cJSON_Minify (replicate d (CHR 0x09) @ u) = cJSON_Minify u" for d u by (rule minify_space) simp
  show ?case using open_close tabs by (simp add: minifies_def members)
qed (auto simp: minifies_def minify_step minify_blank special_def quote_char_def)


text \<open>
  C19: take a tree of literals, NUL-free strings, integers in the range of \<open>int\<close>, arrays and objects, nested at most
  \<open>CJSON_NESTING_LIMIT\<close> deep. If no string and no key in it ends in a backslash, minifying its formatted text gives
  its unformatted text, and that text reads back as the tree.
\<close>

theorem cJSON_Minify_correct:
  assumes "canonical v" and "no_trailing_backslash v" and "nesting v \<le> CJSON_NESTING_LIMIT"
  shows "cJSON_Minify (json_text True 0 v) = json_text False 0 v \<and> cJSON_Parse (cJSON_Minify (json_text True 0 v)) = Ok v"
  using canonical_minifies [OF assms(1,2)] cJSON_Parse_text [OF assms(1,3)]
  by (simp add: minifies_def) (metis append_Nil2 cJSON_Minify.simps(1))

theorem cJSON_Minify_correct_witness:
  "cJSON_Minify (''['' @ ''true'' @ '', '' @ ''null'' @ '']'') = ''[true,null]''"
  using cJSON_Minify_correct [of "cJSON_Array [cJSON_True, cJSON_NULL]"]
  by (simp add: CJSON_NESTING_LIMIT_def)

section \<open>Strings that end in a backslash\<close>

lemma minify_chars_hidden:
  "minify_chars (escape (s @ [backslash]) @ quote_char # t)
    = (escape (s @ [backslash]) @ quote_char # fst (minify_chars t), snd (minify_chars t))"
proof -
  have esc: "escape (s @ [backslash]) = escape s @ [backslash, backslash]"
    by (simp add: escape_def escape_char_def backslash_def quote_char_def)
  have "backslash \<noteq> quote_char" by (simp add: backslash_def quote_char_def)
  then have "minify_chars ([backslash, backslash] @ quote_char # t)
      = ([backslash, backslash] @ quote_char # fst (minify_chars t), snd (minify_chars t))"
    and "hd ([backslash, backslash] @ quote_char # t) \<noteq> quote_char"
    by (simp_all add: split_beta)
  then show ?thesis using minify_chars_escape_append [of s "[backslash, backslash] @ quote_char # t"] by (simp add: esc)
qed

lemma minify_hidden:
  "cJSON_Minify ((quote_char # escape (s @ [backslash]) @ [quote_char]) @ '', '' @ t)
    = (quote_char # escape (s @ [backslash]) @ [quote_char]) @ '', '' @ fst (minify_chars t) @ cJSON_Minify (snd (minify_chars t))"
proof -
  have "minify_chars ('', '' @ t) = ('', '' @ fst (minify_chars t), snd (minify_chars t))"
    by (rule minify_chars_plain) (simp_all add: quote_char_def backslash_def)
  then show ?thesis
    using minify_chars_hidden [of s "'', '' @ t"]
    by (simp, subst cJSON_Minify.simps(2)) (simp add: minify_string_def quote_char_def)
qed

lemma json_elements_append:
  "ps \<noteq> [] \<Longrightarrow> xs \<noteq> [] \<Longrightarrow> json_elements f d (ps @ xs) = json_elements f d ps @ (if f then '', '' else '','') @ json_elements f d xs"
  by (induction ps) auto

text \<open>
  C39: a backslash at the end of a string hides its closing quote from \<open>cJSON_Minify\<close>. In every array whose first such
  string has an element behind it, the blank between the two is kept (the scan is still inside the string), so the
  formatted text, which parses, is not minified to the unformatted one.
\<close>

theorem cJSON_Minify_backslash:
  assumes "v = cJSON_Array (ps @ cJSON_String (s @ [backslash]) # y # ys)" and "canonical v" and "nesting v \<le> CJSON_NESTING_LIMIT"
    and "list_all no_trailing_backslash ps"
  shows "cJSON_Parse (json_text True 0 v) = Ok v \<and> cJSON_Minify (json_text True 0 v) \<noteq> json_text False 0 v
    \<and> (\<exists>r. cJSON_Minify (json_text True 0 v) = ''['' @ json_elements False 1 (ps @ [cJSON_String (s @ [backslash])]) @ '', '' @ r)"
proof -
  let ?q = "quote_char # escape (s @ [backslash]) @ [quote_char]"
  define front where "front f = (if ps = [] then [] else json_elements f 1 ps @ (if f then '', '' else '',''))" for f
  define t where "t f = json_elements f 1 (y # ys) @ '']''" for f
  have shown: "json_text f 0 v = ''['' @ front f @ ?q @ (if f then '', '' else '','') @ t f" for f
    using json_elements_append [of ps "cJSON_String (s @ [backslash]) # y # ys" f 1] by (simp add: assms(1) front_def t_def)
  have front: "json_elements False 1 (ps @ [cJSON_String (s @ [backslash])]) = front False @ ?q"
    using json_elements_append [of ps "[cJSON_String (s @ [backslash])]" False 1] by (simp add: front_def)
  have "\<forall>x \<in> set ps. minifies x" using assms(1,2,4) canonical_minifies by (auto simp: list_all_iff)
  moreover have "cJSON_Minify ('', '' @ u) = '','' @ cJSON_Minify u" "cJSON_Minify (''['' @ u) = ''['' @ cJSON_Minify u" for u
    by (simp_all add: minify_step minify_blank special_def quote_char_def)
  ultimately have "cJSON_Minify (''['' @ front True @ u) = ''['' @ front False @ cJSON_Minify u" for u
    using minify_elements [of ps 1 "'', '' @ u"] by (simp add: front_def)
  then have min: "cJSON_Minify (json_text True 0 v)
      = ''['' @ front False @ ?q @ '', '' @ fst (minify_chars (t True)) @ cJSON_Minify (snd (minify_chars (t True)))"
    using minify_hidden [of s "t True"] by (simp add: shown)
  obtain c w where "json_text False 1 y = c # w" "32 < ord c" using json_text_first [of y False 1] assms(1,2) by auto
  then have "hd (t False) \<noteq> CHR '' ''" by (auto simp: t_def)
  then have "cJSON_Minify (json_text True 0 v) \<noteq> json_text False 0 v" unfolding min shown [of False] by (auto dest: arg_cong [where f = hd])
  with min front cJSON_Parse_text [OF assms(2,3)] show ?thesis by auto
qed

theorem cJSON_Minify_backslash_witness:
  "let v = cJSON_Array [cJSON_True, cJSON_String (''C:'' @ [backslash]), cJSON_NULL]
   in cJSON_Parse (json_text True 0 v) = Ok v \<and> cJSON_Minify (json_text True 0 v) \<noteq> json_text False 0 v"
  using cJSON_Minify_backslash [of "cJSON_Array [cJSON_True, cJSON_String (''C:'' @ [backslash]), cJSON_NULL]" "[cJSON_True]" "''C:''" cJSON_NULL "[]"]
  by (simp add: CJSON_NESTING_LIMIT_def backslash_def)

end
