(* ===== verification/CJson_List.thy ===== *)
theory CJson_List
  imports Disk_Prelude
begin

text \<open>
  The chains of \<open>cJSON\<close> structs of \<open>src/src/common/cJSON.c\<close>: the items of an array or object are linked by
  \<open>next\<close> and \<open>prev\<close> from the \<open>child\<close> of their parent, and \<open>prev\<close> of the first item points to the last one,
  or is \<open>NULL\<close> in chains built by the array constructors and by \<open>cJSON_Duplicate\<close>. A heap maps addresses to
  the three links of a struct; address 0 is \<open>NULL\<close>, and following it is \<^const>\<open>None\<close>. Appending, detaching,
  inserting and replacing items are shown to be the operations on lists they stand for.
\<close>

section \<open>Heap\<close>

record jnode =
  nxt :: nat
  prv :: nat
  chd :: nat

type_synonym heap = "nat \<Rightarrow> jnode"

definition get_field :: "(jnode \<Rightarrow> nat) \<Rightarrow> nat \<Rightarrow> heap \<Rightarrow> nat option" where
  "get_field f p h = (if p = 0 then None else Some (f (h p)))"

definition put_field :: "(jnode \<Rightarrow> jnode) \<Rightarrow> nat \<Rightarrow> heap \<Rightarrow> heap option" where
  "put_field f p h = (if p = 0 then None else Some (h(p := f (h p))))"

abbreviation set_nxt :: "nat \<Rightarrow> nat \<Rightarrow> heap \<Rightarrow> heap option" where
  "set_nxt p v \<equiv> put_field (nxt_update (\<lambda>_. v)) p"

abbreviation set_prv :: "nat \<Rightarrow> nat \<Rightarrow> heap \<Rightarrow> heap option" where
  "set_prv p v \<equiv> put_field (prv_update (\<lambda>_. v)) p"

abbreviation set_chd :: "nat \<Rightarrow> nat \<Rightarrow> heap \<Rightarrow> heap option" where
  "set_chd p v \<equiv> put_field (chd_update (\<lambda>_. v)) p"

section \<open>Operations\<close>

text \<open>The last item reached by \<open>next\<close>; \<^const>\<open>None\<close> also when the chain is circular.\<close>

partial_function (option) last_item :: "heap \<Rightarrow> nat \<Rightarrow> nat option" where
  "last_item h child = do { n \<leftarrow> get_field nxt child h; if n \<noteq> 0 then last_item h n else Some child }"

partial_function (option) item_at :: "heap \<Rightarrow> nat \<Rightarrow> nat \<Rightarrow> nat option" where
  "item_at h child index =
     (if child \<noteq> 0 \<and> index > 0 then do { n \<leftarrow> get_field nxt child h; item_at h n (index - 1) } else Some child)"

definition ptr_get_array_item :: "nat \<Rightarrow> nat \<Rightarrow> heap \<Rightarrow> nat option" where
  "ptr_get_array_item array index h =
     (if array = 0 then Some 0 else do { child \<leftarrow> get_field chd array h; item_at h child index })"

definition suffix_object :: "nat \<Rightarrow> nat \<Rightarrow> heap \<Rightarrow> heap option" where
  "suffix_object prev item h = do { h \<leftarrow> set_nxt prev item h; set_prv item prev h }"

definition ptr_add_item_to_array :: "nat \<Rightarrow> nat \<Rightarrow> heap \<Rightarrow> (bool \<times> heap) option" where
  "ptr_add_item_to_array array item h =
     (if item = 0 \<or> array = 0 \<or> array = item then Some (False, h)
      else do {
        child \<leftarrow> get_field chd array h;
        if child = 0 then do {
          h \<leftarrow> set_chd array item h;
          h \<leftarrow> set_prv item item h;
          h \<leftarrow> set_nxt item 0 h;
          Some (True, h) }
        else do {
          p \<leftarrow> get_field prv child h;
          if p \<noteq> 0 then do {
            h \<leftarrow> suffix_object p item h;
            c \<leftarrow> get_field chd array h;
            h \<leftarrow> set_prv c item h;
            Some (True, h) }
          else do {
            child \<leftarrow> last_item h child;
            h \<leftarrow> suffix_object child item h;
            c \<leftarrow> get_field chd array h;
            h \<leftarrow> set_prv c item h;
            Some (True, h) } } })"

definition cJSON_DetachItemViaPointer :: "nat \<Rightarrow> nat \<Rightarrow> heap \<Rightarrow> (nat \<times> heap) option" where
  "cJSON_DetachItemViaPointer parent item h =
     (if parent = 0 \<or> item = 0 then Some (0, h)
      else do {
        child \<leftarrow> get_field chd parent h;
        h \<leftarrow> (if item \<noteq> child then do { p \<leftarrow> get_field prv item h; n \<leftarrow> get_field nxt item h; set_nxt p n h } else Some h);
        n \<leftarrow> get_field nxt item h;
        h \<leftarrow> (if n \<noteq> 0 then do { p \<leftarrow> get_field prv item h; set_prv n p h } else Some h);
        child \<leftarrow> get_field chd parent h;
        n \<leftarrow> get_field nxt item h;
        h \<leftarrow> (if item = child then set_chd parent n h
              else if n = 0 then do { p \<leftarrow> get_field prv item h; set_prv child p h } else Some h);
        h \<leftarrow> set_prv item 0 h;
        h \<leftarrow> set_nxt item 0 h;
        Some (item, h) })"

definition cJSON_DetachItemFromArray :: "nat \<Rightarrow> int \<Rightarrow> heap \<Rightarrow> (nat \<times> heap) option" where
  "cJSON_DetachItemFromArray array which h =
     (if which < 0 then Some (0, h)
      else do { item \<leftarrow> ptr_get_array_item array (nat which) h; cJSON_DetachItemViaPointer array item h })"

definition cJSON_InsertItemInArray :: "nat \<Rightarrow> int \<Rightarrow> nat \<Rightarrow> heap \<Rightarrow> (bool \<times> heap) option" where
  "cJSON_InsertItemInArray array which newitem h =
     (if which < 0 then Some (False, h)
      else do {
        after_inserted \<leftarrow> ptr_get_array_item array (nat which) h;
        if after_inserted = 0 then ptr_add_item_to_array array newitem h
        else do {
          h \<leftarrow> set_nxt newitem after_inserted h;
          p \<leftarrow> get_field prv after_inserted h;
          h \<leftarrow> set_prv newitem p h;
          h \<leftarrow> set_prv after_inserted newitem h;
          child \<leftarrow> get_field chd array h;
          h \<leftarrow> (if after_inserted = child then set_chd array newitem h
                else do { p \<leftarrow> get_field prv newitem h; set_nxt p newitem h });
          Some (True, h) } })"

text \<open>The replaced item is freed; what \<open>cJSON_Delete\<close> frees is not part of the heap of live items.\<close>

definition cJSON_ReplaceItemViaPointer :: "nat \<Rightarrow> nat \<Rightarrow> nat \<Rightarrow> heap \<Rightarrow> (bool \<times> heap) option" where
  "cJSON_ReplaceItemViaPointer parent item replacement h =
     (if parent = 0 \<or> replacement = 0 \<or> item = 0 then Some (False, h)
      else if replacement = item then Some (True, h)
      else do {
        n \<leftarrow> get_field nxt item h;
        h \<leftarrow> set_nxt replacement n h;
        p \<leftarrow> get_field prv item h;
        h \<leftarrow> set_prv replacement p h;
        n \<leftarrow> get_field nxt replacement h;
        h \<leftarrow> (if n \<noteq> 0 then set_prv n replacement h else Some h);
        child \<leftarrow> get_field chd parent h;
        h \<leftarrow> (if child = item then do {
                p \<leftarrow> get_field prv child h;
                h \<leftarrow> (if p = child then set_prv replacement replacement h else Some h);
                set_chd parent replacement h }
              else do {
                p \<leftarrow> get_field prv replacement h;
                h \<leftarrow> (if p \<noteq> 0 then set_nxt p replacement h else Some h);
                n \<leftarrow> get_field nxt replacement h;
                child \<leftarrow> get_field chd parent h;
                if n = 0 then set_prv child replacement h else Some h });
        h \<leftarrow> set_nxt item 0 h;
        h \<leftarrow> set_prv item 0 h;
        Some (True, h) })"

definition cJSON_ReplaceItemInArray :: "nat \<Rightarrow> int \<Rightarrow> nat \<Rightarrow> heap \<Rightarrow> (bool \<times> heap) option" where
  "cJSON_ReplaceItemInArray array which newitem h =
     (if which < 0 then Some (False, h)
      else do { item \<leftarrow> ptr_get_array_item array (nat which) h; cJSON_ReplaceItemViaPointer array item newitem h })"

section \<open>Chains\<close>

definition hd0 :: "nat list \<Rightarrow> nat \<Rightarrow> nat" where
  "hd0 xs n = (if xs = [] then n else hd xs)"

definition last0 :: "nat \<Rightarrow> nat list \<Rightarrow> nat" where
  "last0 q xs = (if xs = [] then q else last xs)"

text \<open>A piece of a chain, with what comes before and behind it.\<close>

fun seg :: "heap \<Rightarrow> nat \<Rightarrow> nat list \<Rightarrow> nat \<Rightarrow> bool" where
  "seg h q [] n \<longleftrightarrow> True"
| "seg h q (x # xs) n \<longleftrightarrow> prv (h x) = q \<and> nxt (h x) = hd0 xs n \<and> seg h x xs n"

lemma seg_append: "seg h q (xs @ ys) n \<longleftrightarrow> seg h q xs (hd0 ys n) \<and> seg h (last0 q xs) ys n"
  by (induction xs arbitrary: q) (auto simp: hd0_def last0_def)

lemma seg_frame: "seg h q xs n \<Longrightarrow> (\<And>x. x \<in> set xs \<Longrightarrow> nxt (h' x) = nxt (h x) \<and> prv (h' x) = prv (h x)) \<Longrightarrow> seg h' q xs n"
  by (induction xs arbitrary: q) auto

text \<open>The list of the items of a parent.\<close>

definition items :: "heap \<Rightarrow> nat \<Rightarrow> nat list \<Rightarrow> bool" where
  "items h parent xs \<longleftrightarrow> distinct (0 # parent # xs) \<and> chd (h parent) = hd0 xs 0 \<and>
     (seg h 0 xs 0 \<or> seg h (last0 0 xs) xs 0)"


lemma seg_relink:
  assumes "seg h q xs n" and "xs \<noteq> []" and "distinct xs"
    and "\<And>x. x \<in> set xs \<Longrightarrow> nxt (h' x) = (if x = last xs then n' else nxt (h x))"
    and "\<And>x. x \<in> set xs \<Longrightarrow> prv (h' x) = (if x = hd xs then q' else prv (h x))"
  shows "seg h' q' xs n'"
  using assms
proof (induction xs arbitrary: q q')
  case (Cons x xs)
  show ?case
  proof (cases "xs = []")
    case True
    then show ?thesis using Cons.prems by (simp add: hd0_def)
  next
    case False
    have "seg h' x xs n'"
    proof (rule Cons.IH [OF _ False])
      show "seg h x xs n" "distinct xs" using Cons.prems by simp_all
      show "nxt (h' y) = (if y = last xs then n' else nxt (h y))" if "y \<in> set xs" for y
        using Cons.prems(4) [of y] that False by simp
      show "prv (h' y) = (if y = hd xs then x else prv (h y))" if "y \<in> set xs" for y
        using Cons.prems(1,3) Cons.prems(5) [of y] that by (cases xs) auto
    qed
    moreover have "last xs \<noteq> x" using False Cons.prems(3) by (metis distinct.simps(2) last_in_set)
    ultimately show ?thesis using False Cons.prems(1) Cons.prems(4) [of x] Cons.prems(5) [of x] by (auto simp: hd0_def)
  qed
qed simp

lemma seg_last: "seg h q xs n \<Longrightarrow> xs \<noteq> [] \<Longrightarrow> nxt (h (last xs)) = n"
  by (induction xs arbitrary: q) (auto simp: hd0_def)

lemma last_item_seg: "seg h q (x # xs) 0 \<Longrightarrow> 0 \<notin> set (x # xs) \<Longrightarrow> last_item h x = Some (last (x # xs))"
proof (induction xs arbitrary: q x)
  case Nil
  then show ?case by (subst last_item.simps) (simp add: get_field_def hd0_def)
next
  case (Cons y ys)
  then show ?case by (subst last_item.simps) (simp add: get_field_def hd0_def)
qed

lemma item_at_seg: "seg h q xs 0 \<Longrightarrow> 0 \<notin> set xs \<Longrightarrow> item_at h (hd0 xs 0) i = Some (if i < length xs then xs ! i else 0)"
proof (induction xs arbitrary: q i)
  case Nil
  then show ?case by (subst item_at.simps) (simp add: hd0_def)
next
  case (Cons x xs)
  then show ?case
    by (subst item_at.simps) (cases i; auto simp: hd0_def get_field_def split: if_splits)
qed

lemma get_array_item_items: "items h a xs \<Longrightarrow> ptr_get_array_item a i h = Some (if i < length xs then xs ! i else 0)"
  using item_at_seg [of h _ xs i] by (auto simp: items_def ptr_get_array_item_def get_field_def)

section \<open>The operations are list operations\<close>

lemma items_seg: "items h a xs \<Longrightarrow> \<exists>q. seg h q xs 0 \<and> (q = 0 \<or> q = last0 0 xs)"
  by (auto simp: items_def)

lemma itemsI: "seg h q xs 0 \<Longrightarrow> q = 0 \<or> q = last0 0 xs \<Longrightarrow> distinct (0 # a # xs) \<Longrightarrow> chd (h a) = hd0 xs 0 \<Longrightarrow> items h a xs"
  by (auto simp: items_def)

lemmas field_simps' = get_field_def put_field_def

lemma add_items:
  assumes "items h a xs" and "item \<notin> set (0 # a # xs)" and "nxt (h item) = 0"
  shows "\<exists>h'. ptr_add_item_to_array a item h = Some (True, h') \<and> items h' a (xs @ [item]) \<and> (\<forall>p. p \<notin> set (a # item # xs) \<longrightarrow> h' p = h p)"
proof (cases "xs = []")
  case True
  then show ?thesis
    using assms by (auto simp: items_def ptr_add_item_to_array_def field_simps' hd0_def last0_def)
next
  case False
  obtain q where q: "seg h q xs 0" "q = 0 \<or> q = last xs" using items_seg [OF assms(1)] False by (auto simp: last0_def)
  have d: "distinct (0 # a # xs)" and c: "chd (h a) = hd xs" using assms(1) False by (auto simp: items_def hd0_def)
  have last: "last_item h (hd xs) = Some (last xs)" using last_item_seg [of h q "hd xs" "tl xs"] q(1) d False by (cases xs) auto
  have prv: "prv (h (hd xs)) = q" using q(1) False by (cases xs) auto
  have ne: "hd xs \<in> set xs" "last xs \<in> set xs" using False by auto
  then have nz: "hd xs \<noteq> 0" "last xs \<noteq> 0" "hd xs \<noteq> a" "last xs \<noteq> a" "hd xs \<noteq> item" "last xs \<noteq> item" "item \<noteq> 0" "a \<noteq> 0" "item \<noteq> a"
    using d assms(2) by (auto intro!: gr0I)
  define h1 where "h1 = h(last xs := (h (last xs))\<lparr>nxt := item\<rparr>)"
  define h2 where "h2 = h1(item := (h1 item)\<lparr>prv := last xs\<rparr>)"
  define h3 where "h3 = h2(hd xs := (h2 (hd xs))\<lparr>prv := item\<rparr>)"
  have run: "ptr_add_item_to_array a item h = Some (True, h3)"
  proof (cases "q = 0")
    case True
    then show ?thesis
      using prv last nz c unfolding ptr_add_item_to_array_def suffix_object_def field_simps'
      by (simp add: h1_def h2_def h3_def)
  next
    case False
    then show ?thesis
      using q(2) prv nz c unfolding ptr_add_item_to_array_def suffix_object_def field_simps'
      by (simp add: h1_def h2_def h3_def)
  qed
  have nxt3: "y \<in> set xs \<Longrightarrow> nxt (h3 y) = (if y = last xs then item else nxt (h y))"
    and prv3: "y \<in> set xs \<Longrightarrow> prv (h3 y) = (if y = hd xs then item else prv (h y))" for y
    using assms(2) by (auto simp: h1_def h2_def h3_def)
  have "distinct xs" using d by simp
  have "seg h3 item xs item"
    by (rule seg_relink [OF q(1) False \<open>distinct xs\<close>]) (simp_all add: nxt3 prv3)
  then have "seg h3 item (xs @ [item]) 0"
    using nz False assms(3) by (simp add: seg_append hd0_def last0_def h1_def h2_def h3_def)
  moreover have "chd (h3 a) = hd xs" using nz c by (simp add: h1_def h2_def h3_def)
  ultimately have "items h3 a (xs @ [item])"
    using d assms(2) False by (intro itemsI) (auto simp: hd0_def last0_def)
  moreover have "\<forall>p. p \<notin> set (a # item # xs) \<longrightarrow> h3 p = h p" using ne by (auto simp: h1_def h2_def h3_def)
  ultimately show ?thesis using run by blast
qed


lemma detach_items:
  assumes "items h a (xs @ x # ys)"
  shows "\<exists>h'. cJSON_DetachItemViaPointer a x h = Some (x, h') \<and> items h' a (xs @ ys) \<and> nxt (h' x) = 0 \<and> prv (h' x) = 0 \<and>
     (\<forall>p. p \<notin> set (a # xs @ x # ys) \<longrightarrow> h' p = h p)"
proof -
  obtain q where q: "seg h q (xs @ x # ys) 0" "q = 0 \<or> q = last (x # ys)"
    using items_seg [OF assms] by (auto simp: last0_def)
  have d: "distinct (0 # a # xs @ x # ys)" and c: "chd (h a) = hd0 xs x" using assms by (auto simp: items_def hd0_def)
  have sx: "seg h q xs x" "prv (h x) = last0 q xs" "nxt (h x) = hd0 ys 0" "seg h x ys 0"
    using q(1) by (auto simp: seg_append hd0_def)
  have nz: "x \<noteq> 0" "a \<noteq> 0" "x \<noteq> a" "x \<notin> set xs" "x \<notin> set ys" "a \<notin> set xs" "a \<notin> set ys" using d by auto
  have "\<forall>y \<in> set xs. y \<noteq> 0 \<and> y \<noteq> x \<and> y \<noteq> a" using d by auto
  then have hx: "xs \<noteq> [] \<Longrightarrow> hd xs \<noteq> 0 \<and> last xs \<noteq> 0 \<and> hd xs \<noteq> x \<and> last xs \<noteq> x \<and> hd xs \<noteq> a \<and> last xs \<noteq> a"
    by simp
  have hy: "ys \<noteq> [] \<Longrightarrow> hd ys \<noteq> 0 \<and> hd ys \<noteq> x \<and> hd ys \<noteq> a" using d by (cases ys) auto
  define h1 where "h1 = (if xs = [] then h else h(last xs := (h (last xs))\<lparr>nxt := hd0 ys 0\<rparr>))"
  define h2 where "h2 = (if ys = [] then h1 else h1(hd ys := (h1 (hd ys))\<lparr>prv := last0 q xs\<rparr>))"
  define h3 where "h3 = (if xs = [] then h2(a := (h2 a)\<lparr>chd := hd0 ys 0\<rparr>)
     else if ys = [] then h2(hd xs := (h2 (hd xs))\<lparr>prv := last xs\<rparr>) else h2)"
  define h4 where "h4 = h3(x := (h3 x)\<lparr>prv := 0, nxt := 0\<rparr>)"
  have run: "cJSON_DetachItemViaPointer a x h = Some (x, h4)"
  proof (cases "xs = []")
    case True
    then show ?thesis
      using sx nz hy c unfolding cJSON_DetachItemViaPointer_def field_simps'
      by (cases ys) (auto simp: h1_def h2_def h3_def h4_def hd0_def last0_def)
  next
    case False
    then show ?thesis
      using sx nz hy hx c unfolding cJSON_DetachItemViaPointer_def field_simps'
      by (cases ys) (auto simp: h1_def h2_def h3_def h4_def hd0_def last0_def)
  qed
  define q' where "q' = (if ys \<noteq> [] then q else if xs = [] then 0 else last xs)"
  have nxt4: "nxt (h4 y) = (if y = x then 0 else if xs \<noteq> [] \<and> y = last xs then hd0 ys 0 else nxt (h y))" for y
    by (cases "xs = []"; cases "ys = []"; simp add: h1_def h2_def h3_def h4_def)
  have prv4: "prv (h4 y) = (if y = x then 0 else if xs \<noteq> [] \<and> ys = [] \<and> y = hd xs then last xs
      else if ys \<noteq> [] \<and> y = hd ys then last0 q xs else prv (h y))" for y
    by (cases "xs = []"; cases "ys = []"; simp add: h1_def h2_def h3_def h4_def)
  have disj: "y \<in> set xs \<Longrightarrow> y \<noteq> x \<and> (ys \<noteq> [] \<longrightarrow> y \<noteq> hd ys)" "z \<in> set ys \<Longrightarrow> z \<noteq> x \<and> (xs \<noteq> [] \<longrightarrow> z \<noteq> last xs)" for y z
    using d by (auto dest: hd_in_set last_in_set)
  have left: "seg h4 q' xs (hd0 ys 0)"
  proof (cases "xs = []")
    case False
    have "prv (h (hd xs)) = q" using sx(1) False by (cases xs) auto
    then show ?thesis
      by (intro seg_relink [OF sx(1) False]) (use d disj(1) False in \<open>auto simp: nxt4 prv4 q'_def\<close>)
  qed simp
  have right: "seg h4 (last0 q' xs) ys 0"
  proof (cases "ys = []")
    case False
    have nl: "nxt (h (last ys)) = 0" using seg_last [OF sx(4) False] .
    show ?thesis
      by (rule seg_relink [OF sx(4) False]) (use d disj(2) False nl in \<open>auto simp: nxt4 prv4 q'_def last0_def\<close>)
  qed simp
  have "items h4 a (xs @ ys)"
  proof (rule itemsI [of h4 q'])
    show "seg h4 q' (xs @ ys) 0" using left right by (simp add: seg_append)
    show "q' = 0 \<or> q' = last0 0 (xs @ ys)" using q(2) by (auto simp: q'_def last0_def)
    show "distinct (0 # a # xs @ ys)" using d by auto
    show "chd (h4 a) = hd0 (xs @ ys) 0" using c nz hx hy
      by (cases "xs = []"; cases "ys = []"; simp add: h1_def h2_def h3_def h4_def hd0_def)
  qed
  moreover have "nxt (h4 x) = 0" "prv (h4 x) = 0" by (simp_all add: h4_def)
  moreover have "\<forall>p. p \<notin> set (a # xs @ x # ys) \<longrightarrow> h4 p = h p"
    by (cases "xs = []"; cases "ys = []"; auto simp: h1_def h2_def h3_def h4_def)
  ultimately show ?thesis using run by blast
qed


lemma insert_items:
  assumes "items h a (xs @ x # ys)" and "new \<notin> set (0 # a # xs @ x # ys)"
  shows "\<exists>h'. cJSON_InsertItemInArray a (int (length xs)) new h = Some (True, h') \<and> items h' a (xs @ new # x # ys) \<and>
     (\<forall>p. p \<notin> set (a # new # xs @ x # ys) \<longrightarrow> h' p = h p)"
proof -
  obtain q where q: "seg h q (xs @ x # ys) 0" "q = 0 \<or> q = last (x # ys)"
    using items_seg [OF assms(1)] by (auto simp: last0_def)
  have d: "distinct (0 # a # xs @ x # ys)" and c: "chd (h a) = hd0 xs x" using assms by (auto simp: items_def hd0_def)
  have sx: "seg h q xs x" "prv (h x) = last0 q xs" "seg h (last0 q xs) (x # ys) 0"
    using q(1) by (auto simp: seg_append hd0_def)
  have nz: "x \<noteq> 0" "a \<noteq> 0" "x \<noteq> a" "x \<notin> set xs" "x \<notin> set ys" "new \<noteq> 0" "new \<noteq> a" "new \<noteq> x" "new \<notin> set xs" "new \<notin> set ys"
    using d assms(2) by auto
  have "\<forall>y \<in> set xs. y \<noteq> 0 \<and> y \<noteq> x \<and> y \<noteq> a \<and> y \<noteq> new" using d assms(2) by auto
  then have hx: "xs \<noteq> [] \<Longrightarrow> hd xs \<noteq> x \<and> last xs \<noteq> 0 \<and> last xs \<noteq> x \<and> last xs \<noteq> a \<and> last xs \<noteq> new"
    by simp
  have at: "ptr_get_array_item a (length xs) h = Some x" using get_array_item_items [OF assms(1)] by simp
  define h1 where "h1 = h(new := (h new)\<lparr>nxt := x, prv := last0 q xs\<rparr>, x := (h x)\<lparr>prv := new\<rparr>)"
  define h2 where "h2 = (if xs = [] then h1(a := (h1 a)\<lparr>chd := new\<rparr>) else h1(last xs := (h1 (last xs))\<lparr>nxt := new\<rparr>))"
  have run: "cJSON_InsertItemInArray a (int (length xs)) new h = Some (True, h2)"
    using at sx nz hx c unfolding cJSON_InsertItemInArray_def field_simps'
    by (cases "xs = []"; simp add: h1_def h2_def hd0_def last0_def fun_upd_twist)
  have nxt2: "nxt (h2 y) = (if y = new then x else if xs \<noteq> [] \<and> y = last xs then new else nxt (h y))" for y
    using nz hx by (cases "xs = []"; simp add: h1_def h2_def)
  have prv2: "prv (h2 y) = (if y = new then last0 q xs else if y = x then new else prv (h y))" for y
    using nz hx by (cases "xs = []"; simp add: h1_def h2_def)
  have left: "seg h2 q xs new"
  proof (cases "xs = []")
    case False
    have "prv (h (hd xs)) = q" using sx(1) False by (cases xs) auto
    then show ?thesis
      by (intro seg_relink [OF sx(1) False]) (use d nz False in \<open>auto simp: nxt2 prv2\<close>)
  qed simp
  have "nxt (h (last (x # ys))) = 0" using seg_last [OF sx(3)] by simp
  moreover have "xs \<noteq> [] \<Longrightarrow> y \<in> set (x # ys) \<Longrightarrow> y \<noteq> last xs" for y
      using d by (metis (no_types, lifting) disjoint_iff distinct.simps(2) distinct_append last_in_set list.set_intros(2) set_ConsD)
  ultimately have right: "seg h2 new (x # ys) 0"
    by (intro seg_relink [OF sx(3)]) (use d nz in \<open>auto simp: nxt2 prv2\<close>)
  have "items h2 a (xs @ new # x # ys)"
  proof (rule itemsI [of h2 q])
    show "seg h2 q (xs @ new # x # ys) 0"
      using left right nz by (simp add: seg_append hd0_def nxt2 prv2)
    show "q = 0 \<or> q = last0 0 (xs @ new # x # ys)" using q(2) by (auto simp: last0_def)
    show "distinct (0 # a # xs @ new # x # ys)" using d assms(2) by auto
    show "chd (h2 a) = hd0 (xs @ new # x # ys) 0" using c nz hx by (cases "xs = []"; simp add: h1_def h2_def hd0_def)
  qed
  moreover have "\<forall>p. p \<notin> set (a # new # xs @ x # ys) \<longrightarrow> h2 p = h p"
    by (cases "xs = []"; auto simp: h1_def h2_def)
  ultimately show ?thesis using run by blast
qed

lemma replace_items:
  assumes "items h a (xs @ x # ys)" and "r \<notin> set (0 # a # xs @ x # ys)"
  shows "\<exists>h'. cJSON_ReplaceItemViaPointer a x r h = Some (True, h') \<and> items h' a (xs @ r # ys) \<and>
     (\<forall>p. p \<notin> set (a # r # xs @ x # ys) \<longrightarrow> h' p = h p)"
proof -
  obtain q where q: "seg h q (xs @ x # ys) 0" "q = 0 \<or> q = last (x # ys)"
    using items_seg [OF assms(1)] by (auto simp: last0_def)
  have d: "distinct (0 # a # xs @ x # ys)" and c: "chd (h a) = hd0 xs x" using assms by (auto simp: items_def hd0_def)
  have sx: "seg h q xs x" "prv (h x) = last0 q xs" "nxt (h x) = hd0 ys 0" "seg h x ys 0"
    using q(1) by (auto simp: seg_append hd0_def)
  have nz: "x \<noteq> 0" "a \<noteq> 0" "x \<noteq> a" "x \<notin> set xs" "x \<notin> set ys" "r \<noteq> 0" "r \<noteq> a" "r \<noteq> x" "r \<notin> set xs" "r \<notin> set ys"
    using d assms(2) by auto
  have "\<forall>y \<in> set xs. y \<noteq> 0 \<and> y \<noteq> x \<and> y \<noteq> a \<and> y \<noteq> r" using d assms(2) by auto
  then have hx: "xs \<noteq> [] \<Longrightarrow> hd xs \<noteq> 0 \<and> hd xs \<noteq> x \<and> hd xs \<noteq> a \<and> hd xs \<noteq> r \<and> last xs \<noteq> 0 \<and> last xs \<noteq> x \<and> last xs \<noteq> a \<and> last xs \<noteq> r"
    by simp
  have "\<forall>y \<in> set ys. y \<noteq> 0 \<and> y \<noteq> x \<and> y \<noteq> a \<and> y \<noteq> r" using d assms(2) by auto
  then have hy: "ys \<noteq> [] \<Longrightarrow> hd ys \<noteq> 0 \<and> hd ys \<noteq> x \<and> hd ys \<noteq> a \<and> hd ys \<noteq> r \<and> last ys \<noteq> x"
    by simp
  have qx: "q = x \<Longrightarrow> ys = []" using q(2) nz(1) hy by (cases "ys = []") auto
  define q' where "q' = (if ys = [] \<and> (q = x \<or> xs \<noteq> []) then r else q)"
  define h0 where "h0 = h(r := (h r)\<lparr>nxt := hd0 ys 0\<rparr>)"
  define h1 where "h1 = h0(r := (h0 r)\<lparr>prv := last0 q xs\<rparr>)"
  define h2 where "h2 = (if ys = [] then h1 else h1(hd ys := (h1 (hd ys))\<lparr>prv := r\<rparr>))"
  define h2a where "h2a = (if xs = [] \<and> q = x then h2(r := (h2 r)\<lparr>prv := r\<rparr>) else h2)"
  define h2b where "h2b = (if xs = [] then h2a(a := (h2a a)\<lparr>chd := r\<rparr>) else h2a(last xs := (h2a (last xs))\<lparr>nxt := r\<rparr>))"
  define h2c where "h2c = (if xs \<noteq> [] \<and> ys = [] then h2b(hd xs := (h2b (hd xs))\<lparr>prv := r\<rparr>) else h2b)"
  define h2d where "h2d = h2c(x := (h2c x)\<lparr>nxt := 0\<rparr>)"
  define h3 where "h3 = h2d(x := (h2d x)\<lparr>prv := 0\<rparr>)"
  have l1: "nxt (h1 y) = (if y = r then hd0 ys 0 else nxt (h y))" "prv (h0 y) = prv (h y)"
    "prv (h1 y) = (if y = r then last0 q xs else prv (h y))" "chd (h1 y) = chd (h y)" for y
    by (simp_all add: h0_def h1_def)
  have l2: "nxt (h2 y) = nxt (h1 y)" "prv (h2 y) = (if ys \<noteq> [] \<and> y = hd ys then r else prv (h1 y))" "chd (h2 y) = chd (h1 y)" for y
    by (simp_all add: h2_def)
  have l2a: "nxt (h2a y) = nxt (h2 y)" "prv (h2a y) = (if xs = [] \<and> q = x \<and> y = r then r else prv (h2 y))" "chd (h2a y) = chd (h2 y)" for y
    by (simp_all add: h2a_def)
  have l2b: "nxt (h2b y) = (if xs \<noteq> [] \<and> y = last xs then r else nxt (h2a y))" "prv (h2b y) = prv (h2a y)"
    "chd (h2b y) = (if xs = [] \<and> y = a then r else chd (h2a y))" for y
    by (simp_all add: h2b_def)
  have l2c: "nxt (h2c y) = nxt (h2b y)" "prv (h2c y) = (if xs \<noteq> [] \<and> ys = [] \<and> y = hd xs then r else prv (h2b y))" "chd (h2c y) = chd (h2b y)" for y
    by (simp_all add: h2c_def)
  have l3: "nxt (h3 y) = (if y = x then 0 else nxt (h2c y))" "prv (h3 y) = (if y = x then 0 else prv (h2c y))" "chd (h3 y) = chd (h2c y)" for y
    by (simp_all add: h2d_def h3_def)
  note look = l1 l2 l2a l2b l2c l3
  note neq = nz(1-3,6-8) nz(3,7,8) [symmetric]
  have steps: "set_nxt r (hd0 ys 0) h = Some h0" "set_prv r (last0 q xs) h0 = Some h1" "set_nxt x 0 h2c = Some h2d" "set_prv x 0 h2d = Some h3"
    using neq by (simp_all add: put_field_def h0_def h1_def h2d_def h3_def)
  have steps2: "ys \<noteq> [] \<Longrightarrow> set_prv (hd ys) r h1 = Some h2" "xs = [] \<Longrightarrow> q = x \<Longrightarrow> set_prv r r h2 = Some h2a"
    using neq hy by (simp_all add: put_field_def h2_def h2a_def)
  have steps3: "xs = [] \<Longrightarrow> set_chd a r h2a = Some h2b" "xs \<noteq> [] \<Longrightarrow> set_nxt (last xs) r h2a = Some h2b"
    using neq hx by (simp_all add: put_field_def h2b_def)
  have steps4: "xs \<noteq> [] \<Longrightarrow> ys = [] \<Longrightarrow> set_prv (hd xs) r h2b = Some h2c"
    using hx by (simp add: put_field_def h2c_def)
  note steps = steps steps2 steps3 steps4
  have skips: "ys = [] \<Longrightarrow> h2 = h1" "\<not> (xs = [] \<and> q = x) \<Longrightarrow> h2a = h2" "\<not> (xs \<noteq> [] \<and> ys = []) \<Longrightarrow> h2c = h2b"
    by (auto simp: h2_def h2a_def h2c_def)
  have gets: "get_field nxt x h = Some (hd0 ys 0)" "get_field prv x h0 = Some (last0 q xs)" "get_field nxt r h1 = Some (hd0 ys 0)"
    "get_field chd a h2 = Some (hd0 xs x)" "get_field prv x h2 = Some (last0 q xs)" "get_field prv r h2 = Some (last0 q xs)"
    "get_field nxt r h2b = Some (hd0 ys 0)" "get_field chd a h2b = Some (if xs = [] then r else hd0 xs x)"
    using neq hx hy sx c by (auto simp: get_field_def look hd0_def)
  have run: "cJSON_ReplaceItemViaPointer a x r h = Some (True, h3)"
  proof (cases "xs = []")
    case True
    then have "h2c = h2b" using skips(3) by simp
    with True show ?thesis
      using neq hy qx steps gets skips(1,2) unfolding cJSON_ReplaceItemViaPointer_def
      by (cases "ys = []"; cases "q = x"; simp add: hd0_def last0_def)
  next
    case False
    then have "h2a = h2" using skips(2) by simp
    with False show ?thesis
      using neq hy hx steps gets skips(1,3) unfolding cJSON_ReplaceItemViaPointer_def
      by (cases "ys = []"; simp add: hd0_def last0_def)
  qed
  have nxt3: "nxt (h3 y) = (if y = x then 0 else if xs \<noteq> [] \<and> y = last xs then r else if y = r then hd0 ys 0 else nxt (h y))" for y
    by (simp add: look)
  have prv3: "prv (h3 y) = (if y = x then 0 else if xs \<noteq> [] \<and> ys = [] \<and> y = hd xs then r
      else if xs = [] \<and> q = x \<and> y = r then r else if ys \<noteq> [] \<and> y = hd ys then r else if y = r then last0 q xs else prv (h y))" for y
    by (simp add: look)
  have chd3: "chd (h3 y) = (if xs = [] \<and> y = a then r else chd (h y))" for y
    by (simp add: look)
  have left: "seg h3 q' xs r"
  proof (cases "xs = []")
    case False
    have "prv (h (hd xs)) = q" using sx(1) False by (cases xs) auto
    moreover have "ys \<noteq> [] \<Longrightarrow> y \<in> set xs \<Longrightarrow> y \<noteq> hd ys" for y
      using d by (metis (no_types, lifting) disjoint_iff distinct.simps(2) distinct_append hd_in_set list.set_intros(2))
    ultimately show ?thesis
      by (intro seg_relink [OF sx(1) False]) (use d nz qx False in \<open>auto simp: nxt3 prv3 q'_def\<close>)
  qed simp
  have right: "seg h3 r ys 0"
  proof (cases "ys = []")
    case False
    have nl: "nxt (h (last ys)) = 0" using seg_last [OF sx(4) False] .
    moreover have "xs \<noteq> [] \<Longrightarrow> y \<in> set ys \<Longrightarrow> y \<noteq> last xs" for y
      using d by (metis (no_types, lifting) disjoint_iff distinct.simps(2) distinct_append last_in_set list.set_intros(2) set_ConsD)
    ultimately show ?thesis
      by (intro seg_relink [OF sx(4) False]) (use d nz False in \<open>auto simp: nxt3 prv3\<close>)
  qed simp
  have link: "prv (h3 r) = last0 q' xs" "nxt (h3 r) = hd0 ys 0"
    using nz hx hy qx by (cases "xs = []"; auto simp: nxt3 prv3 q'_def last0_def)+
  have "items h3 a (xs @ r # ys)"
  proof (rule itemsI [of h3 q'])
    show "seg h3 q' (xs @ r # ys) 0"
      using left right link by (simp add: seg_append hd0_def)
    show "q' = 0 \<or> q' = last0 0 (xs @ r # ys)" using q(2) by (auto simp: q'_def last0_def)
    show "distinct (0 # a # xs @ r # ys)" using d assms(2) by auto
    show "chd (h3 a) = hd0 (xs @ r # ys) 0" using c nz by (simp add: chd3 hd0_def)
  qed
  moreover have "\<forall>p. p \<notin> set (a # r # xs @ x # ys) \<longrightarrow> h3 p = h p"
    using hd_in_set [of xs] last_in_set [of xs] hd_in_set [of ys]
    by (cases "xs = []"; cases "ys = []"; simp add: h0_def h1_def h2_def h2a_def h2b_def h2c_def h2d_def h3_def; metis)
  ultimately show ?thesis using run by blast
qed


section \<open>Sequences of operations\<close>

datatype list_op = Append nat | Detach nat | Insert nat nat | Replace nat nat

fun abs_op :: "list_op \<Rightarrow> nat list \<Rightarrow> nat list" where
  "abs_op (Append p) xs = xs @ [p]"
| "abs_op (Detach i) xs = take i xs @ drop (Suc i) xs"
| "abs_op (Insert i p) xs = take i xs @ p # drop i xs"
| "abs_op (Replace i p) xs = xs[i := p]"

fun new_items :: "list_op \<Rightarrow> nat list" where
  "new_items (Append p) = [p]"
| "new_items (Detach i) = []"
| "new_items (Insert i p) = [p]"
| "new_items (Replace i p) = [p]"

fun run_op :: "nat \<Rightarrow> list_op \<Rightarrow> heap \<Rightarrow> heap option" where
  "run_op a (Append p) h = map_option snd (ptr_add_item_to_array a p h)"
| "run_op a (Detach i) h = map_option snd (cJSON_DetachItemFromArray a (int i) h)"
| "run_op a (Insert i p) h = map_option snd (cJSON_InsertItemInArray a (int i) p h)"
| "run_op a (Replace i p) h = map_option snd (cJSON_ReplaceItemInArray a (int i) p h)"

primrec run_ops :: "nat \<Rightarrow> list_op list \<Rightarrow> heap \<Rightarrow> heap option" where
  "run_ops a [] h = Some h"
| "run_ops a (op # ops) h = do { h \<leftarrow> run_op a op h; run_ops a ops h }"

lemma run_op_refines:
  assumes "items h a xs" and "set (new_items op) \<inter> set (0 # a # xs) = {}" and "\<forall>p \<in> set (new_items op). nxt (h p) = 0"
  shows "\<exists>h'. run_op a op h = Some h' \<and> items h' a (abs_op op xs) \<and> (\<forall>p. p \<notin> set (a # new_items op @ xs) \<longrightarrow> h' p = h p)"
proof (cases op)
  case (Append p)
  then show ?thesis using add_items [OF assms(1), of p] assms(2,3) by auto
next
  case (Detach i)
  show ?thesis
  proof (cases "i < length xs")
    case True
    then have split: "take i xs @ xs ! i # drop (Suc i) xs = xs" by (simp add: id_take_nth_drop [symmetric])
    then show ?thesis
      using detach_items [of h a "take i xs" "xs ! i" "drop (Suc i) xs"] get_array_item_items [OF assms(1), of i] assms(1) True
      by (auto simp: Detach cJSON_DetachItemFromArray_def)
  next
    case False
    then show ?thesis
      using assms(1) get_array_item_items [OF assms(1), of i]
      by (simp add: Detach cJSON_DetachItemFromArray_def cJSON_DetachItemViaPointer_def)
  qed
next
  case (Insert i p)
  show ?thesis
  proof (cases "i < length xs")
    case True
    then have split: "take i xs @ xs ! i # drop (Suc i) xs = xs" "length (take i xs) = i" "xs ! i # drop (Suc i) xs = drop i xs"
      by (simp_all add: id_take_nth_drop [symmetric] Cons_nth_drop_Suc)
    then show ?thesis
      using insert_items [of h a "take i xs" "xs ! i" "drop (Suc i) xs" p] assms(1,2)
      by (auto simp: Insert)
  next
    case False
    then show ?thesis
      using add_items [OF assms(1), of p] get_array_item_items [OF assms(1), of i] assms(2,3)
      by (auto simp: Insert cJSON_InsertItemInArray_def)
  qed
next
  case (Replace i p)
  show ?thesis
  proof (cases "i < length xs")
    case True
    then have split: "take i xs @ xs ! i # drop (Suc i) xs = xs" "take i xs @ p # drop (Suc i) xs = xs[i := p]"
      by (simp_all add: id_take_nth_drop [symmetric] upd_conv_take_nth_drop)
    then show ?thesis
      using replace_items [of h a "take i xs" "xs ! i" "drop (Suc i) xs" p] get_array_item_items [OF assms(1), of i] assms(1,2) True
      by (auto simp: Replace cJSON_ReplaceItemInArray_def)
  next
    case False
    then show ?thesis
      using assms(1) get_array_item_items [OF assms(1), of i]
      by (simp add: Replace cJSON_ReplaceItemInArray_def cJSON_ReplaceItemViaPointer_def list_update_beyond)
  qed
qed

lemma abs_op_set: "set (abs_op op xs) \<subseteq> set (new_items op) \<union> set xs"
  by (cases op) (auto dest: in_set_takeD in_set_dropD set_update_subset_insert [THEN subsetD])

text \<open>
  C17: whatever sequence of appending, detaching, inserting and replacing is run on the items of an array,
  with items that are not linked elsewhere and at any position, no \<open>NULL\<close> pointer is followed and the
  chain is the list obtained by the same operations on lists, with \<open>next\<close>, \<open>prev\<close> and \<open>child\<close> consistent.
\<close>

theorem child_chain_refines_list:
  assumes "items h a xs" and "distinct (concat (map new_items ops))"
    and "set (concat (map new_items ops)) \<inter> set (0 # a # xs) = {}" and "\<forall>p \<in> set (concat (map new_items ops)). nxt (h p) = 0"
  shows "\<exists>h'. run_ops a ops h = Some h' \<and> items h' a (fold abs_op ops xs)"
  using assms
proof (induction ops arbitrary: h xs)
  case (Cons op ops)
  obtain h1 where h1: "run_op a op h = Some h1" "items h1 a (abs_op op xs)" "\<forall>p. p \<notin> set (a # new_items op @ xs) \<longrightarrow> h1 p = h p"
  proof -
    have "set (new_items op) \<inter> set (0 # a # xs) = {}" "\<forall>p \<in> set (new_items op). nxt (h p) = 0"
      using Cons.prems(3,4) by auto
    from run_op_refines [OF Cons.prems(1) this] show ?thesis using that by blast
  qed
  have "\<exists>h'. run_ops a ops h1 = Some h' \<and> items h' a (fold abs_op ops (abs_op op xs))"
  proof (rule Cons.IH [OF h1(2)])
    show "distinct (concat (map new_items ops))" using Cons.prems(2) by simp
    show "set (concat (map new_items ops)) \<inter> set (0 # a # abs_op op xs) = {}"
      using Cons.prems(2,3) abs_op_set [of op xs] by simp blast
    show "\<forall>p \<in> set (concat (map new_items ops)). nxt (h1 p) = 0"
    proof
      fix p assume p: "p \<in> set (concat (map new_items ops))"
      then have "p \<notin> set (a # new_items op @ xs)" using Cons.prems(2,3) by simp blast
      then show "nxt (h1 p) = 0" using h1(3) Cons.prems(4) p by simp
    qed
  qed
  with h1(1) show ?case by simp
qed simp

theorem child_chain_refines_list_witness:
  "\<exists>h'. run_ops 1 [Append 2, Append 3, Insert 0 4, Detach 1] (\<lambda>_. \<lparr>nxt = 0, prv = 0, chd = 0\<rparr>) = Some h' \<and> items h' 1 [4, 3]"
proof -
  have "items (\<lambda>_. \<lparr>nxt = 0, prv = 0, chd = 0\<rparr>) 1 []" by (simp add: items_def hd0_def)
  from child_chain_refines_list [OF this, of "[Append 2, Append 3, Insert 0 4, Detach 1]"] show ?thesis by simp
qed

text \<open>
  C40: \<open>cJSON_InsertItemInArray\<close> does not test its item: inserting \<open>NULL\<close> before an existing item follows a
  \<open>NULL\<close> pointer, while appending and replacing with \<open>NULL\<close> report failure and change nothing.
\<close>

theorem cJSON_InsertItemInArray_NULL:
  assumes "items h a xs" and "i < length xs"
  shows "cJSON_InsertItemInArray a (int i) 0 h = None \<and> ptr_add_item_to_array a 0 h = Some (False, h) \<and>
    cJSON_ReplaceItemInArray a (int i) 0 h = Some (False, h)"
proof -
  have "xs ! i \<in> set xs" "0 \<notin> set xs" using assms by (simp_all add: items_def)
  then have "xs ! i \<noteq> 0" by metis
  then show ?thesis
    using get_array_item_items [OF assms(1), of i] assms(2)
    by (simp add: cJSON_InsertItemInArray_def cJSON_ReplaceItemInArray_def cJSON_ReplaceItemViaPointer_def
        ptr_add_item_to_array_def put_field_def)
qed

theorem cJSON_InsertItemInArray_NULL_witness:
  "cJSON_InsertItemInArray 1 0 0 (\<lambda>p. if p = 1 then \<lparr>nxt = 0, prv = 0, chd = 2\<rparr> else \<lparr>nxt = 0, prv = 0, chd = 0\<rparr>) = None"
proof -
  have "items (\<lambda>p. if p = 1 then \<lparr>nxt = 0, prv = 0, chd = 2\<rparr> else \<lparr>nxt = 0, prv = 0, chd = 0\<rparr>) 1 [2]"
    by (simp add: items_def hd0_def)
  from cJSON_InsertItemInArray_NULL [OF this, of 0] show ?thesis by simp
qed

section \<open>Termination of the walks\<close>

text \<open>The struct that \<open>n\<close> steps along \<open>next\<close> lead to; \<open>NULL\<close> stays \<open>NULL\<close>.\<close>

definition follow :: "heap \<Rightarrow> nat \<Rightarrow> nat \<Rightarrow> nat" where
  "follow h n p = ((\<lambda>p. if p = 0 then 0 else nxt (h p)) ^^ n) p"

lemma follow_simps: "follow h 0 p = p" "follow h (Suc n) p = (if p = 0 then follow h n 0 else follow h n (nxt (h p)))"
  "follow h (Suc n) p = (if follow h n p = 0 then 0 else nxt (h (follow h n p)))"
proof -
  show "follow h (Suc n) p = (if p = 0 then follow h n 0 else follow h n (nxt (h p)))"
    by (simp add: follow_def funpow_Suc_right del: funpow.simps)
qed (simp_all add: follow_def)

lemma follow_NULL: "follow h n 0 = 0"
  by (induction n) (simp_all add: follow_simps)

lemma last_item_ends: "follow h n p = q \<Longrightarrow> q \<noteq> 0 \<Longrightarrow> nxt (h q) = 0 \<Longrightarrow> last_item h p = Some q"
proof (induction n arbitrary: p)
  case 0
  then show ?case by (subst last_item.simps) (simp add: get_field_def follow_simps)
next
  case (Suc n)
  then have "p \<noteq> 0" "nxt (h p) \<noteq> 0" by (auto simp: follow_simps(2) follow_NULL intro: gr0I split: if_splits)
  then show ?case using Suc by (subst last_item.simps) (simp add: get_field_def follow_simps(2))
qed

lemma last_item_found:
  assumes "last_item h p = Some q"
  shows "p \<noteq> 0 \<and> (\<exists>n. follow h n p = 0)"
proof (rule last_item.raw_induct [of "\<lambda>h p q. p \<noteq> 0 \<and> (\<exists>n. follow h n p = 0)", OF _ assms])
  fix walk h p q
  assume IH: "\<And>h p q. walk h p = Some q \<Longrightarrow> p \<noteq> 0 \<and> (\<exists>n. follow h n p = 0)"
    and run: "get_field nxt p h \<bind> (\<lambda>n. if n \<noteq> 0 then walk h n else Some p) = Some q"
  have p: "p \<noteq> 0" using run by (cases "p = 0") (auto simp: get_field_def)
  moreover have "follow h 1 p = 0" if "nxt (h p) = 0" using that p by (simp add: follow_simps(3) follow_simps(1))
  moreover have "\<exists>n. follow h (Suc n) p = 0" if "nxt (h p) \<noteq> 0"
    using run IH [of h "nxt (h p)"] that p by (auto simp: get_field_def follow_simps(2))
  ultimately show "p \<noteq> 0 \<and> (\<exists>n. follow h n p = 0)" by blast
qed

lemma item_at_returns: "\<exists>q. item_at h p i = Some q"
proof (induction i arbitrary: p)
  case 0
  then show ?case by (subst item_at.simps) simp
next
  case (Suc i)
  then show ?case by (subst item_at.simps) (auto simp: get_field_def)
qed

text \<open>
  C24: the loops along \<open>next\<close>. The walk to an index returns on every heap. The walk to the last item, which
  appending needs where \<open>prev\<close> of the first item is not set, returns if and only if following \<open>next\<close> from
  the first item comes to \<open>NULL\<close>, and then ends at the item before it; on a circular chain it runs forever.
\<close>

theorem chain_walks_terminate:
  "(\<exists>q. item_at h p i = Some q)
   \<and> ((\<exists>q. last_item h p = Some q) \<longleftrightarrow> p \<noteq> 0 \<and> (\<exists>n. follow h n p = 0))
   \<and> (p \<noteq> 0 \<longrightarrow> follow h (Suc n) p = 0 \<longrightarrow> follow h n p \<noteq> 0 \<longrightarrow> last_item h p = Some (follow h n p))"
proof (intro conjI impI iffI)
  assume p: "p \<noteq> 0 \<and> (\<exists>n. follow h n p = 0)"
  define n where "n = (LEAST n. follow h n p = 0)"
  have n: "follow h n p = 0" unfolding n_def using p by (auto intro: LeastI)
  then obtain m where m: "n = Suc m" using p by (cases n) (auto simp: follow_simps(1))
  then have "follow h m p \<noteq> 0" using not_less_Least [of m "\<lambda>n. follow h n p = 0"] by (simp add: n_def)
  moreover from this have "nxt (h (follow h m p)) = 0" using n by (simp add: m follow_simps(3))
  ultimately show "\<exists>q. last_item h p = Some q" using last_item_ends by blast
next
  assume "follow h (Suc n) p = 0" "follow h n p \<noteq> 0"
  then show "last_item h p = Some (follow h n p)" by (intro last_item_ends) (simp_all add: follow_simps(3))
qed (auto simp: item_at_returns dest: last_item_found)

definition heap_loop :: heap where
  "heap_loop = (\<lambda>_. \<lparr>nxt = 0, prv = 0, chd = 0\<rparr>)(1 := \<lparr>nxt = 2, prv = 0, chd = 0\<rparr>, 2 := \<lparr>nxt = 3, prv = 1, chd = 0\<rparr>, 4 := \<lparr>nxt = 4, prv = 0, chd = 0\<rparr>)"

theorem chain_walks_terminate_witness: "last_item heap_loop 1 = Some 3 \<and> last_item heap_loop 4 = None"
proof
  have walk: "follow heap_loop 2 1 = 3" "follow heap_loop 3 1 = 0" by (simp_all add: follow_def heap_loop_def numeral_eq_Suc)
  then show "last_item heap_loop 1 = Some 3"
    using chain_walks_terminate [of heap_loop 1 0 2] by (simp add: numeral_eq_Suc)
  have "follow heap_loop n 4 = 4" for n by (induction n) (simp_all add: follow_simps(1,3) heap_loop_def)
  then show "last_item heap_loop 4 = None"
    using chain_walks_terminate [of heap_loop 4 0 0] by (cases "last_item heap_loop 4") simp_all
qed

end
