(* ===== verification/Services.thy ===== *)
theory Services
  imports C_String
begin

text \<open>
  The code outside the repository that the CGI programs call: the MySQL client library, hiredis, the
  C library's clock, random numbers and files, and the FastDFS command line tools. It is a record of
  functions over an arbitrary state \<open>'e\<close> of the outside world, a parameter of every definition that uses
  it. Nothing is assumed about these functions here; what a property relies on is a hypothesis of that
  property.
\<close>

section \<open>Values that cross the interface\<close>

text \<open>A reply of hiredis; a reply pointer that may be \<open>NULL\<close> is an option of it.\<close>

datatype redisReply =
    REPLY_STRING string
  | REPLY_ARRAY "redisReply list"
  | REPLY_INTEGER int
  | REPLY_NIL
  | REPLY_STATUS string
  | REPLY_ERROR string

text \<open>The fields \<open>integer\<close> and \<open>str\<close> of a reply; \<open>str\<close> is \<open>NULL\<close> where the type has no text.\<close>

fun reply_integer :: "redisReply \<Rightarrow> int" where
  "reply_integer (REPLY_INTEGER i) = i"
| "reply_integer _ = 0"

fun reply_str :: "redisReply \<Rightarrow> string option" where
  "reply_str (REPLY_STRING s) = Some s"
| "reply_str (REPLY_STATUS s) = Some s"
| "reply_str (REPLY_ERROR s) = Some s"
| "reply_str _ = None"

text \<open>What a connection attempt gives: no context, a context with an error, a usable context.\<close>

datatype connected = No_Context | Context_Err | Connected

text \<open>
  The outcome of \<open>mysql_query\<close>: an error, or success with what \<open>mysql_store_result\<close> returns afterwards,
  \<open>NULL\<close> or the rows. A column of a row may be \<open>NULL\<close>.
\<close>

type_synonym row = "string option list"

datatype qresult = Q_Err | Q_Ok "row list option"

text \<open>\<open>struct tm\<close>.\<close>

record tm =
  tm_year :: int
  tm_mon :: int
  tm_mday :: int
  tm_hour :: int
  tm_min :: int
  tm_sec :: int

text \<open>
  Running a program with its standard output connected to a pipe and reading from the pipe: \<open>pipe\<close>
  failed, \<open>fork\<close> failed, or the bytes of the first \<open>read\<close>.
\<close>

datatype piped = Pipe_Err | Fork_Err | Pipe_Read string

section \<open>The interface\<close>

record 'e services =
  mysql_init :: "'e \<Rightarrow> bool \<times> 'e"
  mysql_real_connect :: "string \<Rightarrow> string \<Rightarrow> string \<Rightarrow> 'e \<Rightarrow> bool \<times> 'e"
  mysql_query :: "string \<Rightarrow> 'e \<Rightarrow> qresult \<times> 'e"
  mysql_close :: "'e \<Rightarrow> 'e"
  redisConnect :: "string \<Rightarrow> int \<Rightarrow> 'e \<Rightarrow> connected \<times> 'e"
  redisConnectWithTimeout :: "string \<Rightarrow> int \<Rightarrow> int \<Rightarrow> 'e \<Rightarrow> connected \<times> 'e"
  redisConnectUnix :: "string \<Rightarrow> 'e \<Rightarrow> connected \<times> 'e"
  redisFree :: "'e \<Rightarrow> 'e"
  redisCommand :: "string list \<Rightarrow> 'e \<Rightarrow> redisReply option \<times> 'e"
  redisCommandText :: "string \<Rightarrow> 'e \<Rightarrow> (redisReply option \<times> 'e) option"
  redisAppendCommand :: "string list \<Rightarrow> 'e \<Rightarrow> bool \<times> 'e"
  redisAppendText :: "string \<Rightarrow> 'e \<Rightarrow> (bool \<times> 'e) option"
  redisGetReply :: "'e \<Rightarrow> redisReply option \<times> 'e"
  read_file :: "string \<Rightarrow> 'e \<Rightarrow> string option"
  write_file :: "string \<Rightarrow> string \<Rightarrow> 'e \<Rightarrow> bool \<times> 'e"
  unlink_file :: "string \<Rightarrow> 'e \<Rightarrow> 'e"
  localtime :: "'e \<Rightarrow> tm \<times> 'e"
  c_srand :: "'e \<Rightarrow> 'e"
  c_rand :: "'e \<Rightarrow> nat \<times> 'e"
  c_system :: "string \<Rightarrow> 'e \<Rightarrow> int \<times> 'e"
  run_piped :: "string list \<Rightarrow> nat \<Rightarrow> 'e \<Rightarrow> piped \<times> 'e"

text \<open>
  A command given to hiredis as a format with \<open>%s\<close>, \<open>%d\<close>, \<open>%u\<close> or \<open>%ld\<close> directives is the list of its
  arguments: hiredis splits the format at blanks, not the values put into it. A caller's text used as the
  format is passed on as such (\<open>redisCommandText\<close>, \<open>redisAppendText\<close>); there \<^const>\<open>None\<close> stands for a
  directive in the text that fetches an argument that was not passed.
\<close>

section \<open>The clock\<close>

text \<open>
  \<open>strftime\<close> with the format \<open>%Y-%m-%d %H:%M:%S\<close> into an array of \<open>n\<close> bytes; the array is indeterminate if
  the text does not fit.
\<close>

definition pad2 :: "int \<Rightarrow> string" where
  "pad2 i = (if 0 \<le> i \<and> i < 10 then CHR ''0'' # show_int i else show_int i)"

definition time_text :: "tm \<Rightarrow> string" where
  "time_text t =
     show_int (tm_year t + 1900) @ ''-'' @ pad2 (tm_mon t + 1) @ ''-'' @ pad2 (tm_mday t) @ '' ''
       @ pad2 (tm_hour t) @ '':'' @ pad2 (tm_min t) @ '':'' @ pad2 (tm_sec t)"

definition strftime :: "nat \<Rightarrow> tm \<Rightarrow> string option" where
  "strftime n t = store n (time_text t)"

text \<open>The broken-down times of the years 0 to 9999.\<close>

definition valid_tm :: "tm \<Rightarrow> bool" where
  "valid_tm t \<longleftrightarrow> tm_year t \<in> {- 1900..8099} \<and> tm_mon t \<in> {0..11} \<and> tm_mday t \<in> {1..31} \<and> tm_hour t \<in> {0..23}
     \<and> tm_min t \<in> {0..59} \<and> tm_sec t \<in> {0..60}"

lemma show_int_small: "0 \<le> i \<Longrightarrow> i < 10 ^ k \<Longrightarrow> 0 < k \<Longrightarrow> length (show_int i) \<le> k"
  using show_nat_length [of "nat i" k] by (simp add: show_int_def nat_less_iff)

lemma length_pad2: "0 \<le> i \<Longrightarrow> i < 100 \<Longrightarrow> length (pad2 i) \<le> 2"
  using show_int_small [of i 1] show_int_small [of i 2] by (auto simp: pad2_def)

lemma length_time_text: "valid_tm t \<Longrightarrow> length (time_text t) \<le> 19"
  using show_int_small [of "tm_year t + 1900" 4] length_pad2 [of "tm_mon t + 1"] length_pad2 [of "tm_mday t"]
    length_pad2 [of "tm_hour t"] length_pad2 [of "tm_min t"] length_pad2 [of "tm_sec t"]
  by (simp add: valid_tm_def time_text_def)

lemma show_int_set: "c \<in> set (show_int i) \<Longrightarrow> c_isdigit c \<or> c = CHR ''-''"
  by (auto simp: show_int_def dest: show_nat_digits split: if_splits)

lemma pad2_set: "c \<in> set (pad2 i) \<Longrightarrow> c_isdigit c \<or> c = CHR ''-''"
  by (auto simp: pad2_def c_isdigit_def dest!: show_int_set split: if_splits)

lemma time_text_set: "c \<in> set (time_text t) \<Longrightarrow> c_isdigit c \<or> c \<in> {CHR ''-'', CHR '' '', CHR '':''}"
  by (auto simp: time_text_def dest!: show_int_set pad2_set)

section \<open>Computations that return\<close>

text \<open>\<open>m\<close> runs without undefined behaviour and its result satisfies \<open>Q\<close>.\<close>

definition returns :: "'a option \<Rightarrow> ('a \<Rightarrow> bool) \<Rightarrow> bool" where
  "returns m Q = (case m of None \<Rightarrow> False | Some x \<Rightarrow> Q x)"

lemma returns_Some [simp, wp_rules]: "returns (Some x) Q = Q x"
  by (simp add: returns_def)

lemma returns_None [simp]: "\<not> returns None Q"
  by (simp add: returns_def)

lemma returns_bind [wp_rules]: "returns (Option.bind m f) Q = returns m (\<lambda>x. returns (f x) Q)"
  by (cases m) simp_all

lemma returns_if [wp_rules]: "returns (if b then m else m') Q = ((b \<longrightarrow> returns m Q) \<and> (\<not> b \<longrightarrow> returns m' Q))"
  by simp

lemma returns_store [wp_rules]: "returns (store n s) Q \<longleftrightarrow> length s < n \<and> Q s"
  by (simp add: store_def)

lemma returns_mono: "returns m P \<Longrightarrow> (\<And>x. P x \<Longrightarrow> Q x) \<Longrightarrow> returns m Q"
  by (cases m) simp_all

lemma returns_iff: "returns m Q \<longleftrightarrow> (\<exists>x. m = Some x \<and> Q x)"
  by (cases m) simp_all

end
