(* ===== verification/Redis_Op.thy ===== *)
theory Redis_Op
  imports Services
begin

text \<open>
  The Redis access functions of \<open>src/src/common/redis_op.c\<close>, one definition each, over the hiredis
  functions of \<^typ>\<open>'e services\<close>. A null reply that is dereferenced, a text compared that is \<open>NULL\<close>
  and a write past a buffer of the caller are undefined behaviour (\<^const>\<open>None\<close>). Log messages are
  left out; text printed to standard output, which under FastCGI is the response, is a result.
\<close>

section \<open>Constants and conversions\<close>

definition REDIS_COMMAND_SIZE :: nat where "REDIS_COMMAND_SIZE = 300"
definition FIELD_ID_SIZE :: nat where "FIELD_ID_SIZE = 100"
definition VALUES_ID_SIZE :: nat where "VALUES_ID_SIZE = 1024"

definition FILE_PUBLIC_ZSET :: string where "FILE_PUBLIC_ZSET = ''FILE_PUBLIC_ZSET''"
definition FILE_NAME_HASH :: string where "FILE_NAME_HASH = ''FILE_NAME_HASH''"

section \<open>The database as a whole, keys\<close>

definition rop_selectdatabase :: "'e services \<Rightarrow> u32 \<Rightarrow> 'e \<Rightarrow> int \<times> string \<times> 'e" where
  "rop_selectdatabase sv db_no e =
     (let (reply, e) = redisCommand sv [''select'', show_int (sint db_no)] e
      in case reply of
           None \<Rightarrow> (- 1, [], e)
         | Some _ \<Rightarrow> (0, ''[+][GMS_REDIS]Select database '' @ show_int (sint db_no) @ '' SUCCESS!'' @ newline, e))"

definition rop_flush_database :: "'e services \<Rightarrow> 'e \<Rightarrow> int \<times> string \<times> 'e" where
  "rop_flush_database sv e =
     (let (reply, e) = redisCommand sv [''FLUSHDB''] e
      in case reply of
           None \<Rightarrow> (- 1, [], e)
         | Some _ \<Rightarrow> (0, ''[+][GMS_REDIS]Clear all data!!'' @ newline, e))"

definition rop_is_key_exist :: "'e services \<Rightarrow> string \<Rightarrow> 'e \<Rightarrow> (int \<times> 'e) option" where
  "rop_is_key_exist sv key e =
     (let (reply, e) = redisCommand sv [''EXISTS'', key] e
      in case reply of
           None \<Rightarrow> None
         | Some (REPLY_INTEGER i) \<Rightarrow> Some (if i = 1 then 1 else 0, e)
         | Some _ \<Rightarrow> Some (- 1, e))"

definition rop_del_key :: "'e services \<Rightarrow> string \<Rightarrow> 'e \<Rightarrow> (int \<times> 'e) option" where
  "rop_del_key sv key e =
     (let (reply, e) = redisCommand sv [''DEL'', key] e
      in case reply of
           None \<Rightarrow> None
         | Some (REPLY_INTEGER i) \<Rightarrow> Some (if i > 0 then 0 else - 1, e)
         | Some _ \<Rightarrow> Some (- 1, e))"

text \<open>
  The type test of \<open>rop_set_key_lifecycle\<close> has no effect: the test of the integer behind it sets the
  result again, and \<open>integer\<close> is 0 in a reply of another type. Its \<open>%d\<close> takes the low half of the
  \<open>time_t\<close>.
\<close>

definition rop_set_key_lifecycle :: "'e services \<Rightarrow> string \<Rightarrow> int \<Rightarrow> 'e \<Rightarrow> (int \<times> 'e) option" where
  "rop_set_key_lifecycle sv key delete_time e =
     (let (reply, e) = redisCommand sv [''EXPIREAT'', key, show_int (to_int delete_time)] e
      in case reply of
           None \<Rightarrow> None
         | Some reply \<Rightarrow> Some (if reply_integer reply = 1 then 0 else - 1, e))"

definition show_key :: "redisReply \<Rightarrow> string option" where
  "show_key element = do {
     str \<leftarrow> reply_str element;
     Some (''======['' @ c_str str @ '']======'' @ newline)
   }"

definition rop_show_keys :: "'e services \<Rightarrow> string \<Rightarrow> 'e \<Rightarrow> (string \<times> 'e) option" where
  "rop_show_keys sv pattern e =
     (let (reply, e) = redisCommand sv [''keys'', pattern] e
      in case reply of
           None \<Rightarrow> None
         | Some (REPLY_ARRAY elements) \<Rightarrow> map_option (\<lambda>ls. (concat ls, e)) (those (map show_key elements))
         | Some _ \<Rightarrow> Some ([], e))"

section \<open>Commands given as text, pipelines\<close>

definition rop_redis_command :: "'e services \<Rightarrow> string \<Rightarrow> 'e \<Rightarrow> (int \<times> 'e) option" where
  "rop_redis_command sv cmd e = do {
     (reply, e) \<leftarrow> redisCommandText sv cmd e;
     Some (case reply of None \<Rightarrow> - 1 | Some _ \<Rightarrow> 0, e)
   }"

text \<open>
  The two loops of the functions that queue several commands and then fetch their replies. \<open>issue\<close> queues
  one of them. \<open>redisGetReply\<close> leaves \<open>reply\<close> as it is when it fails; the failure branch frees it, which
  is a second \<open>free\<close> of the reply of the round before, if there was one.
\<close>

fun append_loop :: "('c \<Rightarrow> 'e \<Rightarrow> (bool \<times> 'e) option) \<Rightarrow> 'c list \<Rightarrow> 'e \<Rightarrow> (int \<times> 'e) option" where
  "append_loop issue [] e = Some (0, e)"
| "append_loop issue (c # cs) e = do {
     (ok, e) \<leftarrow> issue c e;
     if \<not> ok then Some (- 1, e) else append_loop issue cs e
   }"

fun commit_loop :: "'e services \<Rightarrow> bool \<Rightarrow> nat \<Rightarrow> 'e \<Rightarrow> (int \<times> 'e) option" where
  "commit_loop sv freed 0 e = Some (0, e)"
| "commit_loop sv freed (Suc n) e =
     (let (reply, e) = redisGetReply sv e
      in case reply of
           None \<Rightarrow> if freed then None else Some (- 1, e)
         | Some _ \<Rightarrow> commit_loop sv True n e)"

definition pipeline :: "'e services \<Rightarrow> ('c \<Rightarrow> 'e \<Rightarrow> (bool \<times> 'e) option) \<Rightarrow> 'c list \<Rightarrow> int \<Rightarrow> 'e \<Rightarrow> (int \<times> 'e) option" where
  "pipeline sv issue cmds num e =
     (if num > int (length cmds) then None
      else do {
        let cmds = take (nat num) cmds;
        (retn, e) \<leftarrow> append_loop issue cmds e;
        if retn \<noteq> 0 then Some (retn, e) else commit_loop sv False (length cmds) e
      })"

definition rop_redis_append :: "'e services \<Rightarrow> string list \<Rightarrow> int \<Rightarrow> 'e \<Rightarrow> (int \<times> 'e) option" where
  "rop_redis_append sv cmds cmd_num e = pipeline sv (redisAppendText sv) cmds cmd_num e"

text \<open>The message that \<open>rop_test_reply_type\<close> logs for a reply.\<close>

definition rop_test_reply_type :: "redisReply option \<Rightarrow> string option" where
  "rop_test_reply_type reply = (case reply of
       None \<Rightarrow> None
     | Some (REPLY_STATUS _) \<Rightarrow> Some (''[+][GMS_REDIS]=REDIS_REPLY_STATUS=[string] use reply->str to get data, reply->len get data len'' @ newline)
     | Some (REPLY_ERROR _) \<Rightarrow> Some (''[+][GMS_REDIS]=REDIS_REPLY_ERROR=[string] use reply->str to get data, reply->len get date len'' @ newline)
     | Some (REPLY_INTEGER _) \<Rightarrow> Some (''[+][GMS_REDIS]=REDIS_REPLY_INTEGER=[long long] use reply->integer to get data'' @ newline)
     | Some REPLY_NIL \<Rightarrow> Some (''[+][GMS_REDIS]=REDIS_REPLY_NIL=[] data not exist'' @ newline)
     | Some (REPLY_ARRAY _) \<Rightarrow> Some (''[+][GMS_REDIS]=REDIS_REPLY_ARRAY=[array] use reply->elements to get number of data, reply->element[index] to get (struct redisReply*) Object'' @ newline)
     | Some (REPLY_STRING _) \<Rightarrow> Some (''[+][GMS_REDIS]=REDIS_REPLY_string=[string] use reply->str to get data, reply->len get data len'' @ newline))"

section \<open>Connections\<close>

text \<open>The result is whether there is a connection; \<open>uint16_t port = atoi(port_str)\<close>.\<close>

definition port_of :: "string \<Rightarrow> int option" where
  "port_of port_str = map_option (\<lambda>i. uint (of_int i :: 16 word)) (c_atoi port_str)"

definition opened :: "'e services \<Rightarrow> connected \<times> 'e \<Rightarrow> bool \<times> 'e" where
  "opened sv c = (case c of
       (No_Context, e) \<Rightarrow> (False, e)
     | (Context_Err, e) \<Rightarrow> (False, redisFree sv e)
     | (Connected, e) \<Rightarrow> (True, e))"

definition rop_connectdb_nopwd :: "'e services \<Rightarrow> string \<Rightarrow> string \<Rightarrow> 'e \<Rightarrow> (bool \<times> 'e) option" where
  "rop_connectdb_nopwd sv ip_str port_str e = do {
     port \<leftarrow> port_of port_str;
     Some (opened sv (redisConnect sv ip_str port e))
   }"

text \<open>A failed \<open>auth\<close> loses the connection without closing it; a refused password goes unnoticed.\<close>

definition authenticate :: "'e services \<Rightarrow> string \<Rightarrow> 'e \<Rightarrow> (bool \<times> 'e) option" where
  "authenticate sv pwd e = do {
     auth_cmd \<leftarrow> store REDIS_COMMAND_SIZE (''auth '' @ pwd);
     (reply, e) \<leftarrow> redisCommandText sv auth_cmd e;
     Some (reply \<noteq> None, e)
   }"

definition rop_connectdb :: "'e services \<Rightarrow> string \<Rightarrow> string \<Rightarrow> string \<Rightarrow> 'e \<Rightarrow> (bool \<times> 'e) option" where
  "rop_connectdb sv ip_str port_str pwd e = do {
     port \<leftarrow> port_of port_str;
     let (conn, e) = opened sv (redisConnect sv ip_str port e);
     if \<not> conn then Some (False, e) else authenticate sv pwd e
   }"

definition rop_connectdb_unix :: "'e services \<Rightarrow> string \<Rightarrow> string \<Rightarrow> 'e \<Rightarrow> (bool \<times> 'e) option" where
  "rop_connectdb_unix sv sock_path pwd e = do {
     let (conn, e) = opened sv (redisConnectUnix sv sock_path e);
     if \<not> conn then Some (False, e) else authenticate sv pwd e
   }"

definition rop_connectdb_timeout :: "'e services \<Rightarrow> string \<Rightarrow> string \<Rightarrow> int \<Rightarrow> 'e \<Rightarrow> (bool \<times> 'e) option" where
  "rop_connectdb_timeout sv ip_str port_str timeout e = do {
     port \<leftarrow> port_of port_str;
     Some (opened sv (redisConnectWithTimeout sv ip_str port timeout e))
   }"

definition rop_disconnect :: "'e services \<Rightarrow> bool \<Rightarrow> 'e \<Rightarrow> 'e" where
  "rop_disconnect sv conn e = (if conn then redisFree sv e else e)"

section \<open>Hashes\<close>

text \<open>
  \<open>make_hmset_command\<close> appends to a buffer of \<open>cap\<close> bytes and reallocates it afterwards if its count of used
  bytes, which takes 200 for the key whatever its length, has reached \<open>buf_size\<close>. \<open>mem\<close> says which
  allocations succeed; the inner option is the returned pointer.
\<close>

record hmset_buffer =
  hm_cmd :: string
  hm_cap :: nat
  hm_buf_size :: nat
  hm_use_size :: nat

definition hmset_add :: "(nat \<Rightarrow> bool) \<Rightarrow> nat \<Rightarrow> string \<Rightarrow> hmset_buffer \<Rightarrow> hmset_buffer option option" where
  "hmset_add mem n s b =
     (let cmd = hm_cmd b @ take n s; use_size = (hm_use_size b + length s) mod 2 ^ 32
      in if length cmd \<ge> hm_cap b then None
         else if use_size \<ge> hm_buf_size b then
           (if mem ((use_size + 1024 * 1024) mod 2 ^ 32)
            then Some (Some \<lparr>hm_cmd = cmd, hm_cap = (use_size + 1024 * 1024) mod 2 ^ 32,
                             hm_buf_size = (hm_buf_size b + 1024 * 1024) mod 2 ^ 32, hm_use_size = use_size\<rparr>)
            else Some None)
         else Some (Some (b \<lparr>hm_cmd := cmd, hm_use_size := use_size\<rparr>)))"

fun hmset_adds :: "(nat \<Rightarrow> bool) \<Rightarrow> (nat \<times> string) list \<Rightarrow> hmset_buffer \<Rightarrow> hmset_buffer option option" where
  "hmset_adds mem [] b = Some (Some b)"
| "hmset_adds mem ((n, s) # adds) b = do {
     r \<leftarrow> hmset_add mem n s b;
     (case r of None \<Rightarrow> Some None | Some b \<Rightarrow> hmset_adds mem adds b)
   }"

definition make_hmset_command :: "(nat \<Rightarrow> bool) \<Rightarrow> string \<Rightarrow> (string \<times> string) list \<Rightarrow> string option option" where
  "make_hmset_command mem key elements =
     (if \<not> mem (1024 * 1024) then Some None
      else let b = \<lparr>hm_cmd = ''hmset '' @ take 200 key, hm_cap = 1024 * 1024,
                    hm_buf_size = 1024 * 1024, hm_use_size = 206\<rparr>
           in map_option (map_option hm_cmd)
                (hmset_adds mem
                   (concat (map (\<lambda>(field, value). [(1, '' ''), (FIELD_ID_SIZE, field), (1, '' ''), (VALUES_ID_SIZE, value)]) elements)) b))"

definition rop_hash_set_append ::
    "'e services \<Rightarrow> string \<Rightarrow> (string \<times> string) list \<Rightarrow> int \<Rightarrow> 'e \<Rightarrow> (int \<times> 'e) option" where
  "rop_hash_set_append sv key elements val_num e =
     pipeline sv (\<lambda>(field, value) e. Some (redisAppendCommand sv [''hset'', key, field, value] e)) elements val_num e"

definition rop_hash_set :: "'e services \<Rightarrow> string \<Rightarrow> string \<Rightarrow> string \<Rightarrow> 'e \<Rightarrow> int \<times> 'e" where
  "rop_hash_set sv key field value e =
     (let (reply, e) = redisCommand sv [''hset'', key, field, value] e
      in (case reply of Some (REPLY_INTEGER _) \<Rightarrow> 0 | _ \<Rightarrow> - 1, e))"

text \<open>\<open>n\<close> is the size of the caller's array \<open>value\<close>.\<close>

definition rop_hash_get :: "'e services \<Rightarrow> string \<Rightarrow> string \<Rightarrow> nat \<Rightarrow> string \<Rightarrow> 'e \<Rightarrow> (int \<times> string \<times> 'e) option" where
  "rop_hash_get sv key field n value e =
     (let (reply, e) = redisCommand sv [''hget'', key, field] e
      in case reply of
           Some (REPLY_STRING str) \<Rightarrow> do {
             value \<leftarrow> store n (take VALUES_ID_SIZE str);
             Some (0, c_str value, e)
           }
         | _ \<Rightarrow> Some (- 1, value, e))"

definition rop_hash_del :: "'e services \<Rightarrow> string \<Rightarrow> string \<Rightarrow> 'e \<Rightarrow> (int \<times> 'e) option" where
  "rop_hash_del sv key field e =
     (let (reply, e) = redisCommand sv [''hdel'', key, field] e
      in case reply of
           None \<Rightarrow> None
         | Some reply \<Rightarrow> Some (if reply_integer reply \<noteq> 1 then - 1 else 0, e))"

text \<open>\<open>strcmp(reply->str, "OK")\<close>, with a null reply or a reply without text dereferenced.\<close>

definition reply_ok :: "redisReply option \<Rightarrow> bool option" where
  "reply_ok reply = do {
     reply \<leftarrow> reply;
     str \<leftarrow> reply_str reply;
     Some (c_str str = ''OK'')
   }"

definition rop_create_or_replace_hash_table ::
    "'e services \<Rightarrow> (nat \<Rightarrow> bool) \<Rightarrow> string \<Rightarrow> (string \<times> string) list \<Rightarrow> 'e \<Rightarrow> (int \<times> 'e) option" where
  "rop_create_or_replace_hash_table sv mem key elements e = do {
     cmd \<leftarrow> make_hmset_command mem key elements;
     (case cmd of
        None \<Rightarrow> Some (- 1, e)
      | Some cmd \<Rightarrow> do {
          (reply, e) \<leftarrow> redisCommandText sv cmd e;
          ok \<leftarrow> reply_ok reply;
          Some (if \<not> ok then - 1 else 0, e)
        })
   }"

definition rop_hincrement_one_field :: "'e services \<Rightarrow> string \<Rightarrow> string \<Rightarrow> u32 \<Rightarrow> 'e \<Rightarrow> int \<times> 'e" where
  "rop_hincrement_one_field sv key field num e =
     (let (reply, e) = redisCommand sv [''HINCRBY'', key, field, show_int (sint num)] e
      in (case reply of None \<Rightarrow> - 1 | Some _ \<Rightarrow> 0, e))"

section \<open>Lists\<close>

definition rop_list_push_append :: "'e services \<Rightarrow> string \<Rightarrow> string list \<Rightarrow> int \<Rightarrow> 'e \<Rightarrow> (int \<times> 'e) option" where
  "rop_list_push_append sv key values val_num e =
     pipeline sv (\<lambda>value e. Some (redisAppendCommand sv [''lpush'', key, value] e)) values val_num e"

definition rop_list_push :: "'e services \<Rightarrow> string \<Rightarrow> string \<Rightarrow> 'e \<Rightarrow> (int \<times> 'e) option" where
  "rop_list_push sv key value e =
     (let (reply, e) = redisCommand sv [''LPUSH'', key, value] e
      in case reply of
           None \<Rightarrow> None
         | Some (REPLY_INTEGER _) \<Rightarrow> Some (0, e)
         | Some _ \<Rightarrow> Some (- 1, e))"

definition rop_get_list_cnt :: "'e services \<Rightarrow> string \<Rightarrow> 'e \<Rightarrow> (int \<times> 'e) option" where
  "rop_get_list_cnt sv key e =
     (let (reply, e) = redisCommand sv [''LLEN'', key] e
      in case reply of
           None \<Rightarrow> None
         | Some (REPLY_INTEGER i) \<Rightarrow> Some (to_int i, e)
         | Some _ \<Rightarrow> Some (- 1, e))"

definition rop_trim_list :: "'e services \<Rightarrow> string \<Rightarrow> int \<Rightarrow> int \<Rightarrow> 'e \<Rightarrow> (int \<times> 'e) option" where
  "rop_trim_list sv key from_pos end_pos e =
     (let (reply, e) = redisCommand sv [''LTRIM'', key, show_int from_pos, show_int end_pos] e
      in case reply of
           None \<Rightarrow> None
         | Some (REPLY_STATUS _) \<Rightarrow> Some (0, e)
         | Some _ \<Rightarrow> Some (- 1, e))"

text \<open>
  The rows of an \<open>RVALUES\<close> array, each of \<open>VALUES_ID_SIZE\<close> bytes. \<open>strncpy\<close> fills the first 1023 with the
  text and zeros; whether the last byte is set to zero as well is the parameter \<open>term\<close>.
\<close>

definition copy_row :: "bool \<Rightarrow> string \<Rightarrow> string \<Rightarrow> string" where
  "copy_row terminate str old =
     take (VALUES_ID_SIZE - 1) (c_str str @ replicate (VALUES_ID_SIZE - 1) (CHR 0x00))
       @ (if terminate then [CHR 0x00] else drop (VALUES_ID_SIZE - 1) old)"

fun copy_rows :: "bool \<Rightarrow> redisReply list \<Rightarrow> string list \<Rightarrow> string list option" where
  "copy_rows terminate [] rows = Some rows"
| "copy_rows terminate (element # es) [] = None"
| "copy_rows terminate (element # es) (old # rows) = do {
     str \<leftarrow> reply_str element;
     rest \<leftarrow> copy_rows terminate es rows;
     Some (copy_row terminate str old # rest)
   }"

text \<open>
  \<open>int count = end_pos - from_pos + 1\<close> and the comparison of \<open>reply->elements\<close>, a \<open>size_t\<close>, with it: a
  negative count is a huge \<open>size_t\<close>.
\<close>

definition range_count :: "int \<Rightarrow> int \<Rightarrow> int option" where
  "range_count from_pos end_pos =
     (if in_int (end_pos - from_pos) \<and> in_int (end_pos - from_pos + 1) then Some (end_pos - from_pos + 1) else None)"

definition range_max :: "int \<Rightarrow> nat \<Rightarrow> int" where
  "range_max count elements =
     (if elements > unat (of_int count :: u64) then count else to_int (int elements))"

definition rop_range_list ::
    "'e services \<Rightarrow> string \<Rightarrow> int \<Rightarrow> int \<Rightarrow> string list \<Rightarrow> int \<Rightarrow> 'e \<Rightarrow> (int \<times> string list \<times> int \<times> 'e) option" where
  "rop_range_list sv key from_pos end_pos values get_num e = do {
     count \<leftarrow> range_count from_pos end_pos;
     let (reply, e) = redisCommand sv [''LRANGE'', key, show_int from_pos, show_int end_pos] e;
     (case reply of
        None \<Rightarrow> None
      | Some (REPLY_ARRAY elements) \<Rightarrow>
          if elements = [] then Some (- 1, values, get_num, e)
          else do {
            let max_count = range_max count (length elements);
            values \<leftarrow> copy_rows False (take (nat max_count) elements) values;
            Some (0, values, max_count, e)
          }
      | Some _ \<Rightarrow> Some (- 1, values, get_num, e))
   }"

section \<open>Strings\<close>

definition rop_set_string :: "'e services \<Rightarrow> string \<Rightarrow> string \<Rightarrow> 'e \<Rightarrow> (int \<times> 'e) option" where
  "rop_set_string sv key value e = do {
     let (reply, e) = redisCommand sv [''set'', key, value] e;
     ok \<leftarrow> reply_ok reply;
     Some (if \<not> ok then - 1 else 0, e)
   }"

definition rop_setex_string :: "'e services \<Rightarrow> string \<Rightarrow> u32 \<Rightarrow> string \<Rightarrow> 'e \<Rightarrow> (int \<times> 'e) option" where
  "rop_setex_string sv key seconds value e = do {
     let (reply, e) = redisCommand sv [''setex'', key, show_nat (unat seconds), value] e;
     ok \<leftarrow> reply_ok reply;
     Some (if \<not> ok then - 1 else 0, e)
   }"

definition rop_get_string :: "'e services \<Rightarrow> string \<Rightarrow> nat \<Rightarrow> string \<Rightarrow> 'e \<Rightarrow> (int \<times> string \<times> 'e) option" where
  "rop_get_string sv key n value e =
     (let (reply, e) = redisCommand sv [''get'', key] e
      in case reply of
           None \<Rightarrow> None
         | Some (REPLY_STRING str) \<Rightarrow> do {
             value \<leftarrow> store n str;
             Some (0, c_str value, e)
           }
         | Some _ \<Rightarrow> Some (- 1, value, e))"

section \<open>Sorted sets\<close>

definition rop_zset_add :: "'e services \<Rightarrow> string \<Rightarrow> int \<Rightarrow> string \<Rightarrow> 'e \<Rightarrow> (int \<times> 'e) option" where
  "rop_zset_add sv key score member e =
     (let (reply, e) = redisCommand sv [''ZADD'', key, show_int score, member] e
      in case reply of
           None \<Rightarrow> None
         | Some reply \<Rightarrow> Some (if reply_integer reply \<noteq> 1 then - 1 else 0, e))"

definition rop_zset_zrem :: "'e services \<Rightarrow> string \<Rightarrow> string \<Rightarrow> 'e \<Rightarrow> (int \<times> 'e) option" where
  "rop_zset_zrem sv key member e =
     (let (reply, e) = redisCommand sv [''ZREM'', key, member] e
      in case reply of
           None \<Rightarrow> None
         | Some reply \<Rightarrow> Some (if reply_integer reply \<noteq> 1 then - 1 else 0, e))"

definition rop_zset_del_all :: "'e services \<Rightarrow> string \<Rightarrow> 'e \<Rightarrow> (int \<times> 'e) option" where
  "rop_zset_del_all sv key e =
     (let (reply, e) = redisCommand sv [''ZREMRANGEBYRANK'', key, ''0'', ''-1''] e
      in case reply of
           None \<Rightarrow> None
         | Some (REPLY_INTEGER _) \<Rightarrow> Some (0, e)
         | Some _ \<Rightarrow> Some (- 1, e))"

definition rop_zset_zrevrange ::
    "'e services \<Rightarrow> string \<Rightarrow> int \<Rightarrow> int \<Rightarrow> string list \<Rightarrow> int \<Rightarrow> 'e \<Rightarrow> (int \<times> string list \<times> int \<times> 'e) option" where
  "rop_zset_zrevrange sv key from_pos end_pos values get_num e = do {
     count \<leftarrow> range_count from_pos end_pos;
     let (reply, e) = redisCommand sv [''ZREVRANGE'', key, show_int from_pos, show_int end_pos] e;
     (case reply of
        None \<Rightarrow> None
      | Some (REPLY_ARRAY elements) \<Rightarrow> do {
          let max_count = range_max count (length elements);
          values \<leftarrow> copy_rows True (take (nat max_count) elements) values;
          Some (0, values, max_count, e)
        }
      | Some _ \<Rightarrow> Some (- 1, values, get_num, e))
   }"

definition rop_zset_increment :: "'e services \<Rightarrow> string \<Rightarrow> string \<Rightarrow> 'e \<Rightarrow> (int \<times> 'e) option" where
  "rop_zset_increment sv key member e = do {
     let (reply, e) = redisCommand sv [''ZINCRBY'', key, ''1'', member] e;
     ok \<leftarrow> reply_ok reply;
     Some (if \<not> ok then - 1 else 0, e)
   }"

definition rop_zset_zcard :: "'e services \<Rightarrow> string \<Rightarrow> 'e \<Rightarrow> (int \<times> 'e) option" where
  "rop_zset_zcard sv key e =
     (let (reply, e) = redisCommand sv [''ZCARD'', key] e
      in case reply of
           None \<Rightarrow> None
         | Some (REPLY_INTEGER i) \<Rightarrow> Some (to_int i, e)
         | Some _ \<Rightarrow> Some (- 1, e))"

definition rop_zset_get_score :: "'e services \<Rightarrow> string \<Rightarrow> string \<Rightarrow> 'e \<Rightarrow> (int \<times> 'e) option" where
  "rop_zset_get_score sv key member e =
     (let (reply, e) = redisCommand sv [''ZSCORE'', key, member] e
      in do {
        message \<leftarrow> rop_test_reply_type reply;
        (case reply of
           Some (REPLY_STRING str) \<Rightarrow> map_option (\<lambda>score. (score, e)) (c_atoi (c_str str))
         | _ \<Rightarrow> Some (- 1, e))
      })"

definition rop_zset_exit :: "'e services \<Rightarrow> string \<Rightarrow> string \<Rightarrow> 'e \<Rightarrow> (int \<times> 'e) option" where
  "rop_zset_exit sv key member e =
     (let (reply, e) = redisCommand sv [''zlexcount'', key, CHR ''['' # member, CHR ''['' # member] e
      in case reply of
           None \<Rightarrow> None
         | Some (REPLY_INTEGER i) \<Rightarrow> Some (to_int i, e)
         | Some _ \<Rightarrow> Some (- 1, e))"

definition rop_zset_increment_append :: "'e services \<Rightarrow> string \<Rightarrow> string list \<Rightarrow> int \<Rightarrow> 'e \<Rightarrow> (int \<times> 'e) option" where
  "rop_zset_increment_append sv key values val_num e =
     pipeline sv (\<lambda>value e. Some (redisAppendCommand sv [''ZINCRBY'', key, ''1'', value] e)) values val_num e"

end
