(* ===== verification/Redis_Db.thy ===== *)
theory Redis_Db
  imports Redis_Op "HOL-Library.AList" "HOL-Library.List_Lexorder" "HOL-Library.Product_Lexorder" "HOL-Library.Char_ord"
begin

text \<open>
  The Redis commands the CGI programs send, as the Redis documentation describes them, on a map from keys to
  values. \<open>redis_exec\<close> gives the reply and the new map, and \<^const>\<open>None\<close> where the documentation leaves the reply
  open. Expiry is not represented: the map holds the keys that have not expired.
\<close>

datatype rvalue = R_String string | R_Zset "(string \<times> int) list" | R_Hash "(string \<times> string) list"

type_synonym rdb = "string \<rightharpoonup> rvalue"

definition wrong_type :: redisReply where
  "wrong_type = REPLY_ERROR ''WRONGTYPE Operation against a key holding the wrong kind of value''"

text \<open>The members of a sorted set, the fields of a hash; a missing key is an empty one, and an empty one is removed.\<close>

fun zset_of :: "rvalue option \<Rightarrow> (string \<times> int) list option" where
  "zset_of None = Some []"
| "zset_of (Some (R_Zset z)) = Some z"
| "zset_of (Some _) = None"

fun hash_of :: "rvalue option \<Rightarrow> (string \<times> string) list option" where
  "hash_of None = Some []"
| "hash_of (Some (R_Hash h)) = Some h"
| "hash_of (Some _) = None"

definition put_zset :: "string \<Rightarrow> (string \<times> int) list \<Rightarrow> rdb \<Rightarrow> rdb" where
  "put_zset k z db = db(k := (if z = [] then None else Some (R_Zset z)))"

definition put_hash :: "string \<Rightarrow> (string \<times> string) list \<Rightarrow> rdb \<Rightarrow> rdb" where
  "put_hash k h db = db(k := (if h = [] then None else Some (R_Hash h)))"

definition with_zset :: "string \<Rightarrow> rdb \<Rightarrow> ((string \<times> int) list \<Rightarrow> redisReply \<times> rdb) \<Rightarrow> (redisReply \<times> rdb) option" where
  "with_zset k db f = Some (case zset_of (db k) of None \<Rightarrow> (wrong_type, db) | Some z \<Rightarrow> f z)"

definition with_hash :: "string \<Rightarrow> rdb \<Rightarrow> ((string \<times> string) list \<Rightarrow> redisReply \<times> rdb) \<Rightarrow> (redisReply \<times> rdb) option" where
  "with_hash k db f = Some (case hash_of (db k) of None \<Rightarrow> (wrong_type, db) | Some h \<Rightarrow> f h)"

definition new_count :: "bool \<Rightarrow> redisReply" where
  "new_count fresh = REPLY_INTEGER (if fresh then 1 else 0)"

section \<open>Strings and keys\<close>

definition exec_setex :: "string \<Rightarrow> string \<Rightarrow> rdb \<Rightarrow> (redisReply \<times> rdb) option" where
  "exec_setex k v db = Some (REPLY_STATUS ''OK'', db(k \<mapsto> R_String v))"

definition exec_get :: "string \<Rightarrow> rdb \<Rightarrow> (redisReply \<times> rdb) option" where
  "exec_get k db = Some (case db k of None \<Rightarrow> REPLY_NIL | Some (R_String v) \<Rightarrow> REPLY_STRING v | Some _ \<Rightarrow> wrong_type, db)"

definition exec_del :: "string \<Rightarrow> rdb \<Rightarrow> (redisReply \<times> rdb) option" where
  "exec_del k db = Some (new_count (db k \<noteq> None), db(k := None))"

section \<open>Sorted sets\<close>

definition exec_zadd :: "string \<Rightarrow> string \<Rightarrow> string \<Rightarrow> rdb \<Rightarrow> (redisReply \<times> rdb) option" where
  "exec_zadd k score m db =
     with_zset k db (\<lambda>z. (new_count (map_of z m = None), put_zset k (AList.update m (read_int score) z) db))"

definition exec_zrem :: "string \<Rightarrow> string \<Rightarrow> rdb \<Rightarrow> (redisReply \<times> rdb) option" where
  "exec_zrem k m db = with_zset k db (\<lambda>z. (new_count (map_of z m \<noteq> None), put_zset k (AList.delete m z) db))"

definition exec_zincrby :: "string \<Rightarrow> string \<Rightarrow> string \<Rightarrow> rdb \<Rightarrow> (redisReply \<times> rdb) option" where
  "exec_zincrby k d m db =
     with_zset k db (\<lambda>z. let s = (case map_of z m of None \<Rightarrow> 0 | Some s \<Rightarrow> s) + read_int d
                        in (REPLY_STRING (show_int s), put_zset k (AList.update m s z) db))"

definition exec_zcard :: "string \<Rightarrow> rdb \<Rightarrow> (redisReply \<times> rdb) option" where
  "exec_zcard k db = with_zset k db (\<lambda>z. (REPLY_INTEGER (int (length z)), db))"

definition exec_zscore :: "string \<Rightarrow> string \<Rightarrow> rdb \<Rightarrow> (redisReply \<times> rdb) option" where
  "exec_zscore k m db =
     with_zset k db (\<lambda>z. (case map_of z m of None \<Rightarrow> REPLY_NIL | Some s \<Rightarrow> REPLY_STRING (show_int s), db))"

text \<open>
  \<open>ZLEXCOUNT k [m [m\<close>: the documentation promises the number of members between the bounds only if all members
  have the same score.
\<close>

definition same_scores :: "(string \<times> int) list \<Rightarrow> bool" where
  "same_scores z \<longleftrightarrow> (\<forall>p \<in> set z. \<forall>q \<in> set z. snd p = snd q)"

definition exec_zlexcount :: "string \<Rightarrow> string \<Rightarrow> string \<Rightarrow> rdb \<Rightarrow> (redisReply \<times> rdb) option" where
  "exec_zlexcount k lo hi db =
     (case zset_of (db k) of
        None \<Rightarrow> Some (wrong_type, db)
      | Some z \<Rightarrow>
          if same_scores z \<and> lo = hi \<and> take 1 lo = ''['' then Some (new_count (map_of z (tl lo) \<noteq> None), db)
          else None)"

text \<open>
  \<open>ZREVRANGE k i j\<close>: the members from the highest to the lowest score, those with the same score in reverse
  lexicographical order, at the positions from \<open>i\<close> to \<open>j\<close>; negative positions count from the end.
\<close>

definition ranked :: "(string \<times> int) list \<Rightarrow> (string \<times> int) list" where
  "ranked z = rev (sort_key (\<lambda>(m, s). (s, m)) z)"

definition redis_range :: "int \<Rightarrow> int \<Rightarrow> 'a list \<Rightarrow> 'a list" where
  "redis_range i j xs =
     (let n = int (length xs); start = (if i < 0 then max 0 (n + i) else i); stop = (if j < 0 then n + j else j)
      in take (nat (stop - start + 1)) (drop (nat start) xs))"

definition exec_zrevrange :: "string \<Rightarrow> string \<Rightarrow> string \<Rightarrow> rdb \<Rightarrow> (redisReply \<times> rdb) option" where
  "exec_zrevrange k i j db =
     with_zset k db (\<lambda>z. (REPLY_ARRAY (map (\<lambda>(m, s). REPLY_STRING m) (redis_range (read_int i) (read_int j) (ranked z))), db))"

section \<open>Hashes\<close>

definition exec_hset :: "string \<Rightarrow> string \<Rightarrow> string \<Rightarrow> rdb \<Rightarrow> (redisReply \<times> rdb) option" where
  "exec_hset k f v db = with_hash k db (\<lambda>h. (new_count (map_of h f = None), put_hash k (AList.update f v h) db))"

definition exec_hget :: "string \<Rightarrow> string \<Rightarrow> rdb \<Rightarrow> (redisReply \<times> rdb) option" where
  "exec_hget k f db =
     with_hash k db (\<lambda>h. (case map_of h f of None \<Rightarrow> REPLY_NIL | Some v \<Rightarrow> REPLY_STRING v, db))"

definition exec_hdel :: "string \<Rightarrow> string \<Rightarrow> rdb \<Rightarrow> (redisReply \<times> rdb) option" where
  "exec_hdel k f db = with_hash k db (\<lambda>h. (new_count (map_of h f \<noteq> None), put_hash k (AList.delete f h) db))"

section \<open>All commands\<close>

definition redis_exec :: "string list \<Rightarrow> rdb \<Rightarrow> (redisReply \<times> rdb) option" where
  "redis_exec cmd db =
     (case cmd of
        [c, k] \<Rightarrow>
          if c = ''get'' then exec_get k db
          else if c = ''DEL'' then exec_del k db
          else if c = ''ZCARD'' then exec_zcard k db
          else None
      | [c, k, a] \<Rightarrow>
          if c = ''ZREM'' then exec_zrem k a db
          else if c = ''ZSCORE'' then exec_zscore k a db
          else if c = ''hget'' then exec_hget k a db
          else if c = ''hdel'' then exec_hdel k a db
          else None
      | [c, k, a, b] \<Rightarrow>
          if c = ''setex'' then exec_setex k b db
          else if c = ''ZADD'' then exec_zadd k a b db
          else if c = ''ZINCRBY'' then exec_zincrby k a b db
          else if c = ''ZREVRANGE'' then exec_zrevrange k a b db
          else if c = ''zlexcount'' then exec_zlexcount k a b db
          else if c = ''hset'' then exec_hset k a b db
          else None
      | _ \<Rightarrow> None)"

text \<open>What every reply to a command promises, also where its value is open: which commands answer with a text.\<close>

definition text_command :: "string list \<Rightarrow> bool" where
  "text_command cmd \<longleftrightarrow> take 1 cmd \<in> {[''setex''], [''ZINCRBY'']}"

lemma exec_text: "text_command cmd \<Longrightarrow> redis_exec cmd db = Some (r, db') \<Longrightarrow> reply_str r \<noteq> None"
  by (auto simp: text_command_def redis_exec_def exec_setex_def exec_zincrby_def with_zset_def wrong_type_def Let_def
      split: list.splits option.splits if_splits)

end
