(* ===== verification/Sql.thy ===== *)
theory Sql
  imports Services
begin

text \<open>
  The SQL statements of the CGI programs and the tables they work on. Every statement of the sources is a
  kind with the arguments of its \<open>sprintf\<close>; \<open>sql_text\<close> is the text that \<open>sprintf\<close> writes, \<open>parse_sql\<close>
  reads a statement back from such a text, and \<open>sql_exec\<close> is what the statement does to the tables. The
  programs only ever send text; that a MySQL server treats the text of a statement as \<open>sql_exec\<close> says is a
  hypothesis of the properties that rely on it.
\<close>

section \<open>Statements\<close>

datatype sql =
    Set_Names
  | Sel_Password | Sel_User | Ins_User
  | Sel_File_Count | Upd_File_Count | Upd_File_Count_Del | Ins_File_Info | Sel_File_Id | Del_File_Info
  | Sel_User_File | Ins_User_File | Sel_Shared | Upd_Shared | Upd_Unshared | Del_User_File | Sel_Pv | Upd_Pv
  | Sel_Count | Sel_Count_Of | Ins_Count | Ins_Share_Count | Upd_Count | Del_Count
  | Sel_Share | Ins_Share | Del_Share | Sel_Share_Pv | Upd_Share_Pv | Sel_Ranking
  | Sel_User_Files | Sel_Share_Files

datatype arg = S string | N int

text \<open>
  The format of a statement behind its first piece of literal text: further literal text, a string in
  quotes of the given kind, a number.
\<close>

datatype piece = Lit string | Str char | Num

definition sq :: char where "sq = CHR 0x27"
definition dq :: char where "dq = CHR 0x22"

fun sql_head :: "sql \<Rightarrow> string" where
  "sql_head Set_Names = ''set names utf8''"
| "sql_head Sel_Password = ''select password from user where name=''"
| "sql_head Sel_User = ''select * from user where name = ''"
| "sql_head Ins_User = ''insert into user (name, nickname, password, phone, createtime, email) values (''"
| "sql_head Sel_File_Count = ''select count from file_info where md5 = ''"
| "sql_head Upd_File_Count = ''update file_info set count = ''"
| "sql_head Upd_File_Count_Del = ''update file_info set count=''"
| "sql_head Ins_File_Info = ''insert into file_info (md5, file_id, url, size, type, count) values (''"
| "sql_head Sel_File_Id = ''select file_id from file_info where md5 = ''"
| "sql_head Del_File_Info = ''delete from file_info where md5 = ''"
| "sql_head Sel_User_File = ''select * from user_file_list where user = ''"
| "sql_head Ins_User_File = ''insert into user_file_list(user, md5, createtime, filename, shared_status, pv) values (''"
| "sql_head Sel_Shared = ''select shared_status from user_file_list where user = ''"
| "sql_head Upd_Shared = ''update user_file_list set shared_status = 1 where user = ''"
| "sql_head Upd_Unshared = ''update user_file_list set shared_status = 0 where user = ''"
| "sql_head Del_User_File = ''delete from user_file_list where user = ''"
| "sql_head Sel_Pv = ''select pv from user_file_list where user = ''"
| "sql_head Upd_Pv = ''update user_file_list set pv = ''"
| "sql_head Sel_Count = ''select count from user_file_count where user = ''"
| "sql_head Sel_Count_Of = ''select count from user_file_count where user=''"
| "sql_head Ins_Count = '' insert into user_file_count (user, count) values(''"
| "sql_head Ins_Share_Count = ''insert into user_file_count (user, count) values(''"
| "sql_head Upd_Count = ''update user_file_count set count = ''"
| "sql_head Del_Count = ''delete from user_file_count where user = ''"
| "sql_head Sel_Share = ''select * from share_file_list where md5 = ''"
| "sql_head Ins_Share = ''insert into share_file_list (user, md5, createtime, filename, pv) values (''"
| "sql_head Del_Share = ''delete from share_file_list where user = ''"
| "sql_head Sel_Share_Pv = ''select pv from share_file_list where md5 = ''"
| "sql_head Upd_Share_Pv = ''update share_file_list set pv = ''"
| "sql_head Sel_Ranking = ''select md5, filename, pv from share_file_list order by pv desc''"
| "sql_head Sel_User_Files = ''select user_file_list.*, file_info.url, file_info.size, file_info.type from file_info, user_file_list where user = ''"
| "sql_head Sel_Share_Files = ''select share_file_list.*, file_info.url, file_info.size, file_info.type from file_info, share_file_list where file_info.md5 = share_file_list.md5 limit ''"

definition comma :: piece where "comma = Lit '', ''"
definition close :: piece where "close = Lit '')''"
definition and_md5 :: piece where "and_md5 = Lit '' and md5 = ''"
definition and_filename :: piece where "and_filename = Lit '' and filename = ''"
definition where_user :: piece where "where_user = Lit '' where user = ''"
definition where_md5 :: piece where "where_md5 = Lit '' where md5 = ''"

lemmas piece_defs = comma_def close_def and_md5_def and_filename_def where_user_def where_md5_def

fun sql_tail :: "sql \<Rightarrow> piece list" where
  "sql_tail Set_Names = []"
| "sql_tail Sel_Password = [Str dq]"
| "sql_tail Sel_User = [Str sq]"
| "sql_tail Ins_User = [Str sq, comma, Str sq, comma, Str sq, comma, Str sq, comma, Str sq, comma, Str sq, close]"
| "sql_tail Sel_File_Count = [Str sq]"
| "sql_tail Upd_File_Count = [Num, where_md5, Str sq]"
| "sql_tail Upd_File_Count_Del = [Num, where_md5, Str sq]"
| "sql_tail Ins_File_Info = [Str sq, comma, Str sq, comma, Str sq, comma, Str sq, comma, Str sq, comma, Num, close]"
| "sql_tail Sel_File_Id = [Str sq]"
| "sql_tail Del_File_Info = [Str sq]"
| "sql_tail Sel_User_File = [Str sq, and_md5, Str sq, and_filename, Str sq]"
| "sql_tail Ins_User_File = [Str sq, comma, Str sq, comma, Str sq, comma, Str sq, comma, Num, comma, Num, close]"
| "sql_tail Sel_Shared = [Str sq, and_md5, Str sq, and_filename, Str sq]"
| "sql_tail Upd_Shared = [Str sq, and_md5, Str sq, and_filename, Str sq]"
| "sql_tail Upd_Unshared = [Str sq, and_md5, Str sq, and_filename, Str sq]"
| "sql_tail Del_User_File = [Str sq, and_md5, Str sq, and_filename, Str sq]"
| "sql_tail Sel_Pv = [Str sq, and_md5, Str sq, and_filename, Str sq]"
| "sql_tail Upd_Pv = [Num, where_user, Str sq, and_md5, Str sq, and_filename, Str sq]"
| "sql_tail Sel_Count = [Str sq]"
| "sql_tail Sel_Count_Of = [Str dq]"
| "sql_tail Ins_Count = [Str sq, comma, Num, close]"
| "sql_tail Ins_Share_Count = [Str sq, comma, Num, close]"
| "sql_tail Upd_Count = [Num, where_user, Str sq]"
| "sql_tail Del_Count = [Str sq]"
| "sql_tail Sel_Share = [Str sq, and_filename, Str sq]"
| "sql_tail Ins_Share = [Str sq, comma, Str sq, comma, Str sq, comma, Str sq, comma, Num, close]"
| "sql_tail Del_Share = [Str sq, and_md5, Str sq, and_filename, Str sq]"
| "sql_tail Sel_Share_Pv = [Str sq, and_filename, Str sq]"
| "sql_tail Upd_Share_Pv = [Num, where_md5, Str sq, and_filename, Str sq]"
| "sql_tail Sel_Ranking = []"
| "sql_tail Sel_User_Files = [Str sq, Lit '' and file_info.md5 = user_file_list.md5'']"
| "sql_tail Sel_Share_Files = [Num, comma, Num]"

text \<open>The text of a statement.\<close>

fun render :: "piece list \<Rightarrow> arg list \<Rightarrow> string" where
  "render (Lit s # ps) args = s @ render ps args"
| "render (Str q # ps) (S v # args) = q # v @ q # render ps args"
| "render (Num # ps) (N i # args) = show_int i @ render ps args"
| "render _ _ = []"

definition sql_text :: "sql \<Rightarrow> arg list \<Rightarrow> string" where
  "sql_text k args = sql_head k @ render (sql_tail k) args"

section \<open>Reading a statement back\<close>

text \<open>
  The reader of the pieces of a statement. A string ends at the next quote of its kind; a backslash in
  it would start an escape sequence of MySQL, which is not read here.
\<close>

definition number_end :: "char \<Rightarrow> bool" where
  "number_end c \<longleftrightarrow> \<not> (c_isdigit c \<or> c = CHR ''-'')"

definition plain :: "char \<Rightarrow> char \<Rightarrow> bool" where
  "plain q c \<longleftrightarrow> c \<noteq> q \<and> c \<noteq> CHR 0x5C"

fun match :: "piece list \<Rightarrow> string \<Rightarrow> arg list option" where
  "match [] t = (if t = [] then Some [] else None)"
| "match (Lit s # ps) t = (if take (length s) t = s then match ps (drop (length s) t) else None)"
| "match (Str q # ps) t =
     (case t of
        [] \<Rightarrow> None
      | c # t \<Rightarrow>
          (let v = takeWhile (plain q) t; rest = dropWhile (plain q) t
           in if c = q \<and> take 1 rest = [q] then map_option (Cons (S v)) (match ps (drop 1 rest)) else None))"
| "match (Num # ps) t =
     (let v = takeWhile (Not \<circ> number_end) t
      in if v = show_int (read_int v) then map_option (Cons (N (read_int v))) (match ps (drop (length v) t)) else None)"

definition sql_kinds :: "sql list" where
  "sql_kinds =
     [Set_Names, Sel_Password, Sel_User, Ins_User, Sel_File_Count, Upd_File_Count, Upd_File_Count_Del, Ins_File_Info,
      Sel_File_Id, Del_File_Info, Sel_User_File, Ins_User_File, Sel_Shared, Upd_Shared, Upd_Unshared, Del_User_File,
      Sel_Pv, Upd_Pv, Sel_Count, Sel_Count_Of, Ins_Count, Ins_Share_Count, Upd_Count, Del_Count, Sel_Share, Ins_Share,
      Del_Share, Sel_Share_Pv, Upd_Share_Pv, Sel_Ranking, Sel_User_Files, Sel_Share_Files]"

definition parse_sql :: "string \<Rightarrow> (sql \<times> arg list) option" where
  "parse_sql t =
     (case filter (\<lambda>k. take (length (sql_head k)) t = sql_head k) sql_kinds of
        [k] \<Rightarrow> map_option (Pair k) (match (sql_tail k) (drop (length (sql_head k)) t))
      | _ \<Rightarrow> None)"

text \<open>The arguments fit the format, and no string contains the quote around it or a backslash.\<close>

fun fits :: "piece list \<Rightarrow> arg list \<Rightarrow> bool" where
  "fits [] [] \<longleftrightarrow> True"
| "fits (Lit s # ps) args \<longleftrightarrow> fits ps args"
| "fits (Str q # ps) (S v # args) \<longleftrightarrow> list_all (plain q) v \<and> fits ps args"
| "fits (Num # ps) (N i # args) \<longleftrightarrow> fits ps args"
| "fits _ _ \<longleftrightarrow> False"

text \<open>Behind a number comes no digit: it ends the statement or literal text follows.\<close>

fun ends_number :: "piece list \<Rightarrow> bool" where
  "ends_number [] \<longleftrightarrow> True"
| "ends_number (Lit s # ps) \<longleftrightarrow> s \<noteq> [] \<and> number_end (hd s)"
| "ends_number _ \<longleftrightarrow> False"

fun delimited :: "piece list \<Rightarrow> bool" where
  "delimited [] \<longleftrightarrow> True"
| "delimited (Num # ps) \<longleftrightarrow> ends_number ps \<and> delimited ps"
| "delimited (Lit s # ps) \<longleftrightarrow> delimited ps"
| "delimited (Str q # ps) \<longleftrightarrow> delimited ps"

lemma plain_quote: "\<not> plain q q"
  by (simp add: plain_def)

lemma show_int_number: "\<forall>c \<in> set (show_int i). (Not \<circ> number_end) c"
  by (auto simp: show_int_def number_end_def dest: show_nat_digits)

lemma match_Str:
  assumes "list_all (plain q) v"
  shows "match (Str q # ps) (q # v @ q # t) = map_option (Cons (S v)) (match ps t)"
proof -
  have "takeWhile (plain q) (v @ q # t) = v" "dropWhile (plain q) (v @ q # t) = q # t"
    using assms by (simp_all add: list_all_iff takeWhile_append dropWhile_append3 plain_quote)
  then show ?thesis by simp
qed

lemma match_Num:
  assumes "t = [] \<or> number_end (hd t)"
  shows "match (Num # ps) (show_int i @ t) = map_option (Cons (N i)) (match ps t)"
proof -
  have "takeWhile (Not \<circ> number_end) (show_int i @ t) = show_int i"
    using assms show_int_number [of i] by (cases t) (auto simp: takeWhile_append)
  then show ?thesis by simp
qed

lemma render_ends_number:
  "ends_number ps \<Longrightarrow> fits ps args \<Longrightarrow> render ps args = [] \<or> number_end (hd (render ps args))"
  by (cases ps rule: ends_number.cases) auto

lemma fits_Str: "fits (Str q # ps) args \<Longrightarrow> \<exists>v rest. args = S v # rest \<and> list_all (plain q) v \<and> fits ps rest"
  by (cases args rule: list.exhaust; cases "hd args") auto

lemma fits_Num: "fits (Num # ps) args \<Longrightarrow> \<exists>i rest. args = N i # rest \<and> fits ps rest"
  by (cases args rule: list.exhaust; cases "hd args") auto

lemma match_render: "fits ps args \<Longrightarrow> delimited ps \<Longrightarrow> match ps (render ps args) = Some args"
proof (induction ps arbitrary: args rule: delimited.induct)
  case 1
  then show ?case by (cases args) auto
next
  case (2 ps)
  then obtain i rest where args: "args = N i # rest" "fits ps rest" using fits_Num by blast
  then show ?case using 2 match_Num [OF render_ends_number, of ps rest ps i] by simp
next
  case (3 s ps)
  then show ?case by simp
next
  case (4 q ps)
  then obtain v rest where args: "args = S v # rest" "list_all (plain q) v" "fits ps rest" using fits_Str by blast
  then show ?case using 4 match_Str [of q v ps "render ps rest"] by simp
qed

text \<open>No first piece of a statement is the beginning of another one's.\<close>

lemma sql_kinds_all: "k \<in> set sql_kinds"
  by (cases k) (simp_all add: sql_kinds_def)

lemma distinct_sql_kinds: "distinct sql_kinds"
  by (simp add: sql_kinds_def)

definition comparable :: "string \<Rightarrow> string \<Rightarrow> bool" where
  "comparable s t \<longleftrightarrow> list_all (\<lambda>(c, d). c = d) (zip s t)"

lemma comparable_prefixes: "take (length s) t = s \<Longrightarrow> take (length s') t = s' \<Longrightarrow> comparable s s'"
proof (induction t arbitrary: s s')
  case (Cons c t)
  then show ?case by (cases s; cases s') (auto simp: comparable_def)
qed (auto simp: comparable_def)

lemma sql_heads_apart:
  "list_all (\<lambda>k. list_all (\<lambda>k'. k = k' \<or> \<not> comparable (sql_head k) (sql_head k')) sql_kinds) sql_kinds"
  by code_simp

lemma sql_head_unique: "comparable (sql_head k) (sql_head k') \<Longrightarrow> k = k'"
  using sql_heads_apart sql_kinds_all unfolding list_all_iff by blast

lemma delimited_sql_tail: "delimited (sql_tail k)"
  by (cases k) (simp_all add: piece_defs number_end_def c_isdigit_def)

lemma filter_eq: "distinct xs \<Longrightarrow> x \<in> set xs \<Longrightarrow> (\<And>y. P y \<longleftrightarrow> y = x) \<Longrightarrow> filter P xs = [x]"
proof -
  assume a: "distinct xs" "x \<in> set xs" "\<And>y. P y \<longleftrightarrow> y = x"
  have "P = (\<lambda>y. y = x)" using a(3) by blast
  then have "filter P xs = filter (\<lambda>y. y = x) xs" by simp
  also have "\<dots> = [x]" using a(1,2) by (induction xs) (auto simp: filter_empty_conv)
  finally show ?thesis .
qed

lemma parse_sql_render:
  assumes "fits (sql_tail k) args"
  shows "parse_sql (sql_text k args) = Some (k, args)"
proof -
  let ?t = "sql_text k args"
  have "take (length (sql_head k')) ?t = sql_head k' \<longleftrightarrow> k' = k" for k'
    using sql_head_unique comparable_prefixes [of "sql_head k'" ?t "sql_head k"] by (auto simp: sql_text_def)
  then have "filter (\<lambda>k. take (length (sql_head k)) ?t = sql_head k) sql_kinds = [k]"
    by (intro filter_eq distinct_sql_kinds sql_kinds_all)
  then show ?thesis
    using match_render [OF assms delimited_sql_tail] by (simp add: parse_sql_def sql_text_def)
qed

section \<open>Length of a statement\<close>

fun piece_len :: "piece \<Rightarrow> nat" where
  "piece_len (Lit s) = length s"
| "piece_len (Str q) = 2"
| "piece_len Num = 0"

fun arg_len :: "arg \<Rightarrow> nat" where
  "arg_len (S v) = length v"
| "arg_len (N i) = length (show_int i)"

lemma length_render: "length (render ps args) \<le> sum_list (map piece_len ps) + sum_list (map arg_len args)"
  by (induction ps args rule: render.induct) simp_all

text \<open>Lengths counted with binary numbers, so that the simplifier evaluates them on long literals.\<close>

fun count_chars :: "string \<Rightarrow> int \<Rightarrow> int" where
  "count_chars [] n = n"
| "count_chars (c # s) n = count_chars s (n + 1)"

fun count_pieces :: "piece list \<Rightarrow> int \<Rightarrow> int" where
  "count_pieces [] n = n"
| "count_pieces (Lit s # ps) n = count_pieces ps (count_chars s n)"
| "count_pieces (Str q # ps) n = count_pieces ps (n + 2)"
| "count_pieces (Num # ps) n = count_pieces ps n"

lemma count_chars_length: "count_chars s n = n + int (length s)"
  by (induction s arbitrary: n) simp_all

lemma count_pieces_len: "count_pieces ps n = n + int (sum_list (map piece_len ps))"
  by (induction ps n rule: count_pieces.induct) (simp_all add: count_chars_length)

lemma count_statement: "count_pieces (sql_tail k) (count_chars (sql_head k) 0) \<le> 200"
  by (cases k) (simp_all add: piece_defs)

lemma sql_formats_short: "length (sql_head k) + sum_list (map piece_len (sql_tail k)) \<le> 200"
  using count_statement [of k] by (simp add: count_chars_length count_pieces_len)

text \<open>A statement fits its array of 512 bytes if its arguments have 310 bytes at most.\<close>

lemma sql_text_short [buf_simps]: "sum_list (map arg_len args) \<le> 310 \<Longrightarrow> length (sql_text k args) < 512"
proof -
  assume "sum_list (map arg_len args) \<le> 310"
  moreover have "length (sql_text k args) = length (sql_head k) + length (render (sql_tail k) args)"
    by (simp only: sql_text_def length_append)
  ultimately show ?thesis
    using sql_formats_short [of k] length_render [of "sql_tail k" args] by linarith
qed

text \<open>
  The reader of statements gives back the kind and the arguments of every statement that a program
  prints, as long as no string argument contains the quote put around it or a backslash: two calls that send
  the same text mean the same statement.
\<close>

theorem parse_sql_text:
  assumes "fits (sql_tail k) args" and "fits (sql_tail k') args'"
  shows "parse_sql (sql_text k args) = Some (k, args) \<and> (sql_text k args = sql_text k' args' \<longleftrightarrow> (k, args) = (k', args'))"
  using parse_sql_render [OF assms(1)] parse_sql_render [OF assms(2)] by (metis option.inject prod.inject)

theorem parse_sql_text_witness:
  "parse_sql (sql_text Upd_Count [N 3, S ''mike'']) = Some (Upd_Count, [N 3, S ''mike''])
     \<and> sql_text Upd_Count [N 3, S ''mike''] \<noteq> sql_text Sel_Count [S ''mike'']"
  using parse_sql_text [of Upd_Count "[N 3, S ''mike'']" Sel_Count "[S ''mike'']"]
  by (simp add: piece_defs plain_def sq_def)

end
