(* ===== verification/Tables.thy ===== *)
theory Tables
  imports Sql
begin

text \<open>
  The tables of the database and the effect of each statement on them. A table is the list of its rows;
  the tables and their columns are the ones the statements of the sources name, in the order in which
  \<open>cgi_files.c\<close> and \<open>cgi_sharefiles.c\<close> read the columns of \<open>select *\<close>. Strings are compared byte by byte (a
  binary collation). Whether the database declares keys is not in the repository: a server may refuse any
  statement, which is part of the hypothesis about it and not of \<open>sql_exec\<close>.
\<close>

record user_row =
  u_name :: string
  u_nickname :: string
  u_password :: string
  u_phone :: string
  u_createtime :: string
  u_email :: string

record file_row =
  f_md5 :: string
  f_file_id :: string
  f_url :: string
  f_size :: string
  f_type :: string
  f_count :: int

record list_row =
  l_user :: string
  l_md5 :: string
  l_createtime :: string
  l_filename :: string
  l_shared :: int
  l_pv :: int

record count_row =
  c_user :: string
  c_count :: int

record share_row =
  s_user :: string
  s_md5 :: string
  s_createtime :: string
  s_filename :: string
  s_pv :: int

record tables =
  t_user :: "user_row list"
  t_file_info :: "file_row list"
  t_user_file_list :: "list_row list"
  t_user_file_count :: "count_row list"
  t_share_file_list :: "share_row list"

section \<open>Selecting and changing rows\<close>

definition sarg :: "arg list \<Rightarrow> nat \<Rightarrow> string" where
  "sarg args i = (case args ! i of S v \<Rightarrow> v | N _ \<Rightarrow> [])"

definition narg :: "arg list \<Rightarrow> nat \<Rightarrow> int" where
  "narg args i = (case args ! i of N v \<Rightarrow> v | S _ \<Rightarrow> 0)"

definition file_of :: "string \<Rightarrow> file_row \<Rightarrow> bool" where
  "file_of md5 r \<longleftrightarrow> f_md5 r = md5"

definition entry_of :: "string \<Rightarrow> string \<Rightarrow> string \<Rightarrow> list_row \<Rightarrow> bool" where
  "entry_of user md5 filename r \<longleftrightarrow> l_user r = user \<and> l_md5 r = md5 \<and> l_filename r = filename"

definition share_of :: "string \<Rightarrow> string \<Rightarrow> share_row \<Rightarrow> bool" where
  "share_of md5 filename r \<longleftrightarrow> s_md5 r = md5 \<and> s_filename r = filename"

definition count_of :: "string \<Rightarrow> count_row \<Rightarrow> bool" where
  "count_of user r \<longleftrightarrow> c_user r = user"

definition change :: "('r \<Rightarrow> bool) \<Rightarrow> ('r \<Rightarrow> 'r) \<Rightarrow> 'r list \<Rightarrow> 'r list" where
  "change P f rs = map (\<lambda>r. if P r then f r else r) rs"

definition remove :: "('r \<Rightarrow> bool) \<Rightarrow> 'r list \<Rightarrow> 'r list" where
  "remove P rs = filter (\<lambda>r. \<not> P r) rs"

definition select_rows :: "('r \<Rightarrow> bool) \<Rightarrow> ('r \<Rightarrow> row) \<Rightarrow> 'r list \<Rightarrow> qresult" where
  "select_rows P cols rs = Q_Ok (Some (map cols (filter P rs)))"

definition executed :: "tables \<Rightarrow> qresult \<times> tables" where
  "executed t = (Q_Ok None, t)"

definition num_col :: "int \<Rightarrow> string option" where
  "num_col i = Some (show_int i)"

definition user_cols :: "user_row \<Rightarrow> row" where
  "user_cols r = map Some [u_name r, u_nickname r, u_password r, u_phone r, u_createtime r, u_email r]"

definition list_cols :: "list_row \<Rightarrow> row" where
  "list_cols r = map Some [l_user r, l_md5 r, l_createtime r, l_filename r] @ [num_col (l_shared r), num_col (l_pv r)]"

definition share_cols :: "share_row \<Rightarrow> row" where
  "share_cols r = map Some [s_user r, s_md5 r, s_createtime r, s_filename r] @ [num_col (s_pv r)]"

definition info_cols :: "file_row \<Rightarrow> row" where
  "info_cols f = map Some [f_url f, f_size f, f_type f]"

text \<open>The rows of a join with \<open>file_info\<close> on the MD5 of the file.\<close>

definition join_info :: "('r \<Rightarrow> string) \<Rightarrow> ('r \<Rightarrow> row) \<Rightarrow> file_row list \<Rightarrow> 'r list \<Rightarrow> row list" where
  "join_info md5_of cols files rs =
     concat (map (\<lambda>r. map (\<lambda>f. cols r @ info_cols f) (filter (file_of (md5_of r)) files)) rs)"

section \<open>The effect of the statements\<close>

fun sql_exec :: "sql \<Rightarrow> arg list \<Rightarrow> tables \<Rightarrow> qresult \<times> tables" where
  "sql_exec Set_Names a t = executed t"
| "sql_exec Sel_Password a t = (select_rows (\<lambda>r. u_name r = sarg a 0) (\<lambda>r. [Some (u_password r)]) (t_user t), t)"
| "sql_exec Sel_User a t = (select_rows (\<lambda>r. u_name r = sarg a 0) user_cols (t_user t), t)"
| "sql_exec Ins_User a t =
     executed (t \<lparr>t_user := t_user t @
       [\<lparr>u_name = sarg a 0, u_nickname = sarg a 1, u_password = sarg a 2, u_phone = sarg a 3,
         u_createtime = sarg a 4, u_email = sarg a 5\<rparr>]\<rparr>)"
| "sql_exec Sel_File_Count a t = (select_rows (file_of (sarg a 0)) (\<lambda>r. [num_col (f_count r)]) (t_file_info t), t)"
| "sql_exec Upd_File_Count a t =
     executed (t \<lparr>t_file_info := change (file_of (sarg a 1)) (f_count_update (\<lambda>_. narg a 0)) (t_file_info t)\<rparr>)"
| "sql_exec Upd_File_Count_Del a t =
     executed (t \<lparr>t_file_info := change (file_of (sarg a 1)) (f_count_update (\<lambda>_. narg a 0)) (t_file_info t)\<rparr>)"
| "sql_exec Ins_File_Info a t =
     executed (t \<lparr>t_file_info := t_file_info t @
       [\<lparr>f_md5 = sarg a 0, f_file_id = sarg a 1, f_url = sarg a 2, f_size = sarg a 3, f_type = sarg a 4,
         f_count = narg a 5\<rparr>]\<rparr>)"
| "sql_exec Sel_File_Id a t = (select_rows (file_of (sarg a 0)) (\<lambda>r. [Some (f_file_id r)]) (t_file_info t), t)"
| "sql_exec Del_File_Info a t = executed (t \<lparr>t_file_info := remove (file_of (sarg a 0)) (t_file_info t)\<rparr>)"
| "sql_exec Sel_User_File a t = (select_rows (entry_of (sarg a 0) (sarg a 1) (sarg a 2)) list_cols (t_user_file_list t), t)"
| "sql_exec Ins_User_File a t =
     executed (t \<lparr>t_user_file_list := t_user_file_list t @
       [\<lparr>l_user = sarg a 0, l_md5 = sarg a 1, l_createtime = sarg a 2, l_filename = sarg a 3,
         l_shared = narg a 4, l_pv = narg a 5\<rparr>]\<rparr>)"
| "sql_exec Sel_Shared a t =
     (select_rows (entry_of (sarg a 0) (sarg a 1) (sarg a 2)) (\<lambda>r. [num_col (l_shared r)]) (t_user_file_list t), t)"
| "sql_exec Upd_Shared a t =
     executed (t \<lparr>t_user_file_list :=
       change (entry_of (sarg a 0) (sarg a 1) (sarg a 2)) (l_shared_update (\<lambda>_. 1)) (t_user_file_list t)\<rparr>)"
| "sql_exec Upd_Unshared a t =
     executed (t \<lparr>t_user_file_list :=
       change (entry_of (sarg a 0) (sarg a 1) (sarg a 2)) (l_shared_update (\<lambda>_. 0)) (t_user_file_list t)\<rparr>)"
| "sql_exec Del_User_File a t =
     executed (t \<lparr>t_user_file_list := remove (entry_of (sarg a 0) (sarg a 1) (sarg a 2)) (t_user_file_list t)\<rparr>)"
| "sql_exec Sel_Pv a t =
     (select_rows (entry_of (sarg a 0) (sarg a 1) (sarg a 2)) (\<lambda>r. [num_col (l_pv r)]) (t_user_file_list t), t)"
| "sql_exec Upd_Pv a t =
     executed (t \<lparr>t_user_file_list :=
       change (entry_of (sarg a 1) (sarg a 2) (sarg a 3)) (l_pv_update (\<lambda>_. narg a 0)) (t_user_file_list t)\<rparr>)"
| "sql_exec Sel_Count a t = (select_rows (count_of (sarg a 0)) (\<lambda>r. [num_col (c_count r)]) (t_user_file_count t), t)"
| "sql_exec Sel_Count_Of a t = (select_rows (count_of (sarg a 0)) (\<lambda>r. [num_col (c_count r)]) (t_user_file_count t), t)"
| "sql_exec Ins_Count a t =
     executed (t \<lparr>t_user_file_count := t_user_file_count t @ [\<lparr>c_user = sarg a 0, c_count = narg a 1\<rparr>]\<rparr>)"
| "sql_exec Ins_Share_Count a t =
     executed (t \<lparr>t_user_file_count := t_user_file_count t @ [\<lparr>c_user = sarg a 0, c_count = narg a 1\<rparr>]\<rparr>)"
| "sql_exec Upd_Count a t =
     executed (t \<lparr>t_user_file_count :=
       change (count_of (sarg a 1)) (c_count_update (\<lambda>_. narg a 0)) (t_user_file_count t)\<rparr>)"
| "sql_exec Del_Count a t = executed (t \<lparr>t_user_file_count := remove (count_of (sarg a 0)) (t_user_file_count t)\<rparr>)"
| "sql_exec Sel_Share a t = (select_rows (share_of (sarg a 0) (sarg a 1)) share_cols (t_share_file_list t), t)"
| "sql_exec Ins_Share a t =
     executed (t \<lparr>t_share_file_list := t_share_file_list t @
       [\<lparr>s_user = sarg a 0, s_md5 = sarg a 1, s_createtime = sarg a 2, s_filename = sarg a 3, s_pv = narg a 4\<rparr>]\<rparr>)"
| "sql_exec Del_Share a t =
     executed (t \<lparr>t_share_file_list :=
       remove (\<lambda>r. s_user r = sarg a 0 \<and> share_of (sarg a 1) (sarg a 2) r) (t_share_file_list t)\<rparr>)"
| "sql_exec Sel_Share_Pv a t =
     (select_rows (share_of (sarg a 0) (sarg a 1)) (\<lambda>r. [num_col (s_pv r)]) (t_share_file_list t), t)"
| "sql_exec Upd_Share_Pv a t =
     executed (t \<lparr>t_share_file_list :=
       change (share_of (sarg a 1) (sarg a 2)) (s_pv_update (\<lambda>_. narg a 0)) (t_share_file_list t)\<rparr>)"
| "sql_exec Sel_Ranking a t =
     (Q_Ok (Some (map (\<lambda>r. [Some (s_md5 r), Some (s_filename r), num_col (s_pv r)])
        (sort_key (\<lambda>r. - s_pv r) (t_share_file_list t)))), t)"
| "sql_exec Sel_User_Files a t =
     (Q_Ok (Some (join_info l_md5 list_cols (t_file_info t) (filter (\<lambda>r. l_user r = sarg a 0) (t_user_file_list t)))), t)"
| "sql_exec Sel_Share_Files a t =
     (if narg a 0 < 0 \<or> narg a 1 < 0 then (Q_Err, t)
      else (Q_Ok (Some (take (nat (narg a 1)) (drop (nat (narg a 0))
             (join_info s_md5 share_cols (t_file_info t) (t_share_file_list t))))), t))"

text \<open>The answer of a server that executes the text of a statement and refuses any other text.\<close>

definition mysql_exec :: "string \<Rightarrow> tables \<Rightarrow> qresult \<times> tables" where
  "mysql_exec sql_cmd t = (case parse_sql sql_cmd of None \<Rightarrow> (Q_Err, t) | Some (k, args) \<Rightarrow> sql_exec k args t)"

lemma sarg_S [simp]: "sarg (S v # args) 0 = v" "sarg (a # args) (Suc n) = sarg args n"
  by (simp_all add: sarg_def)

lemma narg_N [simp]: "narg (N v # args) 0 = v" "narg (a # args) (Suc n) = narg args n"
  by (simp_all add: narg_def)

lemma arg_numeral [simp]:
  "sarg (a # args) (numeral n) = sarg args (pred_numeral n)" "narg (a # args) (numeral n) = narg args (pred_numeral n)"
  by (simp_all add: sarg_def narg_def)

end
