(* ===== verification/Mysql_Op.thy ===== *)
theory Mysql_Op
  imports Tables
begin

text \<open>
  The MySQL access functions of \<open>src/src/common/mysql_op.c\<close>. A connection is whether there is one; its state is
  part of the outside world. Messages on standard error are left out.
\<close>

definition SQL_MAX_LEN :: nat where "SQL_MAX_LEN = 512"

text \<open>\<open>sprintf\<close> of a statement into \<open>char sql_cmd[SQL_MAX_LEN]\<close>.\<close>

definition sprintf_sql :: "sql \<Rightarrow> arg list \<Rightarrow> string option" where
  "sprintf_sql k args = store SQL_MAX_LEN (sql_text k args)"

definition msql_conn :: "'e services \<Rightarrow> string \<Rightarrow> string \<Rightarrow> string \<Rightarrow> 'e \<Rightarrow> bool \<times> 'e" where
  "msql_conn sv user_name passwd db_name e =
     (let (conn, e) = mysql_init sv e
      in if \<not> conn then (False, e)
         else let (ok, e) = mysql_real_connect sv user_name passwd db_name e
              in if \<not> ok then (False, mysql_close sv e) else (True, e))"

text \<open>\<open>if (conn != NULL) mysql_close(conn)\<close>.\<close>

definition close_conn :: "'e services \<Rightarrow> bool \<Rightarrow> 'e \<Rightarrow> 'e" where
  "close_conn sv conn e = (if conn then mysql_close sv e else e)"

text \<open>The text that \<open>process_result_test\<close> prints for a result set, given the error number after it.\<close>

fun print_fields :: "nat \<Rightarrow> row \<Rightarrow> string" where
  "print_fields i [] = []"
| "print_fields i (f # fs) =
     (if i > 0 then [CHR 0x09] else []) @ (case f of None \<Rightarrow> ''NULL'' | Some s \<Rightarrow> s) @ print_fields (i + 1) fs"

definition process_result_test :: "nat \<Rightarrow> row list \<Rightarrow> string" where
  "process_result_test mysql_errno rows =
     concat (map (\<lambda>row. print_fields 0 row @ newline) rows)
       @ (if mysql_errno \<noteq> 0 then [] else show_nat (length rows) @ '' rows returned '' @ newline)"

text \<open>
  \<open>process_result_one\<close>: \<open>buf\<close> is \<open>NULL\<close> or an array of the given size with its present text. The results are
  the return value and the text in \<open>buf\<close> afterwards.
\<close>

definition process_result_one ::
    "'e services \<Rightarrow> string \<Rightarrow> (nat \<times> string) option \<Rightarrow> 'e \<Rightarrow> (int \<times> string \<times> 'e) option" where
  "process_result_one sv sql_cmd buf e =
     (let old = (case buf of None \<Rightarrow> [] | Some (n, text) \<Rightarrow> text); (result, e) = mysql_query sv sql_cmd e
      in case result of
           Q_Err \<Rightarrow> Some (- 1, old, e)
         | Q_Ok None \<Rightarrow> Some (- 1, old, e)
         | Q_Ok (Some []) \<Rightarrow> Some (1, old, e)
         | Q_Ok (Some (row # rows)) \<Rightarrow>
             (case buf of
                None \<Rightarrow> Some (2, old, e)
              | Some (n, text) \<Rightarrow>
                  (case row of
                     [] \<Rightarrow> None
                   | None # cols \<Rightarrow> Some (0, old, e)
                   | Some v # cols \<Rightarrow> do {
                       buf \<leftarrow> store n v;
                       Some (0, buf, e)
                     })))"

end
