(* ===== verification/Cfg.thy ===== *)
theory Cfg
  imports Services CJson_Tree
begin

text \<open>
  Reading the configuration: \<open>src/src/common/cfg.c\<close>. The file is read anew for every value. A null pointer is
  \<^const>\<open>None\<close>; the array for the value comes with its size and present text, and the result is the return
  value with the text in it afterwards. That \<open>fopen\<close> or \<open>calloc\<close> fails is the outcome \<^const>\<open>None\<close> of \<open>read_file\<close>.
\<close>

definition CFG_PATH :: string where "CFG_PATH = ''./conf/cfg.json''"

definition get_cfg_value ::
    "'e services \<Rightarrow> string option \<Rightarrow> string option \<Rightarrow> string option \<Rightarrow> (nat \<times> string) option \<Rightarrow> 'e \<Rightarrow> (int \<times> string) option" where
  "get_cfg_value sv profile title key value e =
     (case (profile, title, key, value) of
        (Some profile, Some title, Some key, Some (n, old)) \<Rightarrow>
          (case read_file sv profile e of
             None \<Rightarrow> Some (- 1, old)
           | Some content \<Rightarrow>
               (case cJSON_Parse (c_str content) of
                  UB \<Rightarrow> None
                | Fail off \<Rightarrow> Some (- 1, old)
                | Ok root \<Rightarrow>
                    (case cJSON_GetObjectItem (Some root) title of
                       None \<Rightarrow> Some (- 1, old)
                     | Some father \<Rightarrow>
                         (case cJSON_GetObjectItem (Some father) key of
                            None \<Rightarrow> Some (- 1, old)
                          | Some son \<Rightarrow> do {
                              valuestring \<leftarrow> valuestring son;
                              value \<leftarrow> store n (c_str valuestring);
                              Some (0, value)
                            }))))
      | (_, _, _, Some (n, old)) \<Rightarrow> Some (- 1, old)
      | (_, _, _, None) \<Rightarrow> Some (- 1, []))"

text \<open>A value of \<open>CFG_PATH\<close> into an array of \<open>n\<close> bytes.\<close>

definition cfg_value :: "'e services \<Rightarrow> string \<Rightarrow> string \<Rightarrow> nat \<Rightarrow> string \<Rightarrow> 'e \<Rightarrow> (int \<times> string) option" where
  "cfg_value sv title key n old e = get_cfg_value sv (Some CFG_PATH) (Some title) (Some key) (Some (n, old)) e"

text \<open>The arrays of the callers of \<open>get_mysql_info\<close> have 256 bytes, initially empty.\<close>

definition get_mysql_info :: "'e services \<Rightarrow> 'e \<Rightarrow> (int \<times> string \<times> string \<times> string) option" where
  "get_mysql_info sv e = do {
     (ret, mysql_user) \<leftarrow> cfg_value sv ''mysql'' ''user'' 256 [] e;
     if ret = - 1 then Some (- 1, mysql_user, [], [])
     else do {
       (ret, mysql_pwd) \<leftarrow> cfg_value sv ''mysql'' ''password'' 256 [] e;
       if ret = - 1 then Some (- 1, mysql_user, mysql_pwd, [])
       else do {
         (ret, mysql_db) \<leftarrow> cfg_value sv ''mysql'' ''database'' 256 [] e;
         if ret = - 1 then Some (- 1, mysql_user, mysql_pwd, mysql_db)
         else Some (0, mysql_user, mysql_pwd, mysql_db)
       }
     }
   }"

end
