(* ===== verification/Cgi_Util.thy ===== *)
theory Cgi_Util
  imports C_String
begin

text \<open>
  The string functions of \<open>src/src/common/cgi_util.c\<close>. They work in place or on caller-supplied
  buffers; the model returns the resulting C string, and \<^const>\<open>None\<close> when the code reads outside
  the bytes of its argument (the NUL included). Buffer sizes are the callers' and are checked there.
\<close>

section \<open>trim_space\<close>

text \<open>The character at offset \<open>i\<close> of a C string, the terminating NUL included.\<close>

definition char_at :: "string \<Rightarrow> nat \<Rightarrow> char" where
  "char_at s i = (if i < length s then s ! i else CHR 0x00)"

function trim_front :: "string \<Rightarrow> nat \<Rightarrow> nat" where
  "trim_front str i =
     (if c_isspace (char_at str i) \<and> char_at str i \<noteq> CHR 0x00 then trim_front str (i + 1) else i)"
  by auto
termination
  by (relation "measure (\<lambda>(str, i). length str - i)") (auto simp: char_at_def c_isspace_def split: if_splits)

fun trim_back :: "string \<Rightarrow> nat \<Rightarrow> nat \<Rightarrow> nat" where
  "trim_back str i j = (if c_isspace (char_at str j) \<and> j > i then trim_back str i (j - 1) else j)"

declare trim_front.simps [simp del] trim_back.simps [simp del]

text \<open>
  For the empty string \<open>j\<close> starts at -1 and \<open>str[-1]\<close> is read. \<open>strncpy(inbuf, str + i, count)\<close> copies within one array,
  which is undefined when the two ranges overlap: the first \<open>count\<close> bytes and the ones from \<open>i\<close> on. With \<open>i = 0\<close> every byte is
  copied onto itself; this is taken to leave the array as it is.
\<close>

definition trim_space :: "string \<Rightarrow> string option" where
  "trim_space inbuf =
     (if inbuf = [] then None
      else let i = trim_front inbuf 0; j = trim_back inbuf i (length inbuf - 1); count = j + 1 - i
           in if 0 < i \<and> i < count then None else Some (take count (drop i inbuf)))"

lemma char_at_0: "c_isspace (char_at s i) \<longleftrightarrow> i < length s \<and> c_isspace (s ! i)"
  by (auto simp: char_at_def c_isspace_def)

lemma trim_front_eq: "trim_front str i = i + length (takeWhile c_isspace (drop i str))"
proof (induction str i rule: trim_front.induct)
  case (1 str i)
  show ?case
  proof (cases "i < length str \<and> c_isspace (str ! i)")
    case True
    then have "char_at str i \<noteq> CHR 0x00"
      by (auto simp: char_at_def c_isspace_def)
    with True 1 show ?thesis
      by (subst trim_front.simps) (auto simp: char_at_0 simp flip: Cons_nth_drop_Suc)
  next
    case False
    then show ?thesis
      by (subst trim_front.simps) (auto simp: char_at_0 takeWhile_eq_Nil_iff hd_drop_conv_nth not_less)
  qed
qed

lemma trim_back_eq:
  assumes "i \<le> j" and "j < length str" and "\<not> c_isspace (str ! i)"
  shows "take (trim_back str i j + 1 - i) (drop i str)
    = rev (dropWhile c_isspace (rev (take (j + 1 - i) (drop i str))))"
  using assms
proof (induction str i j rule: trim_back.induct)
  case (1 str i j)
  have snoc: "take (j + 1 - i) (drop i str) = take (j - i) (drop i str) @ [str ! j]"
    using 1(2,3) by (simp add: take_Suc_conv_app_nth Suc_diff_le)
  show ?case
  proof (cases "c_isspace (str ! j) \<and> j > i")
    case True
    then have "i \<le> j - 1" "j - 1 < length str" using 1(3) by auto
    with True show ?thesis
      using 1 snoc by (subst trim_back.simps) (simp add: char_at_0)
  next
    case False
    then have "\<not> c_isspace (str ! j)" using 1(2,4) by (metis le_neq_implies_less)
    then show ?thesis
      using False snoc by (subst trim_back.simps) (simp add: char_at_0)
  qed
qed

lemma trim_back_le: "trim_back str i j \<le> j"
proof (induction str i j rule: trim_back.induct)
  case (1 str i j)
  then show ?case by (subst trim_back.simps) (auto intro: order.trans)
qed

text \<open>
  White space at the end is removed. White space at the front is removed too, if what is left is not longer than it;
  otherwise, and on the empty string, the behaviour is undefined.
\<close>

lemma trim_space_eq:
  "trim_space s =
     (let i = length (takeWhile c_isspace s); t = rev (dropWhile c_isspace (rev (dropWhile c_isspace s)))
      in if s = [] \<or> 0 < i \<and> i < length t then None else Some t)"
proof (cases "s = []")
  case False
  let ?t = "dropWhile c_isspace s" and ?i = "length (takeWhile c_isspace s)"
  define count where "count = trim_back s ?i (length s - 1) + 1 - ?i"
  have drop: "drop ?i s = ?t" by (simp add: dropWhile_eq_drop)
  have "trim_back s ?i (length s - 1) + 1 \<le> length s" using trim_back_le [of s ?i "length s - 1"] False by (cases s) auto
  then have le: "count \<le> length ?t" by (simp add: count_def diff_le_mono flip: drop)
  have taken: "take count ?t = rev (dropWhile c_isspace (rev ?t))"
  proof (cases "?t = []")
    case nonempty: False
    then have i: "?i < length s" using drop by (metis drop_all linorder_not_less)
    moreover have "take (length s - ?i) ?t = ?t" by (simp flip: drop)
    moreover have "\<not> c_isspace (s ! ?i)" using i nth_length_takeWhile by blast
    ultimately show ?thesis using trim_back_eq [of ?i "length s - 1" s] by (simp add: count_def drop)
  qed (simp only: take_Nil rev.simps dropWhile.simps)
  have "length (rev (dropWhile c_isspace (rev ?t))) = count" using le by (simp flip: taken)
  moreover have "trim_space s = (if 0 < ?i \<and> ?i < count then None else Some (take count ?t))"
  proof -
    have "trim_front s 0 = ?i" by (simp add: trim_front_eq)
    then show ?thesis using False by (simp only: trim_space_def Let_def count_def drop if_False)
  qed
  ultimately show ?thesis using False by (simp only: Let_def taken simp_thms)
qed (simp add: trim_space_def)

section \<open>memstr\<close>

text \<open>
  The result is the offset of the match, \<open>NULL\<close> is \<^term>\<open>Some None\<close>. The data is a list that may be
  shorter than the length the caller claims: a read outside it is \<^const>\<open>None\<close>.
\<close>

function memstr_loop :: "string \<Rightarrow> nat \<Rightarrow> string \<Rightarrow> nat \<Rightarrow> nat option option" where
  "memstr_loop full_data last_possible substr i =
     (if i < last_possible then
        if length full_data \<le> i then None
        else if full_data ! i = hd substr then
          if length full_data < i + length substr then None
          else if take (length substr) (drop i full_data) = substr then Some (Some i)
          else memstr_loop full_data last_possible substr (i + 1)
        else memstr_loop full_data last_possible substr (i + 1)
      else Some None)"
  by auto
termination
  by (relation "measure (\<lambda>(_, last_possible, _, i). last_possible - i)") auto

declare memstr_loop.simps [simp del]

definition memstr :: "string \<Rightarrow> int \<Rightarrow> string \<Rightarrow> nat option option" where
  "memstr full_data full_data_len substr =
     (if full_data_len \<le> 0 then Some None
      else if substr = [] then Some None
      else memstr_loop full_data (nat (full_data_len - int (length substr) + 1)) substr 0)"

lemma strstr_step:
  assumes "i < length s"
  shows "strstr (drop i s) key
    = (if take (length key) (drop i s) = key then Some 0 else map_option Suc (strstr (drop (Suc i) s) key))"
  using assms by (simp flip: Cons_nth_drop_Suc)

lemma strstr_short: "length s < length key \<Longrightarrow> strstr s key = None"
  by (auto simp: strstr_None)

lemma memstr_loop_strstr:
  assumes "substr \<noteq> []" and "n \<le> length data"
  shows "memstr_loop data (n + 1 - length substr) substr i
    = Some (case strstr (drop i (take n data)) substr of None \<Rightarrow> None | Some k \<Rightarrow> Some (i + k))"
proof (induction "n - i" arbitrary: i)
  case 0
  then have "\<not> i < n + 1 - length substr" using assms(1) by (cases substr) auto
  moreover have "strstr (drop i (take n data)) substr = None"
    using 0 assms(1) by (intro strstr_short) simp
  ultimately show ?case by (simp add: memstr_loop.simps)
next
  case (Suc m)
  then have i: "i < length (take n data)" using assms(2) by simp
  have IH: "memstr_loop data (n + 1 - length substr) substr (i + 1)
      = Some (case strstr (drop (i + 1) (take n data)) substr of None \<Rightarrow> None | Some k \<Rightarrow> Some (i + 1 + k))"
    using Suc(1) [of "i + 1"] Suc(2) by simp
  show ?case
  proof (cases "i < n + 1 - length substr")
    case True
    then have same: "take (length substr) (drop i (take n data)) = take (length substr) (drop i data)"
      by (auto simp: drop_take take_take min_def)
    have hd: "data ! i = hd substr" if "take (length substr) (drop i data) = substr"
      using that i assms by (metis hd_drop_conv_nth hd_take length_greater_0_conv length_take min_less_iff_conj)
    show ?thesis
      using True assms i IH hd
      by (subst memstr_loop.simps, subst strstr_step [OF i]) (auto simp: same split: option.splits)
  next
    case False
    then have "strstr (drop i (take n data)) substr = None"
      using i assms(2) by (intro strstr_short) auto
    with False show ?thesis by (simp add: memstr_loop.simps)
  qed
qed

text \<open>
  C27: when the claimed length is within the data, \<open>memstr\<close> stays in bounds and finds the first
  occurrence of a non-empty pattern in that many bytes, or reports that there is none. The data may
  contain NUL bytes.
\<close>

theorem memstr_correct:
  assumes "substr \<noteq> []" and "0 < len" and "nat len \<le> length data"
  shows "memstr data len substr = Some (strstr (take (nat len) data) substr)"
proof -
  have "nat (len - int (length substr) + 1) = nat len + 1 - length substr"
    using assms(2) by simp
  then show ?thesis
    using assms memstr_loop_strstr [of substr "nat len" data 0]
    by (simp add: memstr_def split: option.splits)
qed

theorem memstr_correct_witness:
  "memstr ''xxabyab'' 6 ''ab'' = Some (Some 2)"
  using memstr_correct [of "''ab''" 6 "''xxabyab''"] by simp

section \<open>query_parse_key_value\<close>

text \<open>
  The return value and the contents of \<open>value\<close> afterwards. \<open>temp\<close> is one character past the key; if
  the key ends the query this is behind the NUL.
\<close>

definition query_parse_key_value :: "string \<Rightarrow> string \<Rightarrow> string \<Rightarrow> (int \<times> string) option" where
  "query_parse_key_value query key val =
     (case strstr query key of
        None \<Rightarrow> Some (-1, val)
      | Some off \<Rightarrow>
          (let temp = off + length key + 1
           in if length query < temp then None
              else Some (0, takeWhile (\<lambda>c. c \<noteq> CHR ''#'' \<and> c \<noteq> CHR ''&'') (drop temp query))))"

text \<open>
  C29: in a query whose first occurrence of the key is followed by a separator character, a value
  without \<open>#\<close> and \<open>&\<close>, and the end of the query or one of these characters, the value is returned
  unchanged, whatever the buffer held before.
\<close>

theorem query_parse_finds_value:
  assumes "strstr (pre @ key @ sep # v @ rest) key = Some (length pre)"
    and "set v \<inter> {CHR ''#'', CHR ''&''} = {}"
    and "rest = [] \<or> hd rest \<in> {CHR ''#'', CHR ''&''}"
  shows "query_parse_key_value (pre @ key @ sep # v @ rest) key val = Some (0, v)"
proof -
  have "takeWhile (\<lambda>c. c \<noteq> CHR ''#'' \<and> c \<noteq> CHR ''&'') (v @ rest) = v"
    using assms(2,3) by (cases rest) (auto simp: takeWhile_append)
  then show ?thesis
    by (simp add: query_parse_key_value_def assms(1))
qed

theorem query_parse_finds_value_witness:
  "query_parse_key_value ''a=1&cmd=share&b'' ''cmd'' ''old'' = Some (0, ''share'')"
  using query_parse_finds_value [of "''a=1&''" "''cmd''" "CHR ''=''" "''share''" "''&b''" "''old''"] by simp

section \<open>get_file_suffix\<close>

text \<open>The loop that walks \<open>k\<close> back from the NUL to the last dot or the start.\<close>

primrec last_dot :: "string \<Rightarrow> nat \<Rightarrow> nat" where
  "last_dot p 0 = 0"
| "last_dot p (Suc k) = (if char_at p (Suc k) \<noteq> CHR ''.'' then last_dot p k else Suc k)"

definition get_file_suffix :: "string \<Rightarrow> string" where
  "get_file_suffix p =
     (let q = length p; k = last_dot p q
      in if char_at p k = CHR ''.'' then
           let k = k + 1; len = q - k
           in if len \<noteq> 0 then take len (drop k p) else ''null''
         else ''null'')"

lemma last_dot_found:
  "CHR ''.'' \<notin> set b \<Longrightarrow> k \<le> length b + 1 \<Longrightarrow> last_dot (a @ CHR ''.'' # b) (length a + k) = length a"
proof (induction k)
  case 0
  then show ?case by (cases "length a") (auto simp: char_at_def nth_append)
next
  case (Suc k)
  then have "char_at (a @ CHR ''.'' # b) (Suc (length a + k)) \<noteq> CHR ''.''"
    by (auto simp: char_at_def nth_append dest: nth_mem)
  with Suc show ?case by simp
qed

lemma last_dot_none: "CHR ''.'' \<notin> set p \<Longrightarrow> char_at p (last_dot p k) \<noteq> CHR ''.''"
  using in_set_conv_nth [of "CHR ''.''" p] by (auto simp: char_at_def)

text \<open>
  C28: the suffix is what follows the last dot of the file name; a name without a dot, or one that
  ends in a dot, has the suffix \<open>null\<close>.
\<close>

theorem get_file_suffix_correct:
  "get_file_suffix p =
     (let b = rev (takeWhile (\<lambda>c. c \<noteq> CHR ''.'') (rev p))
      in if CHR ''.'' \<in> set p \<and> b \<noteq> [] then b else ''null'')"
proof (cases "CHR ''.'' \<in> set p")
  case True
  then obtain b a where rev: "rev p = b @ CHR ''.'' # a" "CHR ''.'' \<notin> set b"
    by (metis split_list_first set_rev)
  have "p = rev (b @ CHR ''.'' # a)" using rev(1) by (metis rev_rev_ident)
  then have p: "p = rev a @ CHR ''.'' # rev b" by simp
  have "last_dot p (length p) = length a"
    using last_dot_found [of "rev b" "length b + 1" "rev a"] rev(2) by (simp add: p)
  moreover have "takeWhile (\<lambda>c. c \<noteq> CHR ''.'') (rev p) = b"
    unfolding rev(1) using rev(2) by (subst takeWhile_append2) auto
  ultimately show ?thesis
    using True by (auto simp: get_file_suffix_def Let_def char_at_def p nth_append)
next
  case False
  then show ?thesis
    using last_dot_none by (simp add: get_file_suffix_def Let_def)
qed

section \<open>str_replace\<close>

text \<open>
  One pass over the string: at an occurrence of \<open>strFind\<close> the replacement is written and the scan goes
  on behind it, with the rest of the string moved up or down.
\<close>

function str_replace :: "string \<Rightarrow> string \<Rightarrow> string \<Rightarrow> string" where
  "str_replace [] strFind strReplace = []"
| "str_replace (c # strSrc) strFind strReplace =
     (if strFind \<noteq> [] \<and> c = hd strFind then
        if take (length strFind) (c # strSrc) = strFind
        then strReplace @ str_replace (drop (length strFind) (c # strSrc)) strFind strReplace
        else c # str_replace strSrc strFind strReplace
      else c # str_replace strSrc strFind strReplace)"
  by pat_completeness auto
termination
  by (relation "measure (\<lambda>(s, _, _). length s)") (auto simp: neq_Nil_conv)

text \<open>The pieces between the occurrences, cut from left to right.\<close>

function pieces :: "string \<Rightarrow> string \<Rightarrow> string list" where
  "pieces sep s =
     (case strstr s sep of
        None \<Rightarrow> [s]
      | Some i \<Rightarrow> if sep = [] then [s] else take i s # pieces sep (drop (i + length sep) s))"
  by auto
termination
  by (relation "measure (\<lambda>(_, s). length s)") (auto dest: strstr_Some simp: neq_Nil_conv)

declare pieces.simps [simp del]

fun join :: "string \<Rightarrow> string list \<Rightarrow> string" where
  "join sep [] = []"
| "join sep [x] = x"
| "join sep (x # xs) = x @ sep @ join sep xs"

lemma pieces_ne [simp]: "pieces sep s \<noteq> []"
  by (subst pieces.simps) (simp split: option.split)

lemma join_Cons: "xs \<noteq> [] \<Longrightarrow> join sep (x # xs) = x @ sep @ join sep xs"
  by (cases xs) auto

lemma pieces_None: "strstr s sep = None \<Longrightarrow> pieces sep s = [s]"
  by (subst pieces.simps) simp

lemma pieces_empty: "pieces [] s = [s]"
  by (subst pieces.simps) (simp split: option.split)

lemma pieces_Some:
  "strstr s sep = Some i \<Longrightarrow> sep \<noteq> [] \<Longrightarrow> pieces sep s = take i s # pieces sep (drop (i + length sep) s)"
  by (subst pieces.simps) simp

lemma join_pieces: "join sep (pieces sep s) = s"
proof (induction sep s rule: pieces.induct)
  case (1 sep s)
  show ?case
  proof (cases "strstr s sep = None \<or> sep = []")
    case True
    then show ?thesis by (auto simp: pieces_None pieces_empty)
  next
    case False
    then obtain i where i: "strstr s sep = Some i" and sep: "sep \<noteq> []" by auto
    then have "s = take i s @ sep @ drop (i + length sep) s"
      by (metis add.commute append_take_drop_id drop_drop strstr_Some)
    with 1 [OF i sep] show ?thesis
      by (simp add: pieces_Some [OF i sep] join_Cons)
  qed
qed

lemma join_pieces_Cons:
  assumes "take (length sep) (c # s) \<noteq> sep"
  shows "join r (pieces sep (c # s)) = c # join r (pieces sep s)"
proof (cases "strstr s sep")
  case None
  then show ?thesis using assms by (simp add: pieces_None)
next
  case (Some i)
  have "sep \<noteq> []" using assms by auto
  moreover have "strstr (c # s) sep = Some (Suc i)" using assms Some by simp
  ultimately show ?thesis using Some by (simp add: pieces_Some join_Cons)
qed

lemma str_replace_pieces: "str_replace s strFind r = join r (pieces strFind s)"
proof (induction s strFind r rule: str_replace.induct)
  case (1 strFind r)
  then show ?case by (cases "strFind = []") (simp_all add: pieces_empty pieces_None)
next
  case (2 c s strFind r)
  show ?case
  proof (cases "strFind \<noteq> [] \<and> take (length strFind) (c # s) = strFind")
    case True
    then have ne: "strFind \<noteq> []" and hd: "c = hd strFind" and m: "take (length strFind) (c # s) = strFind"
      by (cases strFind; auto)+
    then have "strstr (c # s) strFind = Some 0" by simp
    then have "pieces strFind (c # s) = [] # pieces strFind (drop (length strFind) (c # s))"
      using ne by (simp add: pieces_Some)
    then show ?thesis
      using 2(1) ne hd m by (simp add: join_Cons)
  next
    case False
    then have "str_replace (c # s) strFind r = c # str_replace s strFind r" by auto
    with False show ?thesis
      using 2(2,3) by (cases "strFind = []") (auto simp: pieces_empty join_pieces_Cons)
  qed
qed

lemma pieces_free: "strFind \<noteq> [] \<Longrightarrow> list_all (\<lambda>part. strstr part strFind = None) (pieces strFind s)"
proof (induction strFind s rule: pieces.induct)
  case (1 strFind s)
  show ?case
  proof (cases "strstr s strFind")
    case None
    then show ?thesis by (simp add: pieces_None)
  next
    case (Some i)
    have "strstr (take i s) strFind = None"
    proof (rule ccontr)
      assume "strstr (take i s) strFind \<noteq> None"
      then obtain j where j: "strstr (take i s) strFind = Some j" by blast
      have "take (length strFind) (drop j (take i s)) = strFind" "j + length strFind \<le> length (take i s)"
        using strstr_Some [OF j] by auto
      moreover from this have "j < i" using 1(2) by (cases strFind) auto
      ultimately have "take (length strFind) (drop j s) = strFind" "j < i"
        by (auto simp: drop_take take_take min_def split: if_splits)
      then show False using strstr_first [OF Some] by blast
    qed
    with Some 1 show ?thesis by (simp add: pieces_Some)
  qed
qed

text \<open>
  C26: \<open>str_replace\<close> terminates, and its result is the string with every occurrence of the pattern, cut
  from left to right without overlaps, exchanged for the replacement: the same pieces, none of which
  contains the pattern, joined by the replacement instead of the pattern.
\<close>

theorem str_replace_correct:
  "str_replace s strFind strReplace = join strReplace (pieces strFind s) \<and>
   join strFind (pieces strFind s) = s \<and>
   (strFind = [] \<or> list_all (\<lambda>part. strstr part strFind = None) (pieces strFind s))"
  using str_replace_pieces join_pieces pieces_free by blast

end
