(* ===== verification/Cgi_Common.thy ===== *)
theory Cgi_Common
  imports Redis_Op Mysql_Op Cfg Cgi_Util CJson_Roundtrip
begin

text \<open>
  What the CGI programs share: the status answer and the token check of \<open>src/src/common/cgi_util.c\<close>, the
  copying of JSON members into arrays, and the reading of a FastCGI request.
\<close>

definition USER_NAME_LEN :: nat where "USER_NAME_LEN = 128"
definition TOKEN_LEN :: nat where "TOKEN_LEN = 128"
definition MD5_LEN :: nat where "MD5_LEN = 256"
definition FILE_NAME_LEN :: nat where "FILE_NAME_LEN = 256"
definition PWD_LEN :: nat where "PWD_LEN = 256"
definition TIME_STRING_LEN :: nat where "TIME_STRING_LEN = 25"
definition TEMP_BUF_MAX_LEN :: nat where "TEMP_BUF_MAX_LEN = 512"
definition FILE_URL_LEN :: nat where "FILE_URL_LEN = 512"
definition HOST_NAME_LEN :: nat where "HOST_NAME_LEN = 30"
definition SUFFIX_LEN :: nat where "SUFFIX_LEN = 8"

lemmas array_sizes = USER_NAME_LEN_def TOKEN_LEN_def MD5_LEN_def FILE_NAME_LEN_def PWD_LEN_def TIME_STRING_LEN_def
  TEMP_BUF_MAX_LEN_def FILE_URL_LEN_def HOST_NAME_LEN_def SUFFIX_LEN_def SQL_MAX_LEN_def

section \<open>Status answers\<close>

text \<open>
  Adding a string member: the object stays as it is if the item cannot be added. \<open>print_answer\<close> is
  \<open>out = cJSON_Print(root)\<close> and \<open>if (out != NULL) printf(out)\<close>.
\<close>

definition add_string :: "string \<Rightarrow> string \<Rightarrow> cJSON \<Rightarrow> cJSON" where
  "add_string name value root =
     (case cJSON_AddStringToObject (Some root) (Some name) (Some value) of None \<Rightarrow> root | Some root \<Rightarrow> root)"

definition print_answer :: "cJSON \<Rightarrow> string option" where
  "print_answer root =
     (case cJSON_Print root of Ok out \<Rightarrow> printf_text out | Fail _ \<Rightarrow> Some [] | UB \<Rightarrow> None)"

definition return_status :: "string \<Rightarrow> string option" where
  "return_status status_num = print_answer (add_string ''code'' status_num cJSON_CreateObject)"

text \<open>The text of an answer \<open>{"code": status_num}\<close>.\<close>

definition status_text :: "string \<Rightarrow> string" where
  "status_text code = json_text True 0 (cJSON_Object [(''code'', cJSON_String code)])"

lemma print_answer_Object:
  assumes "canonical v" and "length (json_text True 0 v) + 2 \<le> INT_MAX" and "CHR ''%'' \<notin> set (json_text True 0 v)"
  shows "print_answer v = Some (json_text True 0 v)"
  using print_ok [OF canonical_printable [OF assms(1)] assms(2)] assms(3)
  by (simp add: print_answer_def cJSON_Print_def printf_text_def)

lemma escape_plain: "\<forall>c \<in> set s. c_isdigit c \<Longrightarrow> escape s = s"
  by (induction s) (auto simp: escape_def escape_char_def c_isdigit_def quote_char_def backslash_def)

lemma escape_code: "escape ''code'' = ''code''"
  by (simp add: escape_def escape_char_def quote_char_def backslash_def)

lemma return_status_digits:
  assumes "\<forall>c \<in> set code. c_isdigit c" and "length code \<le> 100"
  shows "return_status code = Some (status_text code)"
proof -
  have "CHR ''%'' \<notin> set code" "CHR 0x00 \<notin> set code" using assms(1) by (auto simp: c_isdigit_def)
  then show ?thesis
    unfolding return_status_def add_string_def status_text_def cJSON_AddStringToObject_def cJSON_CreateString_def cJSON_CreateObject_def
    using assms print_answer_Object [of "cJSON_Object [(''code'', cJSON_String code)]"]
    by (simp add: escape_plain escape_code INT_MAX_def quote_char_def)
qed

lemma return_status_code [simp]:
  assumes "c_isdigit a" and "c_isdigit b" and "c_isdigit c"
  shows "return_status [a, b, c] = Some (status_text [a, b, c])"
  using assms by (intro return_status_digits) auto

section \<open>Lists of files\<close>

text \<open>
  The objects that the two list programs build from the columns of a row. A column that is \<open>NULL\<close> gives no
  member; a column the row does not have is an access behind its end. Numbers go through \<open>atoi\<close> or \<open>atol\<close> to
  a \<open>double\<close>.
\<close>

definition add_number :: "string \<Rightarrow> int \<Rightarrow> cJSON \<Rightarrow> cJSON" where
  "add_number name i root =
     (case cJSON_AddNumberToObject (Some root) (Some name) (dbl_of_int i) of None \<Rightarrow> root | Some root \<Rightarrow> root)"

datatype column = Text_Col string | Int_Col string | Long_Col string | Fixed_Col string int

fun add_column :: "row \<Rightarrow> nat \<Rightarrow> column \<Rightarrow> cJSON \<Rightarrow> (nat \<times> cJSON) option" where
  "add_column row i (Fixed_Col name n) item = Some (i, add_number name n item)"
| "add_column row i (Text_Col name) item =
     (if length row \<le> i then None
      else Some (i + 1, case row ! i of None \<Rightarrow> item | Some s \<Rightarrow> add_string name s item))"
| "add_column row i (Int_Col name) item =
     (if length row \<le> i then None
      else case row ! i of
        None \<Rightarrow> Some (i + 1, item)
      | Some s \<Rightarrow> do {
          n \<leftarrow> c_atoi s;
          Some (i + 1, add_number name n item)
        })"
| "add_column row i (Long_Col name) item =
     (if length row \<le> i then None
      else case row ! i of
        None \<Rightarrow> Some (i + 1, item)
      | Some s \<Rightarrow> do {
          n \<leftarrow> c_atol s;
          Some (i + 1, add_number name n item)
        })"

fun add_columns :: "row \<Rightarrow> nat \<Rightarrow> column list \<Rightarrow> cJSON \<Rightarrow> cJSON option" where
  "add_columns row i [] item = Some item"
| "add_columns row i (col # cols) item = do {
     (i, item) \<leftarrow> add_column row i col item;
     add_columns row i cols item
   }"

text \<open>The loop over the rows, and the object \<open>{"files": array}\<close> around its items.\<close>

fun add_rows :: "column list \<Rightarrow> row list \<Rightarrow> cJSON \<Rightarrow> cJSON option" where
  "add_rows cols [] array = Some array"
| "add_rows cols (row # rows) array = do {
     item \<leftarrow> add_columns row 0 cols cJSON_CreateObject;
     add_rows cols rows (case add_item_to_array (Some array) (Some item) of None \<Rightarrow> array | Some array \<Rightarrow> array)
   }"

definition files_object :: "cJSON \<Rightarrow> cJSON" where
  "files_object array =
     (case add_item_to_object (Some cJSON_CreateObject) (Some ''files'') (Some array) of
        None \<Rightarrow> cJSON_CreateObject | Some root \<Rightarrow> root)"

text \<open>\<open>out = cJSON_Print(root)\<close> and \<open>printf("%s", out)\<close>.\<close>

definition print_files :: "cJSON \<Rightarrow> string option" where
  "print_files array = (case cJSON_Print (files_object array) of Ok out \<Rightarrow> Some out | _ \<Rightarrow> None)"

section \<open>Members of a JSON request\<close>

text \<open>
  \<open>cJSON_GetObjectItem\<close> and \<open>strcpy\<close> of its \<open>valuestring\<close> into an array of \<open>n\<close> bytes: \<^term>\<open>Some None\<close> if there
  is no such member, undefined behaviour if it is not a string or does not fit. A sequence of such copies
  stops at the first missing member; the arrays behind it keep their text.
\<close>

definition copy_field :: "cJSON \<Rightarrow> string \<Rightarrow> nat \<Rightarrow> string option option" where
  "copy_field root name n =
     (case cJSON_GetObjectItem (Some root) name of
        None \<Rightarrow> Some None
      | Some child \<Rightarrow> do {
          valuestring \<leftarrow> valuestring child;
          text \<leftarrow> store n (c_str valuestring);
          Some (Some text)
        })"

fun copy_fields :: "cJSON \<Rightarrow> (string \<times> nat \<times> string) list \<Rightarrow> (int \<times> string list) option" where
  "copy_fields root [] = Some (0, [])"
| "copy_fields root ((name, n, old) # fs) = do {
     field \<leftarrow> copy_field root name n;
     (case field of
        None \<Rightarrow> Some (- 1, old # map (\<lambda>(_, _, old). old) fs)
      | Some text \<Rightarrow> do {
          (ret, texts) \<leftarrow> copy_fields root fs;
          Some (ret, text # texts)
        })
   }"

definition request_fields :: "string \<Rightarrow> (string \<times> nat \<times> string) list \<Rightarrow> (int \<times> string list) option" where
  "request_fields buf fs =
     (case cJSON_Parse buf of
        UB \<Rightarrow> None
      | Fail off \<Rightarrow> Some (- 1, map (\<lambda>(_, _, old). old) fs)
      | Ok root \<Rightarrow> copy_fields root fs)"

section \<open>The token check\<close>

definition verify_token :: "'e services \<Rightarrow> string \<Rightarrow> string \<Rightarrow> 'e \<Rightarrow> (int \<times> 'e) option" where
  "verify_token sv user token e = do {
     (_, redis_ip) \<leftarrow> cfg_value sv ''redis'' ''ip'' 30 [] e;
     (_, redis_port) \<leftarrow> cfg_value sv ''redis'' ''port'' 10 [] e;
     (redis_conn, e) \<leftarrow> rop_connectdb_nopwd sv redis_ip redis_port e;
     if \<not> redis_conn then Some (- 1, e)
     else do {
       (ret, tmp_token, e) \<leftarrow> rop_get_string sv user 128 [] e;
       let ret = (if ret = 0 then if token \<noteq> tmp_token then - 1 else ret else ret);
       Some (ret, rop_disconnect sv redis_conn e)
     }
   }"

section \<open>Configuration of a program\<close>

text \<open>
  The static arrays of the programs that \<open>read_cfg\<close> fills once at start: 128 bytes each for MySQL, 30 and 10
  for Redis. An entry that is missing leaves its array empty.
\<close>

record globals =
  mysql_user :: string
  mysql_pwd :: string
  mysql_db :: string
  redis_ip :: string
  redis_port :: string

definition read_cfg_mysql :: "'e services \<Rightarrow> 'e \<Rightarrow> globals option" where
  "read_cfg_mysql sv e = do {
     (_, user) \<leftarrow> cfg_value sv ''mysql'' ''user'' 128 [] e;
     (_, pwd) \<leftarrow> cfg_value sv ''mysql'' ''password'' 128 [] e;
     (_, db) \<leftarrow> cfg_value sv ''mysql'' ''database'' 128 [] e;
     Some \<lparr>mysql_user = user, mysql_pwd = pwd, mysql_db = db, redis_ip = [], redis_port = []\<rparr>
   }"

definition read_cfg :: "'e services \<Rightarrow> 'e \<Rightarrow> globals option" where
  "read_cfg sv e = do {
     g \<leftarrow> read_cfg_mysql sv e;
     (_, ip) \<leftarrow> cfg_value sv ''redis'' ''ip'' 30 [] e;
     (_, port) \<leftarrow> cfg_value sv ''redis'' ''port'' 10 [] e;
     Some (g \<lparr>redis_ip := ip, redis_port := port\<rparr>)
   }"

section \<open>Statements of a handler\<close>

text \<open>
  \<open>select_one\<close>: \<open>sprintf\<close> of a statement and \<open>process_result_one\<close>; \<open>run_sql\<close>: \<open>sprintf\<close> and \<open>mysql_query\<close>, with
  whether it returned 0. The text fetched by a query goes to \<open>char tmp[512]\<close>.
\<close>

definition select_one ::
    "'e services \<Rightarrow> sql \<Rightarrow> arg list \<Rightarrow> (nat \<times> string) option \<Rightarrow> 'e \<Rightarrow> (int \<times> string \<times> 'e) option" where
  "select_one sv k args buf e = do {
     sql_cmd \<leftarrow> sprintf_sql k args;
     process_result_one sv sql_cmd buf e
   }"

definition run_sql :: "'e services \<Rightarrow> sql \<Rightarrow> arg list \<Rightarrow> 'e \<Rightarrow> (bool \<times> 'e) option" where
  "run_sql sv k args e = do {
     sql_cmd \<leftarrow> sprintf_sql k args;
     let (result, e) = mysql_query sv sql_cmd e;
     Some (result \<noteq> Q_Err, e)
   }"

definition set_names :: "'e services \<Rightarrow> 'e \<Rightarrow> 'e" where
  "set_names sv e = snd (mysql_query sv ''set names utf8'' e)"

text \<open>The sum of two \<open>int\<close>s.\<close>

definition int_add :: "int \<Rightarrow> int \<Rightarrow> int option" where
  "int_add i j = (if in_int (i + j) then Some (i + j) else None)"

text \<open>
  The counting of a file of \<open>user\<close> in \<open>user_file_count\<close>, written out in four handlers: insert a count of 1
  or increment the one found. If the select fails, \<open>sql_cmd\<close> still holds it and it is sent once more. \<open>ins\<close>
  is the kind of the insert, whose text differs by a leading blank. The result is the handler's \<open>ret\<close>.
\<close>

definition count_file :: "'e services \<Rightarrow> sql \<Rightarrow> string \<Rightarrow> string \<Rightarrow> 'e \<Rightarrow> (int \<times> 'e) option" where
  "count_file sv ins user tmp e = do {
     sql_cmd \<leftarrow> sprintf_sql Sel_Count [S user];
     (ret2, tmp, e) \<leftarrow> process_result_one sv sql_cmd (Some (512, tmp)) e;
     sql_cmd \<leftarrow>
       (if ret2 = 1 then sprintf_sql ins [S user, N 1]
        else if ret2 = 0 then do {
          count \<leftarrow> c_atoi tmp;
          count \<leftarrow> int_add count 1;
          sprintf_sql Upd_Count [N count, S user]
        }
        else Some sql_cmd);
     let (result, e) = mysql_query sv sql_cmd e;
     Some (if result = Q_Err then - 1 else 0, e)
   }"

text \<open>
  A list query: \<open>mysql_query\<close>, \<open>mysql_store_result\<close> and \<open>mysql_num_rows\<close>. \<^const>\<open>None\<close> of the inner option is
  \<open>ret = -1\<close>: an error, no result or no rows.
\<close>

definition select_rows_of :: "'e services \<Rightarrow> string \<Rightarrow> 'e \<Rightarrow> row list option \<times> 'e" where
  "select_rows_of sv sql_cmd e =
     (let (result, e) = mysql_query sv sql_cmd e
      in (case result of Q_Ok (Some rows) \<Rightarrow> if rows = [] then None else Some rows | _ \<Rightarrow> None, e))"

definition share_user :: string where
  "share_user = ''xxx_share_xxx_file_xxx_list_xxx_count_xxx''"

section \<open>FastCGI requests\<close>

text \<open>
  A request as the loop around \<open>FCGI_Accept\<close> sees it: two variables of its environment and its standard
  input. All programs but \<open>upload\<close> read the input the same way, into a zeroed \<open>char buf[4096]\<close>: input of
  4096 bytes or more overruns it or leaves it without a terminating NUL.
\<close>

record request =
  content_length :: "string option"
  query_string :: "string option"
  stdin :: string

datatype input = No_Data | Read_Err | Body string

definition fcgi_input :: "request \<Rightarrow> input option" where
  "fcgi_input rq = do {
     len \<leftarrow> (case content_length rq of None \<Rightarrow> Some 0 | Some s \<Rightarrow> c_atoi s);
     if len \<le> 0 then Some No_Data
     else let ret = min (nat len) (length (stdin rq))
          in if ret = 0 then Some Read_Err
             else if ret \<ge> 4096 then None
             else Some (Body (c_str (take ret (stdin rq))))
   }"

text \<open>\<open>query_parse_key_value(query, "cmd", cmd, NULL)\<close> into \<open>char cmd[20]\<close>.\<close>

definition query_cmd :: "string \<Rightarrow> string \<Rightarrow> string option" where
  "query_cmd query cmd = do {
     (_, cmd) \<leftarrow> query_parse_key_value query ''cmd'' cmd;
     store 20 cmd
   }"

definition http_header :: string where
  "http_header = ''Content-type: text/html'' @ [CHR 0x0D, CHR 0x0A, CHR 0x0D, CHR 0x0A]"

definition no_data :: string where
  "no_data = ''No data from standard input.<p>'' @ newline"

text \<open>
  The loop around \<open>FCGI_Accept\<close>: one answer per request. The state carries the outside world and, in
  programs that declare them before the loop, arrays that keep their contents from one request to the next.
\<close>

fun serve :: "(request \<Rightarrow> 'st \<Rightarrow> (string \<times> 'st) option) \<Rightarrow> request list \<Rightarrow> 'st \<Rightarrow> (string list \<times> 'st) option" where
  "serve handle [] st = Some ([], st)"
| "serve handle (rq # rqs) st = do {
     (out, st) \<leftarrow> handle rq st;
     (outs, st) \<leftarrow> serve handle rqs st;
     Some (out # outs, st)
   }"

end
