(* ===== verification/Base64.thy ===== *)
theory Base64
  imports Disk_Prelude
begin

text \<open>
  \<open>src/src/common/base64.c\<close>: the encoder that turns the encrypted login string into text
  before it is hashed, and the decoder beside it. The encoder's loop over \<open>i += 3\<close> is the
  recursion on three bytes at a time; the decoder's loop over \<open>i += 4\<close> is the recursion on
  four characters, where a read past the terminating NUL is \<^const>\<open>None\<close>.
\<close>

section \<open>The alphabet\<close>

definition base64char :: string where
  "base64char = ''ABCDEFGHIJKLMNOPQRSTUVWXYZabcdefghijklmnopqrstuvwxyz0123456789+/''"

lemma length_base64char [simp]: "length base64char = 64"
  by (simp add: base64char_def)

lemma distinct_base64char: "distinct base64char"
  by (simp add: base64char_def)

lemma base64char_no_pad: "CHR ''='' \<notin> set base64char"
  by (simp add: base64char_def)

lemma base64char_no_nul: "CHR 0x00 \<notin> set base64char"
  by (simp add: base64char_def)

text \<open>\<open>base64char[(int)current]\<close>, where the callers mask \<open>current\<close> to six bits.\<close>

definition b64_digit :: "byte \<Rightarrow> char" where
  "b64_digit current = base64char ! unat current"

text \<open>
  The decoder's search loop, \<open>for (k = 0; k < 64; k++) if (base64char[k] == c) temp = k;\<close>,
  starting from the \<open>0xFF\<close> of the \<open>memset\<close>.
\<close>

definition b64_index :: "char \<Rightarrow> byte" where
  "b64_index c = fold (\<lambda>k temp. if base64char ! k = c then of_nat k else temp) [0..<64] 0xFF"

section \<open>Encoding and decoding\<close>

fun base64_encode :: "byte list \<Rightarrow> string" where
  "base64_encode [] = []"
| "base64_encode [a] =
     [b64_digit (drop_bit 2 a AND 0x3F), b64_digit (push_bit 4 a AND 0x30),
      CHR ''='', CHR ''='']"
| "base64_encode [a, b] =
     [b64_digit (drop_bit 2 a AND 0x3F),
      b64_digit ((push_bit 4 a AND 0x30) OR (drop_bit 4 b AND 0x0F)),
      b64_digit (push_bit 2 b AND 0x3C),
      CHR ''='']"
| "base64_encode (a # b # c # rest) =
     b64_digit (drop_bit 2 a AND 0x3F) #
     b64_digit ((push_bit 4 a AND 0x30) OR (drop_bit 4 b AND 0x0F)) #
     b64_digit ((push_bit 2 b AND 0x3C) OR (drop_bit 6 c AND 0x03)) #
     b64_digit (c AND 0x3F) # base64_encode rest"

text \<open>The three output bytes of one group, from the four \<open>temp\<close> values.\<close>

definition b64_byte0 :: "byte \<Rightarrow> byte \<Rightarrow> byte" where
  "b64_byte0 t0 t1 = (push_bit 2 t0 AND 0xFC) OR (drop_bit 4 t1 AND 0x03)"

definition b64_byte1 :: "byte \<Rightarrow> byte \<Rightarrow> byte" where
  "b64_byte1 t1 t2 = (push_bit 4 t1 AND 0xF0) OR (drop_bit 2 t2 AND 0x0F)"

definition b64_byte2 :: "byte \<Rightarrow> byte \<Rightarrow> byte" where
  "b64_byte2 t2 t3 = (push_bit 6 t2 AND 0xF0) OR (t3 AND 0x3F)"

text \<open>
  Each group reads \<open>base64[i] \<dots> base64[i + 3]\<close>. With fewer than three characters left the
  read of \<open>base64[i + 3]\<close> is past the NUL; with exactly three it reads the NUL itself, and
  the next iteration, if the padding does not stop the loop, starts past it.
\<close>

fun base64_decode :: "string \<Rightarrow> byte list option" where
  "base64_decode [] = Some []"
| "base64_decode [_] = None"
| "base64_decode [_, _] = None"
| "base64_decode [c0, c1, c2] =
     (if c2 = CHR ''='' then Some [b64_byte0 (b64_index c0) (b64_index c1)] else None)"
| "base64_decode (c0 # c1 # c2 # c3 # rest) =
     (let t0 = b64_index c0; t1 = b64_index c1; t2 = b64_index c2; t3 = b64_index c3 in
      if c2 = CHR ''='' then Some [b64_byte0 t0 t1]
      else if c3 = CHR ''='' then Some [b64_byte0 t0 t1, b64_byte1 t1 t2]
      else map_option (\<lambda>bs. b64_byte0 t0 t1 # b64_byte1 t1 t2 # b64_byte2 t2 t3 # bs)
             (base64_decode rest))"

section \<open>Digits and indices\<close>

lemma fold_last_match:
  "fold (\<lambda>k t. if P k then f k else t) xs z =
     (case filter P xs of [] \<Rightarrow> z | ys \<Rightarrow> f (last ys))"
  by (induction xs arbitrary: z) (auto split: list.splits)

lemma filter_upt_eq: "k < n \<Longrightarrow> filter (\<lambda>j. j = k) [0..<n] = [k]"
  by (induction n) (auto simp: less_Suc_eq filter_empty_conv)

lemma b64_index_nth:
  assumes "k < 64"
  shows "b64_index (base64char ! k) = of_nat k"
proof -
  have "filter (\<lambda>j. base64char ! j = base64char ! k) [0..<64] = filter (\<lambda>j. j = k) [0..<64]"
    using assms by (intro filter_cong) (auto simp: nth_eq_iff_index_eq [OF distinct_base64char])
  also have "\<dots> = [k]"
    using assms by (rule filter_upt_eq)
  finally show ?thesis
    by (simp add: b64_index_def fold_last_match)
qed

lemma b64_index_digit [simp]: "x AND 0x3F = x \<Longrightarrow> b64_index (b64_digit x) = x"
proof -
  assume "x AND 0x3F = x"
  then have "x \<le> 0x3F"
    by (metis word_and_le1)
  then have "unat x < 64"
    by (simp add: word_le_nat_alt)
  then show ?thesis
    by (simp add: b64_digit_def b64_index_nth)
qed

lemma b64_digit_in: "x AND 0x3F = x \<Longrightarrow> b64_digit x \<in> set base64char"
proof -
  assume "x AND 0x3F = x"
  then have "x \<le> 0x3F"
    by (metis word_and_le1)
  then have "unat x < 64"
    by (simp add: word_le_nat_alt)
  then show ?thesis
    by (simp add: b64_digit_def)
qed

lemma b64_digit_not_pad [simp]: "x AND 0x3F = x \<Longrightarrow> b64_digit x \<noteq> CHR ''=''"
  using b64_digit_in base64char_no_pad by metis

text \<open>The four sextets of a group stay below 64, so every digit is a letter of the alphabet.\<close>

lemma sextets [simp]:
  fixes a b c :: byte
  shows "(drop_bit 2 a AND 0x3F) AND 0x3F = drop_bit 2 a AND 0x3F"
    and "(push_bit 4 a AND 0x30) AND 0x3F = push_bit 4 a AND 0x30"
    and "((push_bit 4 a AND 0x30) OR (drop_bit 4 b AND 0x0F)) AND 0x3F =
           (push_bit 4 a AND 0x30) OR (drop_bit 4 b AND 0x0F)"
    and "(push_bit 2 b AND 0x3C) AND 0x3F = push_bit 2 b AND 0x3C"
    and "((push_bit 2 b AND 0x3C) OR (drop_bit 6 c AND 0x03)) AND 0x3F =
           (push_bit 2 b AND 0x3C) OR (drop_bit 6 c AND 0x03)"
    and "(c AND 0x3F) AND 0x3F = c AND 0x3F"
  unfolding byte_eq_bits_iff by (simp_all add: bit_simps upt_rec)

text \<open>Reassembling the sextets gives the bytes back.\<close>

lemma bytes_of_sextets [simp]:
  fixes a b c :: byte
  shows "b64_byte0 (drop_bit 2 a AND 0x3F) (push_bit 4 a AND 0x30) = a"
    and "b64_byte0 (drop_bit 2 a AND 0x3F)
           ((push_bit 4 a AND 0x30) OR (drop_bit 4 b AND 0x0F)) = a"
    and "b64_byte1 ((push_bit 4 a AND 0x30) OR (drop_bit 4 b AND 0x0F))
           (push_bit 2 b AND 0x3C) = b"
    and "b64_byte1 ((push_bit 4 a AND 0x30) OR (drop_bit 4 b AND 0x0F))
           ((push_bit 2 b AND 0x3C) OR (drop_bit 6 c AND 0x03)) = b"
    and "b64_byte2 ((push_bit 2 b AND 0x3C) OR (drop_bit 6 c AND 0x03)) (c AND 0x3F) = c"
  unfolding byte_eq_bits_iff b64_byte0_def b64_byte1_def b64_byte2_def
  by (simp_all add: bit_simps upt_rec) (simp_all add: numeral_eq_Suc)

section \<open>Properties\<close>

lemma base64_decode_encode: "base64_decode (base64_encode bs) = Some bs"
  by (induction bs rule: base64_encode.induct) (simp_all add: Let_def)

lemma length_base64_encode: "length (base64_encode bs) = 4 * ((length bs + 2) div 3)"
proof (induction bs rule: base64_encode.induct)
  case (4 a b c rest)
  have "(length (a # b # c # rest) + 2) div 3 = (length rest + 2) div 3 + 1"
    by simp
  with 4 show ?case by simp
qed auto

lemma base64_encode_chars: "set (base64_encode bs) \<subseteq> insert (CHR ''='') (set base64char)"
  by (induction bs rule: base64_encode.induct) (auto intro: b64_digit_in)

interpretation b64: codec base64_encode base64_decode
  by unfold_locales (rule base64_decode_encode)

text \<open>
  C15: decoding what \<open>base64_encode\<close> produced gives back the encoded bytes, for every input, and the
  decoder never reads past the end of that text; the text has four characters for every three input
  bytes, rounded up, all of them from the Base64 alphabet or the padding character.
\<close>

theorem base64_roundtrip:
  "base64_decode (base64_encode bs) = Some bs \<and>
   length (base64_encode bs) = 4 * ((length bs + 2) div 3) \<and>
   set (base64_encode bs) \<subseteq> insert (CHR ''='') (set base64char)"
  using b64.decode_encode length_base64_encode base64_encode_chars by blast

end
