(* ===== verification/Md5.thy ===== *)
theory Md5
  imports Disk_Prelude
begin

text \<open>
  \<open>src/src/common/md5.c\<close> and \<open>src/include/common/md5.h\<close>: the MD5 digest that turns the
  encrypted login string into the session token. The context record keeps the two 32-bit bit
  counters, the four chaining words and the 64-byte block buffer; a pointer with a length is a
  byte list, whose length must fit the C code's \<open>unsigned int\<close>. The loop variable of
  \<open>MD5Update\<close> is a natural number: for inputs shorter than \<open>2 ^ 32 - 64\<close> bytes the 32-bit
  \<open>i + 64\<close> of the source does not wrap.
\<close>

section \<open>The context and the round functions\<close>

record md5_ctx =
  ctx_count0 :: u32
  ctx_count1 :: u32
  ctx_state :: "u32 \<times> u32 \<times> u32 \<times> u32"
  ctx_buffer :: "byte list"

definition md5_F :: "u32 \<Rightarrow> u32 \<Rightarrow> u32 \<Rightarrow> u32" where
  "md5_F x y z = (x AND y) OR (NOT x AND z)"

definition md5_G :: "u32 \<Rightarrow> u32 \<Rightarrow> u32 \<Rightarrow> u32" where
  "md5_G x y z = (x AND z) OR (y AND NOT z)"

definition md5_H :: "u32 \<Rightarrow> u32 \<Rightarrow> u32 \<Rightarrow> u32" where
  "md5_H x y z = x XOR y XOR z"

definition md5_I :: "u32 \<Rightarrow> u32 \<Rightarrow> u32 \<Rightarrow> u32" where
  "md5_I x y z = y XOR (x OR NOT z)"

definition ROTATE_LEFT :: "u32 \<Rightarrow> nat \<Rightarrow> u32" where
  "ROTATE_LEFT x n = push_bit n x OR drop_bit (32 - n) x"

definition FF :: "u32 \<Rightarrow> u32 \<Rightarrow> u32 \<Rightarrow> u32 \<Rightarrow> u32 \<Rightarrow> nat \<Rightarrow> u32 \<Rightarrow> u32" where
  "FF a b c d x s ac = ROTATE_LEFT (a + (md5_F b c d + x + ac)) s + b"

definition GG :: "u32 \<Rightarrow> u32 \<Rightarrow> u32 \<Rightarrow> u32 \<Rightarrow> u32 \<Rightarrow> nat \<Rightarrow> u32 \<Rightarrow> u32" where
  "GG a b c d x s ac = ROTATE_LEFT (a + (md5_G b c d + x + ac)) s + b"

definition HH :: "u32 \<Rightarrow> u32 \<Rightarrow> u32 \<Rightarrow> u32 \<Rightarrow> u32 \<Rightarrow> nat \<Rightarrow> u32 \<Rightarrow> u32" where
  "HH a b c d x s ac = ROTATE_LEFT (a + (md5_H b c d + x + ac)) s + b"

definition II :: "u32 \<Rightarrow> u32 \<Rightarrow> u32 \<Rightarrow> u32 \<Rightarrow> u32 \<Rightarrow> nat \<Rightarrow> u32 \<Rightarrow> u32" where
  "II a b c d x s ac = ROTATE_LEFT (a + (md5_I b c d + x + ac)) s + b"

section \<open>Little-endian words\<close>

text \<open>\<open>MD5Decode\<close>: four bytes per word, lowest byte first; \<open>MD5Encode\<close> is its inverse.\<close>

fun MD5Decode :: "byte list \<Rightarrow> u32 list" where
  "MD5Decode (b0 # b1 # b2 # b3 # rest) =
     (ucast b0 OR push_bit 8 (ucast b1) OR push_bit 16 (ucast b2) OR push_bit 24 (ucast b3))
       # MD5Decode rest"
| "MD5Decode _ = []"

fun MD5Encode :: "u32 list \<Rightarrow> byte list" where
  "MD5Encode [] = []"
| "MD5Encode (w # ws) =
     ucast (w AND 0xFF) # ucast (drop_bit 8 w AND 0xFF) # ucast (drop_bit 16 w AND 0xFF)
       # ucast (drop_bit 24 w AND 0xFF) # MD5Encode ws"

section \<open>The compression function\<close>

type_synonym md5_state = "u32 \<times> u32 \<times> u32 \<times> u32"
type_synonym md5_macro = "u32 \<Rightarrow> u32 \<Rightarrow> u32 \<Rightarrow> u32 \<Rightarrow> u32 \<Rightarrow> nat \<Rightarrow> u32 \<Rightarrow> u32"

text \<open>
  A line of \<open>MD5Transform\<close> is a macro call whose first argument is the register it assigns:
  \<open>FF(a, b, c, d, \<dots>)\<close>, \<open>FF(d, a, b, c, \<dots>)\<close>, \<open>FF(c, d, a, b, \<dots>)\<close> or
  \<open>FF(b, c, d, a, \<dots>)\<close>; \<open>k\<close> is the index into \<open>x\<close>.
\<close>

fun upd_a :: "md5_macro \<Rightarrow> nat \<Rightarrow> nat \<Rightarrow> u32 \<Rightarrow> u32 list \<Rightarrow> md5_state \<Rightarrow> md5_state" where
  "upd_a f k s ac x (a, b, c, d) = (f a b c d (x ! k) s ac, b, c, d)"

fun upd_d :: "md5_macro \<Rightarrow> nat \<Rightarrow> nat \<Rightarrow> u32 \<Rightarrow> u32 list \<Rightarrow> md5_state \<Rightarrow> md5_state" where
  "upd_d f k s ac x (a, b, c, d) = (a, b, c, f d a b c (x ! k) s ac)"

fun upd_c :: "md5_macro \<Rightarrow> nat \<Rightarrow> nat \<Rightarrow> u32 \<Rightarrow> u32 list \<Rightarrow> md5_state \<Rightarrow> md5_state" where
  "upd_c f k s ac x (a, b, c, d) = (a, b, f c d a b (x ! k) s ac, d)"

fun upd_b :: "md5_macro \<Rightarrow> nat \<Rightarrow> nat \<Rightarrow> u32 \<Rightarrow> u32 list \<Rightarrow> md5_state \<Rightarrow> md5_state" where
  "upd_b f k s ac x (a, b, c, d) = (a, f b c d a (x ! k) s ac, c, d)"

text \<open>The sixty-four lines of the four rounds, in the order of the source.\<close>

definition md5_lines :: "(u32 list \<Rightarrow> md5_state \<Rightarrow> md5_state) list" where
  "md5_lines =
     [upd_a FF 0 7 0xd76aa478,
      upd_d FF 1 12 0xe8c7b756,
      upd_c FF 2 17 0x242070db,
      upd_b FF 3 22 0xc1bdceee,
      upd_a FF 4 7 0xf57c0faf,
      upd_d FF 5 12 0x4787c62a,
      upd_c FF 6 17 0xa8304613,
      upd_b FF 7 22 0xfd469501,
      upd_a FF 8 7 0x698098d8,
      upd_d FF 9 12 0x8b44f7af,
      upd_c FF 10 17 0xffff5bb1,
      upd_b FF 11 22 0x895cd7be,
      upd_a FF 12 7 0x6b901122,
      upd_d FF 13 12 0xfd987193,
      upd_c FF 14 17 0xa679438e,
      upd_b FF 15 22 0x49b40821,
      upd_a GG 1 5 0xf61e2562,
      upd_d GG 6 9 0xc040b340,
      upd_c GG 11 14 0x265e5a51,
      upd_b GG 0 20 0xe9b6c7aa,
      upd_a GG 5 5 0xd62f105d,
      upd_d GG 10 9 0x2441453,
      upd_c GG 15 14 0xd8a1e681,
      upd_b GG 4 20 0xe7d3fbc8,
      upd_a GG 9 5 0x21e1cde6,
      upd_d GG 14 9 0xc33707d6,
      upd_c GG 3 14 0xf4d50d87,
      upd_b GG 8 20 0x455a14ed,
      upd_a GG 13 5 0xa9e3e905,
      upd_d GG 2 9 0xfcefa3f8,
      upd_c GG 7 14 0x676f02d9,
      upd_b GG 12 20 0x8d2a4c8a,
      upd_a HH 5 4 0xfffa3942,
      upd_d HH 8 11 0x8771f681,
      upd_c HH 11 16 0x6d9d6122,
      upd_b HH 14 23 0xfde5380c,
      upd_a HH 1 4 0xa4beea44,
      upd_d HH 4 11 0x4bdecfa9,
      upd_c HH 7 16 0xf6bb4b60,
      upd_b HH 10 23 0xbebfbc70,
      upd_a HH 13 4 0x289b7ec6,
      upd_d HH 0 11 0xeaa127fa,
      upd_c HH 3 16 0xd4ef3085,
      upd_b HH 6 23 0x4881d05,
      upd_a HH 9 4 0xd9d4d039,
      upd_d HH 12 11 0xe6db99e5,
      upd_c HH 15 16 0x1fa27cf8,
      upd_b HH 2 23 0xc4ac5665,
      upd_a II 0 6 0xf4292244,
      upd_d II 7 10 0x432aff97,
      upd_c II 14 15 0xab9423a7,
      upd_b II 5 21 0xfc93a039,
      upd_a II 12 6 0x655b59c3,
      upd_d II 3 10 0x8f0ccc92,
      upd_c II 10 15 0xffeff47d,
      upd_b II 1 21 0x85845dd1,
      upd_a II 8 6 0x6fa87e4f,
      upd_d II 15 10 0xfe2ce6e0,
      upd_c II 6 15 0xa3014314,
      upd_b II 13 21 0x4e0811a1,
      upd_a II 4 6 0xf7537e82,
      upd_d II 11 10 0xbd3af235,
      upd_c II 2 15 0x2ad7d2bb,
      upd_b II 9 21 0xeb86d391]"

fun md5_add :: "md5_state \<Rightarrow> md5_state \<Rightarrow> md5_state" where
  "md5_add (s0, s1, s2, s3) (a, b, c, d) = (s0 + a, s1 + b, s2 + c, s3 + d)"

definition MD5Transform :: "md5_state \<Rightarrow> byte list \<Rightarrow> md5_state" where
  "MD5Transform st block =
     (let x = MD5Decode block in md5_add st (fold (\<lambda>line. line x) md5_lines st))"

section \<open>Init, update, final\<close>

definition PADDING :: "byte list" where
  "PADDING = 0x80 # replicate 63 0"

definition MD5Init :: "md5_ctx \<Rightarrow> md5_ctx" where
  "MD5Init context = context\<lparr>ctx_count0 := 0, ctx_count1 := 0,
     ctx_state := (0x67452301, 0xEFCDAB89, 0x98BADCFE, 0x10325476)\<rparr>"

text \<open>\<open>memcpy(&buf[index], src, n)\<close> on a buffer held as a list.\<close>

definition memcpy_at :: "'a list \<Rightarrow> nat \<Rightarrow> 'a list \<Rightarrow> 'a list" where
  "memcpy_at buf index src = take index buf @ src @ drop (index + length src) buf"

text \<open>
  The loop \<open>for (i = partlen; i + 64 <= inputlen; i += 64) MD5Transform(state, &input[i]);\<close>
  over the rest of the input: the new state and the bytes left over.
\<close>

fun md5_blocks :: "md5_state \<Rightarrow> byte list \<Rightarrow> md5_state \<times> byte list" where
  "md5_blocks st input =
     (if 64 \<le> length input then md5_blocks (MD5Transform st (take 64 input)) (drop 64 input)
      else (st, input))"

declare md5_blocks.simps [simp del]

definition MD5Update :: "md5_ctx \<Rightarrow> byte list \<Rightarrow> md5_ctx" where
  "MD5Update context input =
     (let inputlen = of_nat (length input) :: u32;
          index = unat (drop_bit 3 (ctx_count0 context) AND 0x3F);
          partlen = 64 - index;
          c0 = ctx_count0 context + push_bit 3 inputlen;
          c1 = (if c0 < push_bit 3 inputlen then ctx_count1 context + 1 else ctx_count1 context);
          c1 = c1 + drop_bit 29 inputlen
      in if partlen \<le> length input then
           (let buf = memcpy_at (ctx_buffer context) index (take partlen input);
                st = MD5Transform (ctx_state context) buf;
                (st, rest) = md5_blocks st (drop partlen input)
            in context\<lparr>ctx_count0 := c0, ctx_count1 := c1, ctx_state := st, ctx_buffer := memcpy_at buf 0 rest\<rparr>)
         else context\<lparr>ctx_count0 := c0, ctx_count1 := c1,
                ctx_buffer := memcpy_at (ctx_buffer context) index input\<rparr>)"

definition MD5Final :: "md5_ctx \<Rightarrow> byte list \<times> md5_ctx" where
  "MD5Final context =
     (let index = unat (drop_bit 3 (ctx_count0 context) AND 0x3F);
          padlen = (if index < 56 then 56 - index else 120 - index);
          bits = MD5Encode [ctx_count0 context, ctx_count1 context];
          context = MD5Update context (take padlen PADDING);
          context = MD5Update context bits;
          (a, b, c, d) = ctx_state context
      in (MD5Encode [a, b, c, d], context))"

section \<open>What a context stands for\<close>

definition md5_iv :: md5_state where
  "md5_iv = (0x67452301, 0xEFCDAB89, 0x98BADCFE, 0x10325476)"

lemma md5_blocks_less [simp]: "length input < 64 \<Longrightarrow> md5_blocks st input = (st, input)"
  by (subst md5_blocks.simps) simp

lemma md5_blocks_ge:
  "64 \<le> length input \<Longrightarrow>
     md5_blocks st input = md5_blocks (MD5Transform st (take 64 input)) (drop 64 input)"
  by (subst md5_blocks.simps) simp

lemma length_md5_rest [simp]: "length (snd (md5_blocks st input)) = length input mod 64"
proof (induction st input rule: md5_blocks.induct)
  case (1 st input)
  show ?case
  proof (cases "64 \<le> length input")
    case True
    with 1 have "length (snd (md5_blocks st input)) = (length input - 64) mod 64"
      by (simp add: md5_blocks_ge)
    with True show ?thesis by (simp add: le_mod_geq)
  qed simp
qed

lemma md5_blocks_append:
  "md5_blocks st (m @ input) =
     md5_blocks (fst (md5_blocks st m)) (snd (md5_blocks st m) @ input)"
proof (induction st m rule: md5_blocks.induct)
  case (1 st m)
  show ?case
  proof (cases "64 \<le> length m")
    case True
    then have "md5_blocks st (m @ input) =
        md5_blocks (MD5Transform st (take 64 m)) (drop 64 m @ input)"
      by (subst md5_blocks_ge) simp_all
    with 1 True show ?thesis by (simp add: md5_blocks_ge [of m])
  qed simp
qed

text \<open>
  \<open>md5_rep ctx m\<close>: the context is the result of feeding the message \<open>m\<close>. The two counters
  hold the number of message bits modulo \<open>2 ^ 64\<close>, the chaining state covers the complete
  blocks, and the buffer starts with the bytes of the incomplete one.
\<close>

definition md5_rep :: "md5_ctx \<Rightarrow> byte list \<Rightarrow> bool" where
  "md5_rep ctx m \<longleftrightarrow>
     length (ctx_buffer ctx) = 64 \<and>
     unat (ctx_count0 ctx) + 2 ^ 32 * unat (ctx_count1 ctx) = 8 * length m mod 2 ^ 64 \<and>
     ctx_state ctx = fst (md5_blocks md5_iv m) \<and>
     take (length m mod 64) (ctx_buffer ctx) = snd (md5_blocks md5_iv m)"

lemma md5_rep_Init: "length (ctx_buffer ctx) = 64 \<Longrightarrow> md5_rep (MD5Init ctx) []"
  by (simp add: md5_rep_def MD5Init_def md5_iv_def)

subsection \<open>The bit counter\<close>

lemma mod_add_if:
  "(a::nat) < m \<Longrightarrow> b < m \<Longrightarrow> (a + b) mod m = (if a + b < m then a + b else a + b - m)"
  by (auto simp: le_mod_geq)

text \<open>Adding \<open>2 ^ 32\<close> times a number only matters modulo \<open>2 ^ 32\<close> of that number.\<close>

lemma high_word_mod: "(a + 2 ^ 32 * (b mod 2 ^ 32)) mod 2 ^ 64 = (a + 2 ^ 32 * b) mod (2 ^ 64 :: nat)"
proof -
  have "2 ^ 32 * (b mod 2 ^ 32) = (2 ^ 32 * b) mod (2 ^ 64 :: nat)"
    using mult_mod_right [of "2 ^ 32" b "2 ^ 32 :: nat"] by simp
  then show ?thesis by (simp add: mod_add_right_eq)
qed

lemma md5_count_step:
  fixes c0 c1 len :: u32
  defines "c0' \<equiv> c0 + push_bit 3 len"
  defines "c1' \<equiv> (if c0' < push_bit 3 len then c1 + 1 else c1) + drop_bit 29 len"
  assumes n: "unat c0 + 2 ^ 32 * unat c1 = n mod 2 ^ 64"
  shows "unat c0' + 2 ^ 32 * unat c1' = (n + 8 * unat len) mod 2 ^ 64"
proof -
  define p where "p = 8 * unat len mod 2 ^ 32"
  define q where "q = unat len div 2 ^ 29"
  define k :: nat where "k = (if c0' < push_bit 3 len then 1 else 0)"
  have c0: "unat c0 < 2 ^ 32" and pm: "p < 2 ^ 32"
    using unat_u32_less [of c0] by (simp_all add: p_def)
  have p: "unat (push_bit 3 len) = p"
    by (simp add: p_def push_bit_eq_mult unat_word_ariths mult.commute)
  have q: "unat (drop_bit 29 len) = q"
    by (simp only: q_def unat_drop_bit_eq) (simp add: drop_bit_eq_div)
  have "8 * unat len mod (8 * 2 ^ 29) = 8 * (unat len mod 2 ^ 29)"
    by (rule mult_mod_right [symmetric])
  moreover have "unat len = unat len mod 2 ^ 29 + 2 ^ 29 * q"
    by (simp add: q_def)
  ultimately have pq: "8 * unat len = p + 2 ^ 32 * q"
    by (simp add: p_def)
  have c0': "unat c0' = (unat c0 + p) mod 2 ^ 32"
    by (simp add: c0'_def unat_word_ariths p)
  have low: "unat c0' + 2 ^ 32 * k = unat c0 + p"
    using c0 pm by (auto simp: k_def word_less_nat_alt p c0' mod_add_if)
  have c1': "unat c1' = (unat c1 + k + q) mod 2 ^ 32"
    by (simp add: c1'_def k_def unat_word_ariths q mod_simps)
  have "(unat c0' + 2 ^ 32 * unat c1') mod 2 ^ 64 =
      (unat c0' + 2 ^ 32 * (unat c1 + k + q)) mod 2 ^ 64"
    unfolding c1' by (rule high_word_mod)
  also have "unat c0' + 2 ^ 32 * (unat c1 + k + q) = unat c0 + 2 ^ 32 * unat c1 + 8 * unat len"
    using low pq by (simp add: algebra_simps)
  also have "\<dots> mod 2 ^ 64 = (n + 8 * unat len) mod 2 ^ 64"
    unfolding n by (simp add: mod_simps)
  finally show ?thesis
    using unat_u32_less [of c0'] unat_u32_less [of c1'] by simp
qed

lemma md5_index:
  assumes "md5_rep ctx m"
  shows "unat (drop_bit 3 (ctx_count0 ctx) AND 0x3F) = length m mod 64"
proof -
  have low: "unat (ctx_count0 ctx) = 8 * length m mod 2 ^ 32"
  proof -
    have "unat (ctx_count0 ctx) = (unat (ctx_count0 ctx) + 2 ^ 32 * unat (ctx_count1 ctx)) mod 2 ^ 32"
      using unat_u32_less [of "ctx_count0 ctx"] by simp
    also have "\<dots> = 8 * length m mod 2 ^ 64 mod 2 ^ 32"
      using assms by (simp add: md5_rep_def)
    also have "\<dots> = 8 * length m mod 2 ^ 32"
      by (rule mod_mod_cancel) simp
    finally show ?thesis .
  qed
  have "(0x3F :: u32) = mask 6"
    by (simp add: mask_eq_exp_minus_1)
  then have "unat (drop_bit 3 (ctx_count0 ctx) AND 0x3F) = unat (ctx_count0 ctx) div 8 mod 64"
    by (simp only: unsigned_take_bit_eq unat_drop_bit_eq flip: take_bit_eq_mask)
      (simp add: take_bit_eq_mod drop_bit_eq_div)
  also have "\<dots> = 8 * length m mod (8 * 2 ^ 29) div 8 mod 64"
    by (simp add: low)
  also have "\<dots> = length m mod 2 ^ 29 mod 64"
    by (subst mult_mod_right [symmetric]) simp
  also have "\<dots> = length m mod 64"
    by (rule mod_mod_cancel) simp
  finally show ?thesis .
qed

subsection \<open>Update\<close>

lemma length_memcpy_at [simp]:
  "index + length src \<le> length buf \<Longrightarrow> length (memcpy_at buf index src) = length buf"
  by (simp add: memcpy_at_def)

lemma take_memcpy_at [simp]:
  "index + length src \<le> length buf \<Longrightarrow> n = index + length src \<Longrightarrow>
     take n (memcpy_at buf index src) = take index buf @ src"
  by (simp add: memcpy_at_def)

lemma MD5Update_count:
  "ctx_count0 (MD5Update ctx input) = ctx_count0 ctx + push_bit 3 (of_nat (length input))"
  "ctx_count1 (MD5Update ctx input) =
     (if ctx_count0 ctx + push_bit 3 (of_nat (length input)) < push_bit 3 (of_nat (length input))
      then ctx_count1 ctx + 1 else ctx_count1 ctx) + drop_bit 29 (of_nat (length input))"
  by (auto simp: MD5Update_def Let_def split: prod.splits)

lemma MD5Update_short:
  assumes "unat (drop_bit 3 (ctx_count0 ctx) AND 0x3F) + length input < 64"
  shows "ctx_state (MD5Update ctx input) = ctx_state ctx"
    "ctx_buffer (MD5Update ctx input) =
       memcpy_at (ctx_buffer ctx) (unat (drop_bit 3 (ctx_count0 ctx) AND 0x3F)) input"
  using assms by (auto simp: MD5Update_def Let_def)

lemma MD5Update_long:
  fixes ctx input
  defines "i \<equiv> unat (drop_bit 3 (ctx_count0 ctx) AND 0x3F)"
  defines "full \<equiv> memcpy_at (ctx_buffer ctx) i (take (64 - i) input)"
  defines "blocks \<equiv> md5_blocks (MD5Transform (ctx_state ctx) full) (drop (64 - i) input)"
  assumes "64 - i \<le> length input"
  shows "ctx_state (MD5Update ctx input) = fst blocks"
    "ctx_buffer (MD5Update ctx input) = memcpy_at full 0 (snd blocks)"
  using assms by (auto simp: MD5Update_def Let_def split: prod.splits)

lemma md5_rep_Update:
  assumes rep: "md5_rep ctx m" and len: "length input < 2 ^ 32"
  shows "md5_rep (MD5Update ctx input) (m @ input)"
proof -
  let ?i = "length m mod 64" and ?b = "md5_blocks md5_iv m"
  have buf: "length (ctx_buffer ctx) = 64" and st: "ctx_state ctx = fst ?b"
    and rest: "take ?i (ctx_buffer ctx) = snd ?b"
    using rep by (simp_all add: md5_rep_def)
  have i: "?i < 64" by simp
  have cnt: "unat (ctx_count0 (MD5Update ctx input)) + 2 ^ 32 * unat (ctx_count1 (MD5Update ctx input))
      = 8 * length (m @ input) mod 2 ^ 64"
    using md5_count_step [of "ctx_count0 ctx" "ctx_count1 ctx" "8 * length m" "of_nat (length input)"] rep len
    by (simp add: md5_rep_def MD5Update_count unat_of_nat)
  have app: "md5_blocks md5_iv (m @ input) = md5_blocks (fst ?b) (snd ?b @ input)"
    by (rule md5_blocks_append)
  show ?thesis
  proof (cases "64 - ?i \<le> length input")
    case True
    define full where "full = memcpy_at (ctx_buffer ctx) ?i (take (64 - ?i) input)"
    define blk where "blk = md5_blocks (MD5Transform (fst ?b) full) (drop (64 - ?i) input)"
    have full: "full = snd ?b @ take (64 - ?i) input"
      using i True buf rest by (simp add: full_def memcpy_at_def)
    have blk: "md5_blocks md5_iv (m @ input) = blk"
      unfolding app blk_def using i True by (subst md5_blocks_ge) (simp_all add: full)
    have mod: "length (snd blk) = length (m @ input) mod 64"
      by (simp only: blk [symmetric] length_md5_rest)
    then have "length (snd blk) \<le> length full"
      using i True by (simp add: full)
    then have buf': "length (memcpy_at full 0 (snd blk)) = 64"
      "take (length (m @ input) mod 64) (memcpy_at full 0 (snd blk)) = snd blk"
      using i True by (simp_all add: full mod)
    have upd: "ctx_state (MD5Update ctx input) = fst blk"
      "ctx_buffer (MD5Update ctx input) = memcpy_at full 0 (snd blk)"
      using MD5Update_long [of ctx input] True
      unfolding md5_index [OF rep] st full_def blk_def by blast+
    show ?thesis
      unfolding md5_rep_def upd blk using cnt buf' by simp
  next
    case False
    then have "md5_blocks md5_iv (m @ input) = (fst ?b, snd ?b @ input)"
      using i by (simp add: app)
    moreover have "length (m @ input) mod 64 = ?i + length input"
      using False i mod_add_left_eq [of "length m" 64 "length input"] by simp
    ultimately show ?thesis
      using False cnt MD5Update_short [of ctx input] buf rest i unfolding md5_index [OF rep] st
      by (simp add: md5_rep_def)
  qed
qed

section \<open>The unrolled rounds\<close>

text \<open>
  The textbook round: one step on a rotating quadruple, with the round's function, message index
  and shift given by the step number and the constant by a table.
\<close>

definition md5_K :: "u32 list" where
  "md5_K = [0xd76aa478, 0xe8c7b756, 0x242070db, 0xc1bdceee,
      0xf57c0faf, 0x4787c62a, 0xa8304613, 0xfd469501,
      0x698098d8, 0x8b44f7af, 0xffff5bb1, 0x895cd7be,
      0x6b901122, 0xfd987193, 0xa679438e, 0x49b40821,
      0xf61e2562, 0xc040b340, 0x265e5a51, 0xe9b6c7aa,
      0xd62f105d, 0x02441453, 0xd8a1e681, 0xe7d3fbc8,
      0x21e1cde6, 0xc33707d6, 0xf4d50d87, 0x455a14ed,
      0xa9e3e905, 0xfcefa3f8, 0x676f02d9, 0x8d2a4c8a,
      0xfffa3942, 0x8771f681, 0x6d9d6122, 0xfde5380c,
      0xa4beea44, 0x4bdecfa9, 0xf6bb4b60, 0xbebfbc70,
      0x289b7ec6, 0xeaa127fa, 0xd4ef3085, 0x04881d05,
      0xd9d4d039, 0xe6db99e5, 0x1fa27cf8, 0xc4ac5665,
      0xf4292244, 0x432aff97, 0xab9423a7, 0xfc93a039,
      0x655b59c3, 0x8f0ccc92, 0xffeff47d, 0x85845dd1,
      0x6fa87e4f, 0xfe2ce6e0, 0xa3014314, 0x4e0811a1,
      0xf7537e82, 0xbd3af235, 0x2ad7d2bb, 0xeb86d391]"

definition md5_shift :: "nat \<Rightarrow> nat" where
  "md5_shift i = [[7, 12, 17, 22], [5, 9, 14, 20], [4, 11, 16, 23], [6, 10, 15, 21]] ! (i div 16) ! (i mod 4)"

definition md5_fun :: "nat \<Rightarrow> u32 \<Rightarrow> u32 \<Rightarrow> u32 \<Rightarrow> u32" where
  "md5_fun i = [md5_F, md5_G, md5_H, md5_I] ! (i div 16)"

definition md5_msg_index :: "nat \<Rightarrow> nat" where
  "md5_msg_index i = [i, 5 * i + 1, 3 * i + 5, 7 * i] ! (i div 16) mod 16"

fun md5_step :: "u32 list \<Rightarrow> nat \<Rightarrow> md5_state \<Rightarrow> md5_state" where
  "md5_step x i (a, b, c, d) =
     (d, ROTATE_LEFT (a + (md5_fun i b c d + x ! md5_msg_index i + md5_K ! i)) (md5_shift i) + b, b, c)"

definition md5_mac :: "nat \<Rightarrow> md5_macro" where
  "md5_mac i = [FF, GG, HH, II] ! (i div 16)"

lemma md5_mac_eq:
  assumes "i < 64"
  shows "md5_mac i a b c d x s ac = ROTATE_LEFT (a + (md5_fun i b c d + x + ac)) s + b"
proof -
  have "i div 16 \<in> {0, 1, 2, 3}" using assms by auto
  then show ?thesis by (auto simp: md5_mac_def md5_fun_def FF_def GG_def HH_def II_def)
qed

text \<open>Four rotating steps are the register updates of four consecutive source lines.\<close>

definition md5_group :: "nat \<Rightarrow> (u32 list \<Rightarrow> md5_state \<Rightarrow> md5_state) list" where
  "md5_group i =
     [upd_a (md5_mac i) (md5_msg_index i) (md5_shift i) (md5_K ! i),
      upd_d (md5_mac (i + 1)) (md5_msg_index (i + 1)) (md5_shift (i + 1)) (md5_K ! (i + 1)),
      upd_c (md5_mac (i + 2)) (md5_msg_index (i + 2)) (md5_shift (i + 2)) (md5_K ! (i + 2)),
      upd_b (md5_mac (i + 3)) (md5_msg_index (i + 3)) (md5_shift (i + 3)) (md5_K ! (i + 3))]"

lemma md5_group_steps:
  assumes "i + 3 < 64"
  shows "fold (\<lambda>line. line x) (md5_group i) st = fold (md5_step x) [i, i + 1, i + 2, i + 3] st"
  using assms by (cases st) (simp add: md5_group_def md5_mac_eq)

lemma md5_lines_groups: "md5_lines = concat (map (\<lambda>j. md5_group (4 * j)) [0..<16])"
  by (simp add: md5_lines_def upt_rec md5_group_def md5_mac_def md5_msg_index_def md5_shift_def md5_K_def)
    (simp add: numeral_2_eq_2)

lemma upt_four: "[0..<k + 4] = [0..<k] @ [k, k + 1, k + 2, k + 3]"
  by (simp add: upt_add_eq_append [of 0 k 4, simplified] upt_conv_Cons)

lemma md5_lines_steps:
  assumes "n \<le> 16"
  shows "fold (\<lambda>line. line x) (concat (map (\<lambda>j. md5_group (4 * j)) [0..<n])) st
     = fold (md5_step x) [0..<4 * n] st"
  using assms
proof (induction n)
  case (Suc n)
  have "[0..<4 * Suc n] = [0..<4 * n] @ [4 * n, 4 * n + 1, 4 * n + 2, 4 * n + 3]"
    using upt_four [of "4 * n"] by (simp add: add.commute)
  with Suc show ?case
    by (simp add: md5_group_steps)
qed simp

definition md5_compress :: "md5_state \<Rightarrow> byte list \<Rightarrow> md5_state" where
  "md5_compress st block = md5_add st (fold (md5_step (MD5Decode block)) [0..<64] st)"

text \<open>
  The sixty-four unrolled lines of \<open>MD5Transform\<close>, with their register rotation, message
  indices, shifts and constants written out by hand, compute the table-driven compression.
\<close>

lemma MD5Transform_compress: "MD5Transform st block = md5_compress st block"
  using md5_lines_steps [of 16 "MD5Decode block" st]
  by (simp add: MD5Transform_def md5_compress_def md5_lines_groups Let_def del: upt_Suc)

section \<open>The digest\<close>

text \<open>
  The reference: the message, the byte \<open>0x80\<close>, zeros up to 56 modulo 64, and the bit length as
  eight little-endian bytes; the digest is the chaining state of the table-driven compression over its blocks.
\<close>

definition le64 :: "nat \<Rightarrow> byte list" where
  "le64 n = map (\<lambda>i. of_nat (n div 256 ^ i)) [0..<8]"

definition md5_padded :: "byte list \<Rightarrow> byte list" where
  "md5_padded m = m @ 0x80 # replicate ((119 - length m mod 64) mod 64) 0 @ le64 (8 * length m)"

fun md5_chain :: "md5_state \<Rightarrow> byte list \<Rightarrow> md5_state" where
  "md5_chain st input =
     (if 64 \<le> length input then md5_chain (md5_compress st (take 64 input)) (drop 64 input) else st)"

declare md5_chain.simps [simp del]

lemma md5_chain_blocks: "md5_chain st input = fst (md5_blocks st input)"
  by (induction st input rule: md5_chain.induct)
    (subst md5_chain.simps, subst md5_blocks.simps, simp add: MD5Transform_compress)

definition md5_reference :: "byte list \<Rightarrow> byte list" where
  "md5_reference m =
     (case md5_chain md5_iv (md5_padded m) of (a, b, c, d) \<Rightarrow> MD5Encode [a, b, c, d])"

lemma u32_byte:
  "(ucast (drop_bit k w AND 0xFF) :: byte) = of_nat (unat (w :: u32) div 2 ^ k)"
proof -
  have "(ucast (drop_bit k w AND 0xFF) :: byte) = ucast (drop_bit k w)"
    by (rule bit_word_eqI) (auto simp: bit_simps numeral_eq_Suc less_Suc_eq)
  also have "\<dots> = of_nat (unat (drop_bit k w))"
    by simp
  also have "unat (drop_bit k w) = unat w div 2 ^ k"
    by (simp only: unat_drop_bit_eq) (simp add: drop_bit_eq_div)
  finally show ?thesis .
qed

lemma MD5Encode_Cons:
  "MD5Encode (w # ws) =
     of_nat (unat w) # of_nat (unat w div 2 ^ 8) # of_nat (unat w div 2 ^ 16)
       # of_nat (unat w div 2 ^ 24) # MD5Encode ws"
  using u32_byte [of 0 w] u32_byte [of 8 w] u32_byte [of 16 w] u32_byte [of 24 w] by simp

lemma of_nat_byte_eq: "(of_nat a :: byte) = of_nat b \<longleftrightarrow> a mod 256 = b mod 256"
  by (simp add: word_of_nat_eq_iff take_bit_eq_mod)

lemma digit_mod: "k + 8 \<le> l \<Longrightarrow> (n mod 2 ^ l) div 2 ^ k mod 256 = n div 2 ^ k mod (256 :: nat)"
proof -
  assume "k + 8 \<le> l"
  then have "take_bit 8 (drop_bit k (take_bit l n)) = take_bit 8 (drop_bit k n)"
    by (simp add: take_bit_drop_bit)
  then show ?thesis
    by (simp add: take_bit_eq_mod drop_bit_eq_div)
qed

lemma MD5Encode_pair:
  assumes n: "unat c0 + 2 ^ 32 * unat c1 = n mod 2 ^ 64"
  shows "MD5Encode [c0, c1] = le64 n"
proof -
  have c0: "unat c0 div 2 ^ k mod 256 = n div 2 ^ k mod 256" if "k + 8 \<le> 32" for k
  proof -
    have "unat c0 = (unat c0 + 2 ^ 32 * unat c1) mod 2 ^ 32"
      using unat_u32_less [of c0] by simp
    then have "unat c0 = n mod 2 ^ 64 mod 2 ^ 32"
      by (simp only: n)
    then have "unat c0 div 2 ^ k mod 256 = n mod 2 ^ 64 div 2 ^ k mod 256"
      using digit_mod [OF that] by simp
    then show ?thesis
      using that digit_mod [of k 64 n] by simp
  qed
  have c1: "unat c1 div 2 ^ k mod 256 = n div 2 ^ (32 + k) mod 256" if "k + 8 \<le> 32" for k
  proof -
    have "unat c1 = (unat c0 + 2 ^ 32 * unat c1) div 2 ^ 32"
      using unat_u32_less [of c0] by simp
    then have "unat c1 = n mod 2 ^ 64 div 2 ^ 32"
      by (simp only: n)
    then have "unat c1 div 2 ^ k = n mod 2 ^ 64 div 2 ^ (32 + k)"
      by (simp add: div_mult2_eq power_add)
    then show ?thesis
      using that digit_mod [of "32 + k" 64 n] by simp
  qed
  note bytes = c0 [folded of_nat_byte_eq] c1 [folded of_nat_byte_eq]
  show ?thesis
    using bytes(1) [of 0] bytes(1) [of 8] bytes(1) [of 16] bytes(1) [of 24]
      bytes(2) [of 0] bytes(2) [of 8] bytes(2) [of 16] bytes(2) [of 24]
    by (simp add: MD5Encode_Cons le64_def upt_rec del: MD5Encode.simps(2))
qed

lemma MD5Final_padding:
  "take (if i < 56 then 56 - i else 120 - i) PADDING =
     0x80 # replicate ((119 - i) mod 64) 0" if "i < 64" for i :: nat
  using that by (auto simp: PADDING_def take_Cons' le_mod_geq)

lemma MD5Final_correct:
  assumes "md5_rep ctx m"
  shows "fst (MD5Final ctx) = md5_reference m"
proof -
  let ?i = "length m mod 64"
  let ?p = "take (if ?i < 56 then 56 - ?i else 120 - ?i) PADDING"
  define ctx1 where "ctx1 = MD5Update ctx ?p"
  define ctx2 where "ctx2 = MD5Update ctx1 (le64 (8 * length m))"
  have bits: "MD5Encode [ctx_count0 ctx, ctx_count1 ctx] = le64 (8 * length m)"
    using assms by (intro MD5Encode_pair) (simp add: md5_rep_def)
  have "length ?p < 2 ^ 32"
    by (simp add: PADDING_def)
  then have "md5_rep ctx1 (m @ ?p)"
    unfolding ctx1_def by (rule md5_rep_Update [OF assms])
  then have "md5_rep ctx2 ((m @ ?p) @ le64 (8 * length m))"
    unfolding ctx2_def by (rule md5_rep_Update) (simp add: le64_def)
  moreover have "(m @ ?p) @ le64 (8 * length m) = md5_padded m"
    by (simp add: md5_padded_def MD5Final_padding)
  ultimately have "ctx_state ctx2 = fst (md5_blocks md5_iv (md5_padded m))"
    by (simp add: md5_rep_def)
  moreover have "fst (MD5Final ctx) = (case ctx_state ctx2 of (a, b, c, d) \<Rightarrow> MD5Encode [a, b, c, d])"
    unfolding MD5Final_def Let_def md5_index [OF assms] bits ctx1_def [symmetric] ctx2_def [symmetric]
    by (simp add: split_def del: MD5Encode.simps)
  ultimately show ?thesis
    by (simp only: md5_reference_def md5_chain_blocks)
qed

definition md5_ctx0 :: md5_ctx where
  "md5_ctx0 = \<lparr>ctx_count0 = 0, ctx_count1 = 0, ctx_state = (0, 0, 0, 0), ctx_buffer = replicate 64 0\<rparr>"

text \<open>
  C2: \<open>MD5Init\<close>, \<open>MD5Update\<close>, \<open>MD5Final\<close>, with the message fed in two pieces, compute the MD5
  digest of the concatenation as RFC 1321 specifies it (padding, bit length and the table-driven
  compression), whatever the context held before: neither the block buffering nor the 32-bit
  carry of the bit counter depends on where the input is cut.
\<close>

theorem MD5_digest_correct:
  assumes "length (ctx_buffer ctx) = 64"
    and "length m1 < 2 ^ 32 - 64" and "length m2 < 2 ^ 32 - 64"
  shows "fst (MD5Final (MD5Update (MD5Update (MD5Init ctx) m1) m2)) = md5_reference (m1 @ m2)"
proof -
  have "md5_rep (MD5Init ctx) []" using assms(1) by (rule md5_rep_Init)
  then have "md5_rep (MD5Update (MD5Init ctx) m1) ([] @ m1)"
    by (rule md5_rep_Update) (use assms in simp)
  then have "md5_rep (MD5Update (MD5Update (MD5Init ctx) m1) m2) (([] @ m1) @ m2)"
    by (rule md5_rep_Update) (use assms in simp)
  then show ?thesis by (metis MD5Final_correct append_Nil)
qed

theorem MD5_digest_correct_witness:
  "fst (MD5Final (MD5Update (MD5Update (MD5Init md5_ctx0) [0x61]) [0x62, 0x63])) = md5_reference [0x61, 0x62, 0x63]"
  using MD5_digest_correct [of md5_ctx0 "[0x61]" "[0x62, 0x63]"] by (simp add: md5_ctx0_def)

lemma length_MD5Encode [simp]: "length (MD5Encode ws) = 4 * length ws"
  by (induction ws) auto

lemma length_md5_reference [simp]: "length (md5_reference m) = 16"
  by (simp add: md5_reference_def split: prod.split del: MD5Encode.simps)

end
