(* ===== verification/Des.thy ===== *)
theory Des
  imports Disk_Prelude
begin

text \<open>
  \<open>src/src/common/des.c\<close>: the DES cipher in ECB mode with PKCS padding that encrypts the login
  string. The C type \<open>unsigned long\<close> is \<open>'w word\<close>, so one set of definitions covers the 32-bit
  \<open>unsigned long\<close> the source is written for (\<open>32 long = 128 bytes\<close>) and the 64-bit one of LP64
  platforms. Error returns are \<^const>\<open>Inl\<close> with the C code's return value; \<^const>\<open>None\<close> is
  undefined behaviour. A pointer with an \<open>int\<close> length is a byte list, and lengths are natural numbers: the model is about
  data that stay 24 bytes below the limit of \<open>int\<close>, beyond which \<open>nInDataLen + 24\<close> overflows.
\<close>

section \<open>Tables\<close>

definition pc1 :: "nat list" where
  "pc1 =
     [56, 48, 40, 32, 24, 16, 8, 0, 57, 49, 41, 33, 25, 17,
      9, 1, 58, 50, 42, 34, 26, 18, 10, 2, 59, 51, 43, 35,
      62, 54, 46, 38, 30, 22, 14, 6, 61, 53, 45, 37, 29, 21,
      13, 5, 60, 52, 44, 36, 28, 20, 12, 4, 27, 19, 11, 3]"

definition pc2 :: "nat list" where
  "pc2 =
     [13, 16, 10, 23, 0, 4, 2, 27, 14, 5, 20, 9,
      22, 18, 11, 3, 25, 7, 15, 6, 26, 19, 12, 1,
      40, 51, 30, 36, 46, 54, 29, 39, 50, 44, 32, 47,
      43, 48, 38, 55, 33, 52, 45, 41, 49, 35, 28, 31]"

definition bytebit :: "nat list" where
  "bytebit =
     [128, 64, 32, 16, 8, 4, 2, 1]"

definition totrot :: "nat list" where
  "totrot =
     [1, 2, 4, 6, 8, 10, 12, 14, 15, 17, 19, 21, 23, 25, 27, 28]"

definition bigbyte :: "'w::len word list" where
  "bigbyte =
     [0x800000, 0x400000, 0x200000, 0x100000, 0x80000, 0x40000,
      0x20000, 0x10000, 0x8000, 0x4000, 0x2000, 0x1000,
      0x800, 0x400, 0x200, 0x100, 0x80, 0x40,
      0x20, 0x10, 0x8, 0x4, 0x2, 0x1]"

definition SP1 :: "'w::len word list" where
  "SP1 =
     [0x01010400, 0x00000000, 0x00010000, 0x01010404, 0x01010004, 0x00010404,
      0x00000004, 0x00010000, 0x00000400, 0x01010400, 0x01010404, 0x00000400,
      0x01000404, 0x01010004, 0x01000000, 0x00000004, 0x00000404, 0x01000400,
      0x01000400, 0x00010400, 0x00010400, 0x01010000, 0x01010000, 0x01000404,
      0x00010004, 0x01000004, 0x01000004, 0x00010004, 0x00000000, 0x00000404,
      0x00010404, 0x01000000, 0x00010000, 0x01010404, 0x00000004, 0x01010000,
      0x01010400, 0x01000000, 0x01000000, 0x00000400, 0x01010004, 0x00010000,
      0x00010400, 0x01000004, 0x00000400, 0x00000004, 0x01000404, 0x00010404,
      0x01010404, 0x00010004, 0x01010000, 0x01000404, 0x01000004, 0x00000404,
      0x00010404, 0x01010400, 0x00000404, 0x01000400, 0x01000400, 0x00000000,
      0x00010004, 0x00010400, 0x00000000, 0x01010004]"

definition SP2 :: "'w::len word list" where
  "SP2 =
     [0x80108020, 0x80008000, 0x00008000, 0x00108020, 0x00100000, 0x00000020,
      0x80100020, 0x80008020, 0x80000020, 0x80108020, 0x80108000, 0x80000000,
      0x80008000, 0x00100000, 0x00000020, 0x80100020, 0x00108000, 0x00100020,
      0x80008020, 0x00000000, 0x80000000, 0x00008000, 0x00108020, 0x80100000,
      0x00100020, 0x80000020, 0x00000000, 0x00108000, 0x00008020, 0x80108000,
      0x80100000, 0x00008020, 0x00000000, 0x00108020, 0x80100020, 0x00100000,
      0x80008020, 0x80100000, 0x80108000, 0x00008000, 0x80100000, 0x80008000,
      0x00000020, 0x80108020, 0x00108020, 0x00000020, 0x00008000, 0x80000000,
      0x00008020, 0x80108000, 0x00100000, 0x80000020, 0x00100020, 0x80008020,
      0x80000020, 0x00100020, 0x00108000, 0x00000000, 0x80008000, 0x00008020,
      0x80000000, 0x80100020, 0x80108020, 0x00108000]"

definition SP3 :: "'w::len word list" where
  "SP3 =
     [0x00000208, 0x08020200, 0x00000000, 0x08020008, 0x08000200, 0x00000000,
      0x00020208, 0x08000200, 0x00020008, 0x08000008, 0x08000008, 0x00020000,
      0x08020208, 0x00020008, 0x08020000, 0x00000208, 0x08000000, 0x00000008,
      0x08020200, 0x00000200, 0x00020200, 0x08020000, 0x08020008, 0x00020208,
      0x08000208, 0x00020200, 0x00020000, 0x08000208, 0x00000008, 0x08020208,
      0x00000200, 0x08000000, 0x08020200, 0x08000000, 0x00020008, 0x00000208,
      0x00020000, 0x08020200, 0x08000200, 0x00000000, 0x00000200, 0x00020008,
      0x08020208, 0x08000200, 0x08000008, 0x00000200, 0x00000000, 0x08020008,
      0x08000208, 0x00020000, 0x08000000, 0x08020208, 0x00000008, 0x00020208,
      0x00020200, 0x08000008, 0x08020000, 0x08000208, 0x00000208, 0x08020000,
      0x00020208, 0x00000008, 0x08020008, 0x00020200]"

definition SP4 :: "'w::len word list" where
  "SP4 =
     [0x00802001, 0x00002081, 0x00002081, 0x00000080, 0x00802080, 0x00800081,
      0x00800001, 0x00002001, 0x00000000, 0x00802000, 0x00802000, 0x00802081,
      0x00000081, 0x00000000, 0x00800080, 0x00800001, 0x00000001, 0x00002000,
      0x00800000, 0x00802001, 0x00000080, 0x00800000, 0x00002001, 0x00002080,
      0x00800081, 0x00000001, 0x00002080, 0x00800080, 0x00002000, 0x00802080,
      0x00802081, 0x00000081, 0x00800080, 0x00800001, 0x00802000, 0x00802081,
      0x00000081, 0x00000000, 0x00000000, 0x00802000, 0x00002080, 0x00800080,
      0x00800081, 0x00000001, 0x00802001, 0x00002081, 0x00002081, 0x00000080,
      0x00802081, 0x00000081, 0x00000001, 0x00002000, 0x00800001, 0x00002001,
      0x00802080, 0x00800081, 0x00002001, 0x00002080, 0x00800000, 0x00802001,
      0x00000080, 0x00800000, 0x00002000, 0x00802080]"

definition SP5 :: "'w::len word list" where
  "SP5 =
     [0x00000100, 0x02080100, 0x02080000, 0x42000100, 0x00080000, 0x00000100,
      0x40000000, 0x02080000, 0x40080100, 0x00080000, 0x02000100, 0x40080100,
      0x42000100, 0x42080000, 0x00080100, 0x40000000, 0x02000000, 0x40080000,
      0x40080000, 0x00000000, 0x40000100, 0x42080100, 0x42080100, 0x02000100,
      0x42080000, 0x40000100, 0x00000000, 0x42000000, 0x02080100, 0x02000000,
      0x42000000, 0x00080100, 0x00080000, 0x42000100, 0x00000100, 0x02000000,
      0x40000000, 0x02080000, 0x42000100, 0x40080100, 0x02000100, 0x40000000,
      0x42080000, 0x02080100, 0x40080100, 0x00000100, 0x20000000, 0x42080000,
      0x42080100, 0x00080100, 0x42000000, 0x42080100, 0x02080000, 0x02000100,
      0x40000100, 0x00080000, 0x00080100, 0x02000100, 0x40000100, 0x00080000,
      0x00000000, 0x40080000, 0x02080100, 0x40000100]"

definition SP6 :: "'w::len word list" where
  "SP6 =
     [0x20000010, 0x20400000, 0x00004000, 0x20404010, 0x20400000, 0x00000010,
      0x20404010, 0x00400000, 0x20004000, 0x00404010, 0x00400000, 0x20000010,
      0x00400010, 0x20004000, 0x20000000, 0x00004010, 0x00000000, 0x00400010,
      0x20004010, 0x00004000, 0x00404000, 0x20004010, 0x00000010, 0x20400010,
      0x20400010, 0x00000000, 0x00404010, 0x20404000, 0x00004010, 0x00404000,
      0x20404000, 0x20000000, 0x20004000, 0x00000010, 0x20400010, 0x00404000,
      0x20404010, 0x00400000, 0x00004010, 0x20000010, 0x00400000, 0x20004000,
      0x20000000, 0x00004010, 0x20000010, 0x20404010, 0x00404000, 0x20400000,
      0x00404010, 0x20404000, 0x00000000, 0x20400010, 0x00000010, 0x00004000,
      0x20400000, 0x00404010, 0x00004000, 0x00400010, 0x20004010, 0x00000000,
      0x20404000, 0x20000000, 0x00400010, 0x20004010]"

definition SP7 :: "'w::len word list" where
  "SP7 =
     [0x00200000, 0x04200002, 0x04000802, 0x00000000, 0x00000800, 0x04000802,
      0x00200802, 0x04200800, 0x04200802, 0x00200000, 0x00000000, 0x04000002,
      0x00000002, 0x04000000, 0x04200002, 0x00000802, 0x04000800, 0x00200802,
      0x00200002, 0x04000800, 0x04000002, 0x04200000, 0x04200800, 0x00200002,
      0x04200000, 0x00000800, 0x00000802, 0x04200802, 0x00200800, 0x00000002,
      0x04000000, 0x00200800, 0x04000000, 0x00200800, 0x00200000, 0x04000802,
      0x04000802, 0x04200002, 0x04200002, 0x00000002, 0x00200002, 0x04000000,
      0x04000800, 0x00200000, 0x04200800, 0x00000802, 0x00200802, 0x04200800,
      0x00000802, 0x04000002, 0x04200802, 0x04200000, 0x00200800, 0x00000000,
      0x00000002, 0x04200802, 0x00000000, 0x00200802, 0x04200000, 0x00000800,
      0x04000002, 0x04000800, 0x00000800, 0x00200002]"

definition SP8 :: "'w::len word list" where
  "SP8 =
     [0x10001040, 0x00001000, 0x00040000, 0x10041040, 0x10000000, 0x10001040,
      0x00000040, 0x10000000, 0x00040040, 0x10040000, 0x10041040, 0x00041000,
      0x10041000, 0x00041040, 0x00001000, 0x00000040, 0x10040000, 0x10000040,
      0x10001000, 0x00001040, 0x00041000, 0x00040040, 0x10040040, 0x10041000,
      0x00001040, 0x00000000, 0x00000000, 0x10040040, 0x10000040, 0x10001000,
      0x00041040, 0x00040000, 0x00041040, 0x00040000, 0x10041000, 0x00001000,
      0x00000040, 0x10040040, 0x00001000, 0x00041040, 0x10001000, 0x00000040,
      0x10000040, 0x10040000, 0x10040040, 0x10000000, 0x00040000, 0x10001040,
      0x00000000, 0x10041040, 0x00040040, 0x10000040, 0x10040000, 0x10001000,
      0x10001040, 0x00000000, 0x10041040, 0x00041000, 0x00041000, 0x00001040,
      0x00001040, 0x00040040, 0x10000000, 0x10041000]"

section \<open>Key schedule\<close>

text \<open>The 56 key bits selected by \<open>pc1\<close>; a non-zero \<open>pc1m[j]\<close> is \<^const>\<open>True\<close>.\<close>

definition pc1m :: "byte list \<Rightarrow> bool list" where
  "pc1m key = map (\<lambda>l. ucast (key ! drop_bit 3 l) AND of_nat (bytebit ! (l AND 7)) \<noteq> (0 :: u64)) pc1"

text \<open>Both 28-bit halves rotated left by \<open>totrot[i]\<close>.\<close>

definition pcr :: "byte list \<Rightarrow> nat \<Rightarrow> bool list" where
  "pcr key i =
     map (\<lambda>j. let l = j + totrot ! i in if l < 28 then pc1m key ! l else pc1m key ! (l - 28)) [0..<28] @
     map (\<lambda>j. let l = j + totrot ! i in if l < 56 then pc1m key ! l else pc1m key ! (l - 28)) [28..<56]"

text \<open>The word of the bits \<open>pc2[off], \<dots>, pc2[off + 23]\<close>.\<close>

definition pc2_word :: "bool list \<Rightarrow> nat \<Rightarrow> 'w::len word" where
  "pc2_word bits off = fold (\<lambda>j w. if bits ! (pc2 ! (j + off)) then w OR bigbyte ! j else w) [0..<24] 0"

definition EN0 :: nat where "EN0 = 0"
definition DE1 :: nat where "DE1 = 1"

definition deskey :: "byte list \<Rightarrow> nat \<Rightarrow> 'w::len word list" where
  "deskey key edf =
     fold (\<lambda>i kn. let m = (if edf = DE1 then 2 * (15 - i) else 2 * i); n = m + 1
                   in kn[m := pc2_word (pcr key i) 0, n := pc2_word (pcr key i) 24])
       [0..<16] (replicate 32 0)"

fun cookey :: "'w::len word list \<Rightarrow> 'w word list" where
  "cookey (raw0 # raw1 # raw) =
     (push_bit 6 (raw0 AND 0x00fc0000) OR push_bit 10 (raw0 AND 0x00000fc0) OR
        drop_bit 10 (raw1 AND 0x00fc0000) OR drop_bit 6 (raw1 AND 0x00000fc0)) #
     (push_bit 12 (raw0 AND 0x0003f000) OR push_bit 16 (raw0 AND 0x0000003f) OR
        drop_bit 4 (raw1 AND 0x0003f000) OR (raw1 AND 0x0000003f)) # cookey raw"
| "cookey _ = []"

section \<open>One block\<close>

text \<open>\<open>scrunch\<close> and \<open>unscrun\<close>: eight bytes, big-endian, as two words and back.\<close>

definition scrunch :: "byte list \<Rightarrow> 'w::len word \<times> 'w word" where
  "scrunch outof =
     (push_bit 24 (ucast (outof ! 0)) OR push_bit 16 (ucast (outof ! 1)) OR
        push_bit 8 (ucast (outof ! 2)) OR ucast (outof ! 3),
      push_bit 24 (ucast (outof ! 4)) OR push_bit 16 (ucast (outof ! 5)) OR
        push_bit 8 (ucast (outof ! 6)) OR ucast (outof ! 7))"

fun unscrun :: "'w::len word \<times> 'w word \<Rightarrow> byte list" where
  "unscrun (w0, w1) =
     [ucast (drop_bit 24 w0 AND 0xff), ucast (drop_bit 16 w0 AND 0xff),
      ucast (drop_bit 8 w0 AND 0xff), ucast (w0 AND 0xff),
      ucast (drop_bit 24 w1 AND 0xff), ucast (drop_bit 16 w1 AND 0xff),
      ucast (drop_bit 8 w1 AND 0xff), ucast (w1 AND 0xff)]"

text \<open>
  The three-statement pattern of the permutations,
  \<open>work = ((a >> n) ^ b) & m; b ^= work; a ^= (work << n)\<close>.
\<close>

definition swapmove :: "nat \<Rightarrow> 'w::len word \<Rightarrow> 'w word \<times> 'w word \<Rightarrow> 'w word \<times> 'w word" where
  "swapmove n m = (\<lambda>(a, b). let work = (drop_bit n a XOR b) AND m
     in (a XOR push_bit n work, b XOR work))"

definition des_f :: "'w::len word \<Rightarrow> 'w word \<Rightarrow> 'w word \<Rightarrow> 'w word" where
  "des_f right k0 k1 =
     (let work = (push_bit 28 right OR drop_bit 4 right) XOR k0;
          fval = SP7 ! unat (work AND 0x3f);
          fval = fval OR SP5 ! unat (drop_bit 8 work AND 0x3f);
          fval = fval OR SP3 ! unat (drop_bit 16 work AND 0x3f);
          fval = fval OR SP1 ! unat (drop_bit 24 work AND 0x3f);
          work = right XOR k1;
          fval = fval OR SP8 ! unat (work AND 0x3f);
          fval = fval OR SP6 ! unat (drop_bit 8 work AND 0x3f);
          fval = fval OR SP4 ! unat (drop_bit 16 work AND 0x3f)
      in fval OR SP2 ! unat (drop_bit 24 work AND 0x3f))"

text \<open>The loop over \<open>round\<close>: two Feistel half-rounds per iteration, four key words each.\<close>

fun des_rounds :: "'w::len word \<times> 'w word \<Rightarrow> 'w word list \<Rightarrow> 'w word \<times> 'w word" where
  "des_rounds (leftt, right) (k0 # k1 # k2 # k3 # keys) =
     (let leftt = leftt XOR des_f right k0 k1; right = right XOR des_f leftt k2 k3
      in des_rounds (leftt, right) keys)"
| "des_rounds (leftt, right) _ = (leftt, right)"

definition des_ip :: "'w::len word \<times> 'w word \<Rightarrow> 'w word \<times> 'w word" where
  "des_ip = (\<lambda>(leftt, right).
     let (leftt, right) = swapmove 4 0x0f0f0f0f (leftt, right);
         (leftt, right) = swapmove 16 0x0000ffff (leftt, right);
         (right, leftt) = swapmove 2 0x33333333 (right, leftt);
         (right, leftt) = swapmove 8 0x00ff00ff (right, leftt);
         right = (push_bit 1 right OR (drop_bit 31 right AND 1)) AND 0xffffffff;
         (leftt, right) = swapmove 0 0xaaaaaaaa (leftt, right);
         leftt = (push_bit 1 leftt OR (drop_bit 31 leftt AND 1)) AND 0xffffffff
     in (leftt, right))"

definition des_fp :: "'w::len word \<times> 'w word \<Rightarrow> 'w word \<times> 'w word" where
  "des_fp = (\<lambda>(leftt, right).
     let right = push_bit 31 right OR drop_bit 1 right;
         (leftt, right) = swapmove 0 0xaaaaaaaa (leftt, right);
         leftt = push_bit 31 leftt OR drop_bit 1 leftt;
         (leftt, right) = swapmove 8 0x00ff00ff (leftt, right);
         (leftt, right) = swapmove 2 0x33333333 (leftt, right);
         (right, leftt) = swapmove 16 0x0000ffff (right, leftt);
         (right, leftt) = swapmove 4 0x0f0f0f0f (right, leftt)
     in (right, leftt))"

definition desfunc :: "'w::len word \<times> 'w word \<Rightarrow> 'w word list \<Rightarrow> 'w word \<times> 'w word" where
  "desfunc block keys = des_fp (des_rounds (des_ip block) (take 32 keys))"

section \<open>Expanded keys, raw blocks, ECB\<close>

definition DES_KEYBYTES :: nat where "DES_KEYBYTES = 128"
definition DES_KEYLONGS :: nat where "DES_KEYLONGS = 32"
definition DES_BLOCKLEN :: nat where "DES_BLOCKLEN = 8"

definition sizeof_ulong :: "'w::len itself \<Rightarrow> nat" where
  "sizeof_ulong _ = LENGTH('w) div 8"

text \<open>
  The bytes of objects in memory: an \<open>unsigned long\<close> as its bytes, the least significant one first, and back, and an array
  of them. A store of an \<open>unsigned long\<close> into an object with fewer bytes, and a \<open>memcpy\<close> that leaves an array, are
  undefined behaviour.
\<close>

definition sizeof_int :: nat where "sizeof_int = 4"

definition ulong_bytes :: "'w::len word \<Rightarrow> byte list" where
  "ulong_bytes w = map (\<lambda>i. ucast (drop_bit (8 * i) w)) [0..<sizeof_ulong TYPE('w)]"

fun bytes_ulong :: "byte list \<Rightarrow> 'w::len word" where
  "bytes_ulong [] = 0"
| "bytes_ulong (b # bs) = ucast b OR push_bit 8 (bytes_ulong bs)"

fun bytes_ulongs :: "nat \<Rightarrow> byte list \<Rightarrow> 'w::len word list" where
  "bytes_ulongs 0 bs = []"
| "bytes_ulongs (Suc n) bs =
     bytes_ulong (take (sizeof_ulong TYPE('w)) bs) # bytes_ulongs n (drop (sizeof_ulong TYPE('w)) bs)"

definition store_ulong :: "'w::len word \<Rightarrow> byte list \<Rightarrow> byte list option" where
  "store_ulong w obj =
     (if length obj < sizeof_ulong TYPE('w) then None else Some (ulong_bytes w @ drop (sizeof_ulong TYPE('w)) obj))"

definition memcpy :: "byte list \<Rightarrow> byte list \<Rightarrow> nat \<Rightarrow> byte list option" where
  "memcpy dst src n = (if length dst < n \<or> length src < n then None else Some (take n src @ drop n dst))"

text \<open>
  The expansion of a key into the array \<open>pbDesEncKey\<close>, and the number of its bytes into the object that
  \<open>ulDesEncKeyLen\<close> points to. The result has both.
\<close>

definition OPENCOMM_DesExpandEncKey ::
    "'w::len itself \<Rightarrow> byte list \<Rightarrow> byte list \<Rightarrow> byte list \<Rightarrow> (nat + byte list \<times> byte list) option" where
  "OPENCOMM_DesExpandEncKey ulong pbDesKey pbDesEncKey ulDesEncKeyLen =
     (if length pbDesKey \<noteq> 8 then Some (Inl 0xEE20)
      else do {
        let dough = (cookey (deskey pbDesKey EN0) :: 'w word list);
        ulDesEncKeyLen \<leftarrow> store_ulong (of_nat DES_KEYBYTES :: 'w word) ulDesEncKeyLen;
        pbDesEncKey \<leftarrow> memcpy pbDesEncKey (concat (map ulong_bytes dough)) DES_KEYBYTES;
        Some (Inr (pbDesEncKey, ulDesEncKeyLen))
      })"

definition OPENCOMM_DesExpandDecKey ::
    "'w::len itself \<Rightarrow> byte list \<Rightarrow> byte list \<Rightarrow> byte list \<Rightarrow> (nat + byte list \<times> byte list) option" where
  "OPENCOMM_DesExpandDecKey ulong pbDesKey pbDesDecKey ulDesDecKeyLen =
     (if length pbDesKey \<noteq> 8 then Some (Inl 0xEE20)
      else do {
        let dough = (cookey (deskey pbDesKey DE1) :: 'w word list);
        ulDesDecKeyLen \<leftarrow> store_ulong (of_nat DES_KEYBYTES :: 'w word) ulDesDecKeyLen;
        pbDesDecKey \<leftarrow> memcpy pbDesDecKey (concat (map ulong_bytes dough)) DES_KEYBYTES;
        Some (Inr (pbDesDecKey, ulDesDecKeyLen))
      })"

text \<open>
  \<open>ek[32]\<close> is filled from the bytes of the key; when these make fewer than 32 words, \<open>desfunc\<close> reads
  indeterminate ones. The result has the block and the object \<open>ulOutDataLen\<close> points to.
\<close>

definition OPENCOMM_DesEncRaw ::
    "'w::len itself \<Rightarrow> byte list \<Rightarrow> nat \<Rightarrow> byte list \<Rightarrow> byte list \<Rightarrow> (nat + byte list \<times> byte list) option" where
  "OPENCOMM_DesEncRaw ulong pbDesEncKey ulDesEncKeyLen pbInData ulOutDataLen =
     (if length pbInData \<noteq> DES_BLOCKLEN then Some (Inl 0xEE20)
      else if ulDesEncKeyLen \<noteq> DES_KEYBYTES then Some (Inl 0xEE20)
      else if length pbDesEncKey < ulDesEncKeyLen then None
      else do {
        let ek = (bytes_ulongs (ulDesEncKeyLen div sizeof_ulong ulong) pbDesEncKey :: 'w word list);
        if length ek < DES_KEYLONGS then None
        else do {
          let cp = unscrun (desfunc (scrunch pbInData) ek);
          ulOutDataLen \<leftarrow> store_ulong (of_nat DES_BLOCKLEN :: 'w word) ulOutDataLen;
          Some (Inr (cp, ulOutDataLen))
        }
      })"

definition OPENCOMM_DesDecRaw ::
    "'w::len itself \<Rightarrow> byte list \<Rightarrow> nat \<Rightarrow> byte list \<Rightarrow> byte list \<Rightarrow> (nat + byte list \<times> byte list) option" where
  "OPENCOMM_DesDecRaw ulong pbDesDecKey ulDesDecKeyLen pbInData ulOutDataLen =
     (if length pbInData \<noteq> DES_BLOCKLEN then Some (Inl 0xEE20)
      else if ulDesDecKeyLen \<noteq> DES_KEYBYTES then Some (Inl 0xEE20)
      else if length pbDesDecKey < ulDesDecKeyLen then None
      else do {
        let dk = (bytes_ulongs (ulDesDecKeyLen div sizeof_ulong ulong) pbDesDecKey :: 'w word list);
        if length dk < DES_KEYLONGS then None
        else do {
          let cp = unscrun (desfunc (scrunch pbInData) dk);
          ulOutDataLen \<leftarrow> store_ulong (of_nat DES_BLOCKLEN :: 'w word) ulOutDataLen;
          Some (Inr (cp, ulOutDataLen))
        }
      })"

text \<open>
  The loop over the eight-byte blocks, stopping at the first non-zero return value. \<open>out\<close> is the object that
  \<open>pOutDataLen\<close> points to.
\<close>

fun des_loop ::
    "(byte list \<Rightarrow> byte list \<Rightarrow> (nat + byte list \<times> byte list) option) \<Rightarrow> nat \<Rightarrow> byte list \<Rightarrow> byte list \<Rightarrow> (nat + byte list) option" where
  "des_loop raw 0 pInData out = Some (Inr [])"
| "des_loop raw (Suc loops) pInData out =
     (case raw (take 8 pInData) out of
        None \<Rightarrow> None
      | Some (Inl retval) \<Rightarrow> Some (Inl retval)
      | Some (Inr (block, out)) \<Rightarrow>
          (case des_loop raw loops (drop 8 pInData) out of
             Some (Inr rest) \<Rightarrow> Some (Inr (block @ rest)) | r \<Rightarrow> r))"

text \<open>
  \<open>EncKeyLen\<close> and \<open>*pOutDataLen\<close> are \<open>int\<close>s, passed on as \<open>(unsigned long *)\<close>. Their initial bytes, and those of
  \<open>DesEncKeyBuf\<close>, are never read and written as zeros here. The final \<open>*pOutDataLen = nInDataLen\<close> is the length of the
  result.
\<close>

definition read_int32 :: "byte list \<Rightarrow> nat" where
  "read_int32 obj = unat (bytes_ulong (take sizeof_int obj) :: u32)"

definition myic_DESEncrypt :: "'w::len itself \<Rightarrow> byte list \<Rightarrow> byte list \<Rightarrow> (nat + byte list) option" where
  "myic_DESEncrypt ulong pDesKey pInData =
     (if length pInData mod 8 \<noteq> 0 then Some (Inl 0xEE20)
      else if length pDesKey \<noteq> 8 then Some (Inl 0xEE20)
      else do {
        let DesEncKeyBuf = replicate 128 0;
        let EncKeyLen = replicate sizeof_int 0;
        let out = replicate sizeof_int 0;
        r \<leftarrow> OPENCOMM_DesExpandEncKey ulong pDesKey DesEncKeyBuf EncKeyLen;
        (case r of
           Inl retval \<Rightarrow> Some (Inl retval)
         | Inr (DesEncKeyBuf, EncKeyLen) \<Rightarrow>
             des_loop (OPENCOMM_DesEncRaw ulong DesEncKeyBuf (read_int32 EncKeyLen)) (length pInData div 8) pInData out)
      })"

definition myic_DESDecrypt :: "'w::len itself \<Rightarrow> byte list \<Rightarrow> byte list \<Rightarrow> (nat + byte list) option" where
  "myic_DESDecrypt ulong pDesKey pInData =
     (if length pInData mod 8 \<noteq> 0 then Some (Inl 0xEE20)
      else if length pDesKey \<noteq> 8 then Some (Inl 0xEE20)
      else do {
        let DesDecKeyBuf = replicate 128 0;
        let DecKeyLen = replicate sizeof_int 0;
        let out = replicate sizeof_int 0;
        r \<leftarrow> OPENCOMM_DesExpandDecKey ulong pDesKey DesDecKeyBuf DecKeyLen;
        (case r of
           Inl retval \<Rightarrow> Some (Inl retval)
         | Inr (DesDecKeyBuf, DecKeyLen) \<Rightarrow>
             des_loop (OPENCOMM_DesDecRaw ulong DesDecKeyBuf (read_int32 DecKeyLen)) (length pInData div 8) pInData out)
      })"

section \<open>Padding and the exported functions\<close>

text \<open>
  \<open>CW_dataPadAdd\<close> returns no buffer when \<open>malloc\<close> fails; whether it succeeds is the argument
  \<open>mem\<close>. The padded length stays 0 then.
\<close>

definition CW_dataPadAdd :: "bool \<Rightarrow> nat \<Rightarrow> byte list \<Rightarrow> byte list option" where
  "CW_dataPadAdd mem tag date =
     (if \<not> mem then None
      else let padLen = (if tag = 0 then 8 - length date mod 8 else 16 - length date mod 16)
           in Some (date @ replicate padLen (of_nat padLen)))"

definition USER_PASSWORD_KEY :: "byte list" where
  "USER_PASSWORD_KEY = map byte_of_char ''abcd1234''"

definition DesEnc :: "'w::len itself \<Rightarrow> bool \<Rightarrow> byte list \<Rightarrow> (nat + byte list) option" where
  "DesEnc ulong mem pInData =
     (let padDate = (case CW_dataPadAdd mem 0 pInData of None \<Rightarrow> [] | Some d \<Rightarrow> d)
      in myic_DESEncrypt ulong USER_PASSWORD_KEY padDate)"

definition DesEnc_raw :: "'w::len itself \<Rightarrow> byte list \<Rightarrow> (nat + byte list) option" where
  "DesEnc_raw ulong pInData = myic_DESEncrypt ulong USER_PASSWORD_KEY pInData"

definition ERR_MALLOC :: nat where "ERR_MALLOC = 20"
definition ERR_FILECONT :: nat where "ERR_FILECONT = 20"

text \<open>
  \<open>tmpPlain[*pOutDataLen - 1]\<close> is out of bounds for empty input; \<open>char\<close> is signed, so a byte of
  128 or more is negative.
\<close>

definition DesDec :: "'w::len itself \<Rightarrow> bool \<Rightarrow> byte list \<Rightarrow> (nat + byte list) option" where
  "DesDec ulong mem pInData =
     (if \<not> mem then Some (Inl ERR_MALLOC)
      else case myic_DESDecrypt ulong USER_PASSWORD_KEY pInData of
          None \<Rightarrow> None
        | Some (Inl rv) \<Rightarrow> Some (Inl rv)
        | Some (Inr tmpPlain) \<Rightarrow>
            (if tmpPlain = [] then None
             else let padChar = sint (last tmpPlain)
                  in if padChar \<le> 0 \<or> padChar > 8 then Some (Inl ERR_FILECONT)
                     else Some (Inr (take (length tmpPlain - nat padChar) tmpPlain))))"

definition DesDec_raw :: "'w::len itself \<Rightarrow> byte list \<Rightarrow> (nat + byte list) option" where
  "DesDec_raw ulong pInData = myic_DESDecrypt ulong USER_PASSWORD_KEY pInData"

section \<open>The permutations and the rounds are invertible\<close>

lemma drop_push_mask:
  assumes "drop_bit n (push_bit n m) = (m :: 'w::len word)"
  shows "drop_bit n (push_bit n (m AND x)) = m AND x"
proof (rule bit_word_eqI)
  fix k assume k: "k < LENGTH('w)"
  have "bit (drop_bit n (push_bit n m)) k = bit m k" by (simp only: assms)
  with k show "bit (drop_bit n (push_bit n (m AND x))) k = bit (m AND x) k"
    by (auto simp: bit_simps)
qed

lemma swapmove_involution:
  assumes "drop_bit n (push_bit n m) = (m :: 'w::len word)"
  shows "swapmove n m (swapmove n m p) = p"
proof (cases p)
  case (Pair a b)
  let ?w = "(drop_bit n a XOR b) AND m"
  have "(drop_bit n (a XOR push_bit n ?w) XOR (b XOR ?w)) AND m
      = ((drop_bit n a XOR b) XOR (?w XOR ?w)) AND m"
    by (simp only: drop_bit_xor drop_push_mask [OF assms] ac_simps)
  then have "(drop_bit n (a XOR push_bit n ?w) XOR (b XOR ?w)) AND m = ?w"
    by simp
  then show ?thesis
    by (simp only: Pair swapmove_def Let_def prod.case) (simp only: xor.assoc xor_self_eq xor.right_neutral)
qed

lemma swapmove_0_sym: "swapmove 0 m (b, a) = (snd (swapmove 0 m (a, b)), fst (swapmove 0 m (a, b)))"
  by (simp add: swapmove_def Let_def xor.commute)

lemma rotl_rotr [simp]:
  "(push_bit 1 (push_bit 31 w OR drop_bit 1 w) OR (drop_bit 31 (push_bit 31 w OR drop_bit 1 w) AND 1)) AND 0xffffffff = (w :: u32)"
  unfolding u32_eq_bits_iff
  by (simp add: bit_simps upt_rec del: push_bit_Suc One_nat_def) (simp add: numeral_eq_Suc)


lemma swapmove_back:
  "swapmove n m p = q \<Longrightarrow> drop_bit n (push_bit n m) = m \<Longrightarrow> swapmove n m q = p"
  using swapmove_involution by blast

lemma swapmove_sym_inv: "swapmove 0 m p = (a, b) \<Longrightarrow> swapmove 0 m (b, a) = (snd p, fst (p :: u32 \<times> u32))"
  using swapmove_involution [of 0 m p] swapmove_0_sym [of m b a] by simp

lemma des_ip_fp: "des_ip (des_fp (leftt, right)) = (right, leftt :: u32)"
proof -
  let ?r0 = "push_bit 31 right OR drop_bit 1 right"
  obtain l1 r1 where 1: "swapmove 0 0xaaaaaaaa (leftt, ?r0) = (l1, r1)" by (rule prod.exhaust)
  let ?l1 = "push_bit 31 l1 OR drop_bit 1 l1"
  obtain l2 r2 where 2: "swapmove 8 0x00ff00ff (?l1, r1) = (l2, r2)" by (rule prod.exhaust)
  obtain l3 r3 where 3: "swapmove 2 0x33333333 (l2, r2) = (l3, r3)" by (rule prod.exhaust)
  obtain l4 r4 where 4: "swapmove 16 0x0000ffff (r3, l3) = (r4, l4)" by (rule prod.exhaust)
  obtain l5 r5 where 5: "swapmove 4 0x0f0f0f0f (r4, l4) = (r5, l5)" by (rule prod.exhaust)
  have fp: "des_fp (leftt, right) = (r5, l5)"
    by (simp only: des_fp_def Let_def prod.case 1 2 3 4 5)
  have "swapmove 4 0x0f0f0f0f (r5, l5) = (r4, l4)" "swapmove 16 0x0000ffff (r4, l4) = (r3, l3)"
    "swapmove 2 0x33333333 (l3, r3) = (l2, r2)" "swapmove 8 0x00ff00ff (l2, r2) = (?l1, r1)"
    by (rule swapmove_back [OF 5] swapmove_back [OF 4] swapmove_back [OF 3] swapmove_back [OF 2], simp)+
  moreover have "swapmove 0 0xaaaaaaaa (r1, l1) = (?r0, leftt)"
    using swapmove_sym_inv [OF 1] by (simp only: fst_conv snd_conv)
  ultimately show ?thesis
    by (simp only: fp des_ip_def Let_def prod.case rotl_rotr)
qed

section \<open>Feistel\<close>

fun rev_pairs :: "'a list \<Rightarrow> 'a list" where
  "rev_pairs (a # b # xs) = rev_pairs xs @ [a, b]"
| "rev_pairs xs = xs"

lemma length_rev_pairs [simp]: "length (rev_pairs xs) = length xs"
  by (induction xs rule: rev_pairs.induct) auto

lemma des_rounds_append:
  "length xs mod 4 = 0 \<Longrightarrow> des_rounds p (xs @ ys) = des_rounds (des_rounds p xs) ys"
proof (induction p xs rule: des_rounds.induct)
  case (1 l r k0 k1 k2 k3 keys)
  have m: "length keys mod 4 = 0" using 1(2) by simp
  show ?case
    by (simp only: append_Cons des_rounds.simps(1) Let_def 1(1) [OF refl refl m])
qed auto

lemma des_rounds_rev:
  assumes "length keys mod 4 = 0"
  shows "des_rounds (prod.swap (des_rounds p keys)) (rev_pairs keys) = prod.swap p"
  using assms
proof (induction p keys rule: des_rounds.induct)
  case (1 l r k0 k1 k2 k3 keys)
  define l' where "l' = l XOR des_f r k0 k1"
  define r' where "r' = r XOR des_f l' k2 k3"
  have m: "length keys mod 4 = 0" using 1(2) by simp
  have IH: "des_rounds (prod.swap (des_rounds (l', r') keys)) (rev_pairs keys) = (r', l')"
    using 1(1) [OF l'_def r'_def m] by simp
  have "des_rounds (l, r) (k0 # k1 # k2 # k3 # keys) = des_rounds (l', r') keys"
    by (simp add: l'_def r'_def Let_def)
  moreover have "rev_pairs (k0 # k1 # k2 # k3 # keys) = rev_pairs keys @ [k2, k3, k0, k1]"
    by simp
  moreover have r: "r' XOR des_f l' k2 k3 = r" and l: "l' XOR des_f r k0 k1 = l"
    by (simp_all only: r'_def l'_def xor.assoc xor_self_eq xor.right_neutral)
  have "des_rounds (r', l') [k2, k3, k0, k1] = (r, l)"
    by (simp only: des_rounds.simps Let_def r l)
  ultimately show ?case
    using IH m by (simp only: des_rounds_append length_rev_pairs swap_simp)
qed auto

lemma des_swap_ip: "des_ip (des_fp (prod.swap p)) = (p :: u32 \<times> u32)"
  by (cases p) (simp add: des_ip_fp)

text \<open>For the other order: \<open>des_fp\<close> is injective by the above, hence onto.\<close>

lemma des_fp_ip: "des_fp (prod.swap (des_ip p)) = (p :: u32 \<times> u32)"
proof -
  have inj: "inj (des_fp \<circ> prod.swap :: u32 \<times> u32 \<Rightarrow> u32 \<times> u32)"
    by (rule inj_on_inverseI [of _ des_ip]) (simp add: des_swap_ip)
  then have "surj (des_fp \<circ> prod.swap :: u32 \<times> u32 \<Rightarrow> u32 \<times> u32)"
    by (rule finite_UNIV_inj_surj [OF finite])
  then obtain q where "p = des_fp (prod.swap q)"
    by (metis comp_apply surjD)
  then show ?thesis by (simp add: des_swap_ip)
qed

lemma desfunc_inverse:
  assumes "length keys = 32"
  shows "desfunc (desfunc block keys) (rev_pairs keys) = (block :: u32 \<times> u32)"
proof -
  have "des_rounds (prod.swap (des_rounds (des_ip block) keys)) (rev_pairs keys) = prod.swap (des_ip block)"
    by (rule des_rounds_rev) (simp add: assms)
  moreover have "des_ip (des_fp (des_rounds (des_ip block) keys)) = prod.swap (des_rounds (des_ip block) keys)"
    using des_swap_ip [of "prod.swap (des_rounds (des_ip block) keys)"] by simp
  ultimately show ?thesis
    by (simp add: desfunc_def assms des_fp_ip)
qed

section \<open>Key schedules\<close>

lemma cookey_append: "even (length xs) \<Longrightarrow> cookey (xs @ ys) = cookey xs @ cookey ys"
  by (induction xs rule: cookey.induct) auto

lemma cookey_rev_pairs: "even (length raw) \<Longrightarrow> cookey (rev_pairs raw) = rev_pairs (cookey raw)"
  by (induction raw rule: cookey.induct) (auto simp: cookey_append)

lemma length_cookey: "length (cookey raw) = 2 * (length raw div 2)"
  by (induction raw rule: cookey.induct) auto

lemma length_fold_update: "length (fold (\<lambda>i kn. kn[f i := g i, h i := k i]) is xs) = length xs"
  by (induction "is" arbitrary: xs) auto

lemma length_deskey [simp]: "length (deskey key edf) = 32"
  by (simp only: deskey_def Let_def length_fold_update length_replicate)

lemma deskey_DE1: "deskey key DE1 = rev_pairs (deskey key EN0 :: 'w::len word list)"
  by (simp add: deskey_def EN0_def DE1_def Let_def upt_rec numeral_eq_Suc)


lemma des_schedules:
  "cookey (deskey key DE1) = rev_pairs (cookey (deskey key EN0))"
  by (simp add: deskey_DE1 cookey_rev_pairs)

section \<open>Bytes and words\<close>

lemma list_8: "length xs = 8 \<Longrightarrow> \<exists>a b c d e f g h. xs = [a, b, c, d, e, f, g, h]"
  by (auto simp: numeral_eq_Suc length_Suc_conv)

lemma unscrun_scrunch:
  assumes "length bs = 8"
  shows "unscrun (scrunch bs :: u32 \<times> u32) = bs"
proof -
  have "ucast (drop_bit 24 (push_bit 24 (ucast a) OR push_bit 16 (ucast b) OR push_bit 8 (ucast c) OR ucast d :: u32) AND 0xff) = a"
    "ucast (drop_bit 16 (push_bit 24 (ucast a) OR push_bit 16 (ucast b) OR push_bit 8 (ucast c) OR ucast d :: u32) AND 0xff) = b"
    "ucast (drop_bit 8 (push_bit 24 (ucast a) OR push_bit 16 (ucast b) OR push_bit 8 (ucast c) OR ucast d :: u32) AND 0xff) = c"
    "ucast ((push_bit 24 (ucast a) OR push_bit 16 (ucast b) OR push_bit 8 (ucast c) OR ucast d :: u32) AND 0xff) = d"
    for a b c d :: byte
    unfolding byte_eq_bits_iff by (simp_all add: bit_simps upt_rec bit_byte_high)
  then show ?thesis
    using list_8 [OF assms] by (auto simp: scrunch_def)
qed

lemma scrunch_word:
  "push_bit 24 (ucast (ucast (drop_bit 24 w AND 0xff) :: byte)) OR
   push_bit 16 (ucast (ucast (drop_bit 16 w AND 0xff) :: byte)) OR
   push_bit 8 (ucast (ucast (drop_bit 8 w AND 0xff) :: byte)) OR
   ucast (ucast (w AND 0xff) :: byte) = (w :: u32)"
  unfolding u32_eq_bits_iff by (simp add: bit_simps upt_rec) (simp add: numeral_eq_Suc)

lemma scrunch_unscrun: "scrunch (unscrun p) = (p :: u32 \<times> u32)"
  by (cases p) (simp add: scrunch_def scrunch_word)

section \<open>Raw blocks, ECB and padding\<close>

lemmas des_sizes = DES_KEYBYTES_def DES_KEYLONGS_def DES_BLOCKLEN_def sizeof_ulong_def

lemma length_unscrun [simp]: "length (unscrun p) = 8"
  by (cases p) simp

lemma length_schedule [simp]: "length (cookey (deskey key edf)) = 32"
  by (simp add: length_cookey)

lemma length_ulong_bytes [simp]: "length (ulong_bytes (w :: 'w::len word)) = sizeof_ulong TYPE('w)"
  by (simp add: ulong_bytes_def)

lemma sizeof_32 [simp]: "sizeof_ulong TYPE(32) = 4"
  by (simp add: sizeof_ulong_def)

lemma bytes_ulong_32: "bytes_ulong (ulong_bytes w) = (w :: u32)"
proof -
  have four: "[0..<4] = [0, 1, 2, 3 :: nat]" by (simp add: upt_rec)
  show ?thesis unfolding u32_eq_bits_iff ulong_bytes_def sizeof_32 four
    by (simp add: bit_simps upt_rec) (simp add: numeral_eq_Suc)
qed

lemma bytes_ulongs_32: "bytes_ulongs (length ws) (concat (map ulong_bytes ws) @ rest) = (ws :: u32 list)"
  by (induction ws) (simp_all add: bytes_ulong_32)

lemma length_words_32: "length (concat (map ulong_bytes (ws :: u32 list))) = 4 * length ws"
  by (induction ws) simp_all

lemma length_bytes_ulongs [simp]: "length (bytes_ulongs n bs) = n"
  by (induction n arbitrary: bs) simp_all

lemma store_int_32: "length obj = 4 \<Longrightarrow> store_ulong (w :: u32) obj = Some (ulong_bytes w)"
  by (simp add: store_ulong_def)

lemma read_key_bytes: "read_int32 (ulong_bytes (128 :: u32)) = 128"
  by (simp add: read_int32_def sizeof_int_def bytes_ulong_32)

lemma ExpandKey_32:
  assumes "length key = 8" and "length buf = 128" and "length obj = 4"
  shows "OPENCOMM_DesExpandEncKey TYPE(32) key buf obj =
      Some (Inr (concat (map ulong_bytes (cookey (deskey key EN0) :: u32 list)), ulong_bytes (128 :: u32)))"
    and "OPENCOMM_DesExpandDecKey TYPE(32) key buf obj =
      Some (Inr (concat (map ulong_bytes (rev_pairs (cookey (deskey key EN0)) :: u32 list)), ulong_bytes (128 :: u32)))"
  using assms
  by (simp_all add: OPENCOMM_DesExpandEncKey_def OPENCOMM_DesExpandDecKey_def DES_KEYBYTES_def des_schedules store_int_32 memcpy_def length_words_32)

definition des_block :: "u32 list \<Rightarrow> byte list \<Rightarrow> byte list" where
  "des_block keys bs = unscrun (desfunc (scrunch bs) keys)"

lemma length_des_block [simp]: "length (des_block keys bs) = 8"
  by (simp add: des_block_def)

lemma Raw_32:
  assumes "length keys = 32" and "length bs = 8" and "length obj = 4"
  shows "OPENCOMM_DesEncRaw TYPE(32) (concat (map ulong_bytes keys)) 128 bs obj = Some (Inr (des_block keys bs, ulong_bytes (8 :: u32)))"
    and "OPENCOMM_DesDecRaw TYPE(32) (concat (map ulong_bytes keys)) 128 bs obj = Some (Inr (des_block keys bs, ulong_bytes (8 :: u32)))"
  using assms bytes_ulongs_32 [of keys "[]"]
  by (simp_all add: OPENCOMM_DesEncRaw_def OPENCOMM_DesDecRaw_def DES_KEYBYTES_def DES_KEYLONGS_def DES_BLOCKLEN_def des_block_def
      length_words_32 store_int_32)

lemma des_block_inverse:
  assumes "length keys = 32" and "length bs = 8"
  shows "des_block (rev_pairs keys) (des_block keys bs) = bs"
  using assms by (simp add: des_block_def scrunch_unscrun desfunc_inverse unscrun_scrunch)

text \<open>Electronic code book: a block function applied to every eight bytes.\<close>

fun ecb :: "(byte list \<Rightarrow> byte list) \<Rightarrow> nat \<Rightarrow> byte list \<Rightarrow> byte list" where
  "ecb f 0 bs = []"
| "ecb f (Suc n) bs = f (take 8 bs) @ ecb f n (drop 8 bs)"

lemma des_loop_ecb:
  assumes "\<And>bs out. length bs = 8 \<Longrightarrow> length out = 4 \<Longrightarrow> \<exists>out'. raw bs out = Some (Inr (f bs, out')) \<and> length out' = 4"
    and "length bs = 8 * n" and "length out = 4"
  shows "des_loop raw n bs out = Some (Inr (ecb f n bs))"
  using assms(2,3)
proof (induction n arbitrary: bs out)
  case (Suc n)
  then obtain out' where "raw (take 8 bs) out = Some (Inr (f (take 8 bs), out'))" "length out' = 4"
    using assms(1) [of "take 8 bs" out] by auto
  with Suc show ?case by simp
qed simp

lemma length_ecb: "(\<And>bs. length (f bs) = 8) \<Longrightarrow> length (ecb f n bs) = 8 * n"
  by (induction n arbitrary: bs) auto

lemma ecb_inverse:
  assumes "\<And>bs. length (f bs) = 8" and "\<And>bs. length bs = 8 \<Longrightarrow> g (f bs) = bs" and "length bs = 8 * n"
  shows "ecb g n (ecb f n bs) = bs"
  using assms(3) by (induction n arbitrary: bs) (auto simp: assms(1,2))

lemma myic_DESEncrypt_32:
  assumes "length key = 8" and "length bs = 8 * n"
  shows "myic_DESEncrypt TYPE(32) key bs = Some (Inr (ecb (des_block (cookey (deskey key EN0))) n bs))"
    and "myic_DESDecrypt TYPE(32) key bs = Some (Inr (ecb (des_block (rev_pairs (cookey (deskey key EN0)))) n bs))"
proof -
  let ?ks = "cookey (deskey key EN0) :: u32 list"
  have out: "length (replicate sizeof_int (0 :: byte)) = 4" by (simp add: sizeof_int_def)
  have "length ?ks = 32" "length (rev_pairs ?ks) = 32" by (simp_all add: length_rev_pairs)
  note raw = Raw_32(1) [OF this(1)] Raw_32(2) [OF this(2)]
  have "des_loop (OPENCOMM_DesEncRaw TYPE(32) (concat (map ulong_bytes ?ks)) 128) n bs (replicate sizeof_int 0)
      = Some (Inr (ecb (des_block ?ks) n bs))"
    by (rule des_loop_ecb [OF _ assms(2) out]) (simp add: raw(1))
  with assms out show "myic_DESEncrypt TYPE(32) key bs = Some (Inr (ecb (des_block ?ks) n bs))"
    by (simp add: myic_DESEncrypt_def ExpandKey_32 read_key_bytes)
  have "des_loop (OPENCOMM_DesDecRaw TYPE(32) (concat (map ulong_bytes (rev_pairs ?ks))) 128) n bs (replicate sizeof_int 0)
      = Some (Inr (ecb (des_block (rev_pairs ?ks)) n bs))"
    by (rule des_loop_ecb [OF _ assms(2) out]) (simp add: raw(2))
  with assms out show "myic_DESDecrypt TYPE(32) key bs = Some (Inr (ecb (des_block (rev_pairs ?ks)) n bs))"
    by (simp add: myic_DESDecrypt_def ExpandKey_32 read_key_bytes)
qed

lemma pad_length: "8 dvd length (date @ replicate (8 - length date mod 8) (x :: byte))"
  by simp presburger

lemma DesEnc_DesDec:
  "\<exists>cipher. DesEnc TYPE(32) True plain = Some (Inr cipher) \<and> DesDec TYPE(32) True cipher = Some (Inr plain)
     \<and> length cipher = 8 * (length plain div 8 + 1)"
proof -
  define padLen where "padLen = 8 - length plain mod 8"
  define n where "n = length plain div 8 + 1"
  define padDate where "padDate = plain @ replicate padLen (of_nat padLen :: byte)"
  have pad: "1 \<le> padLen" "padLen \<le> 8" by (auto simp: padLen_def Suc_leI)
  have len: "length padDate = 8 * n"
    unfolding padDate_def n_def padLen_def length_append length_replicate by presburger
  have key: "length USER_PASSWORD_KEY = 8" by (simp add: USER_PASSWORD_KEY_def)
  let ?ks = "cookey (deskey USER_PASSWORD_KEY EN0) :: u32 list"
  define cipher where "cipher = ecb (des_block ?ks) n padDate"
  have enc: "DesEnc TYPE(32) True plain = Some (Inr cipher)"
    using myic_DESEncrypt_32(1) [OF key len]
    by (simp add: DesEnc_def CW_dataPadAdd_def Let_def cipher_def padDate_def padLen_def)
  have clen: "length cipher = 8 * n"
    unfolding cipher_def by (rule length_ecb) simp
  have "ecb (des_block (rev_pairs ?ks)) n cipher = padDate"
    unfolding cipher_def by (rule ecb_inverse [OF _ _ len]) (simp_all add: des_block_inverse)
  then have dec: "myic_DESDecrypt TYPE(32) USER_PASSWORD_KEY cipher = Some (Inr padDate)"
    using myic_DESEncrypt_32(2) [OF key clen] by simp
  have "padLen \<in> {1, 2, 3, 4, 5, 6, 7, 8}" using pad by auto
  then have "sint (of_nat padLen :: byte) = int padLen" by auto
  moreover have "last padDate = of_nat padLen" "padDate \<noteq> []"
    using pad by (auto simp: padDate_def)
  ultimately have "DesDec TYPE(32) True cipher = Some (Inr plain)"
    using pad by (simp add: DesDec_def dec Let_def) (simp add: padDate_def)
  with enc clen show ?thesis by (auto simp: n_def)
qed

text \<open>What callers see of the cipher on a platform where it is defined.\<close>

definition des_seal :: "byte list \<Rightarrow> byte list" where
  "des_seal plain = (case DesEnc TYPE(32) True plain of Some (Inr cipher) \<Rightarrow> cipher | _ \<Rightarrow> [])"

definition des_open :: "byte list \<Rightarrow> byte list option" where
  "des_open cipher = (case DesDec TYPE(32) True cipher of Some (Inr plain) \<Rightarrow> Some plain | _ \<Rightarrow> None)"

lemma DesEnc_seal: "DesEnc TYPE(32) True plain = Some (Inr (des_seal plain))"
  using DesEnc_DesDec [of plain] by (auto simp: des_seal_def)

lemma length_des_seal: "length (des_seal plain) = 8 * (length plain div 8 + 1)"
  using DesEnc_DesDec [of plain] by (auto simp: des_seal_def)

lemma des_open_seal: "des_open (des_seal plain) = Some plain"
  using DesEnc_DesDec [of plain] by (auto simp: des_seal_def des_open_def)

interpretation des: codec des_seal des_open
  by unfold_locales (rule des_open_seal)

text \<open>
  C1: with a four-byte \<open>unsigned long\<close>, \<open>DesEnc\<close> succeeds on every input with a ciphertext of whole
  blocks, and \<open>DesDec\<close> of that ciphertext succeeds, finds the padding and gives the plaintext back
  byte for byte.
\<close>

theorem DesEnc_DesDec_roundtrip:
  "\<exists>cipher. DesEnc TYPE(32) True plain = Some (Inr cipher) \<and> DesDec TYPE(32) True cipher = Some (Inr plain)
     \<and> length cipher = 8 * (length plain div 8 + 1)"
  by (rule DesEnc_DesDec)

section \<open>The combined tables and FIPS 46-3\<close>

text \<open>
  The S-boxes and the permutation P of the standard. An entry of \<open>SP1\<close>, \<dots>, \<open>SP8\<close> should be the
  S-box output placed by P, in the representation rotated left by one bit.
\<close>

definition fips_S :: "nat list list" where
  "fips_S = [
    [14, 4, 13, 1, 2, 15, 11, 8, 3, 10, 6, 12, 5, 9, 0, 7,
      0, 15, 7, 4, 14, 2, 13, 1, 10, 6, 12, 11, 9, 5, 3, 8,
      4, 1, 14, 8, 13, 6, 2, 11, 15, 12, 9, 7, 3, 10, 5, 0,
      15, 12, 8, 2, 4, 9, 1, 7, 5, 11, 3, 14, 10, 0, 6, 13],
    [15, 1, 8, 14, 6, 11, 3, 4, 9, 7, 2, 13, 12, 0, 5, 10,
      3, 13, 4, 7, 15, 2, 8, 14, 12, 0, 1, 10, 6, 9, 11, 5,
      0, 14, 7, 11, 10, 4, 13, 1, 5, 8, 12, 6, 9, 3, 2, 15,
      13, 8, 10, 1, 3, 15, 4, 2, 11, 6, 7, 12, 0, 5, 14, 9],
    [10, 0, 9, 14, 6, 3, 15, 5, 1, 13, 12, 7, 11, 4, 2, 8,
      13, 7, 0, 9, 3, 4, 6, 10, 2, 8, 5, 14, 12, 11, 15, 1,
      13, 6, 4, 9, 8, 15, 3, 0, 11, 1, 2, 12, 5, 10, 14, 7,
      1, 10, 13, 0, 6, 9, 8, 7, 4, 15, 14, 3, 11, 5, 2, 12],
    [7, 13, 14, 3, 0, 6, 9, 10, 1, 2, 8, 5, 11, 12, 4, 15,
      13, 8, 11, 5, 6, 15, 0, 3, 4, 7, 2, 12, 1, 10, 14, 9,
      10, 6, 9, 0, 12, 11, 7, 13, 15, 1, 3, 14, 5, 2, 8, 4,
      3, 15, 0, 6, 10, 1, 13, 8, 9, 4, 5, 11, 12, 7, 2, 14],
    [2, 12, 4, 1, 7, 10, 11, 6, 8, 5, 3, 15, 13, 0, 14, 9,
      14, 11, 2, 12, 4, 7, 13, 1, 5, 0, 15, 10, 3, 9, 8, 6,
      4, 2, 1, 11, 10, 13, 7, 8, 15, 9, 12, 5, 6, 3, 0, 14,
      11, 8, 12, 7, 1, 14, 2, 13, 6, 15, 0, 9, 10, 4, 5, 3],
    [12, 1, 10, 15, 9, 2, 6, 8, 0, 13, 3, 4, 14, 7, 5, 11,
      10, 15, 4, 2, 7, 12, 9, 5, 6, 1, 13, 14, 0, 11, 3, 8,
      9, 14, 15, 5, 2, 8, 12, 3, 7, 0, 4, 10, 1, 13, 11, 6,
      4, 3, 2, 12, 9, 5, 15, 10, 11, 14, 1, 7, 6, 0, 8, 13],
    [4, 11, 2, 14, 15, 0, 8, 13, 3, 12, 9, 7, 5, 10, 6, 1,
      13, 0, 11, 7, 4, 9, 1, 10, 14, 3, 5, 12, 2, 15, 8, 6,
      1, 4, 11, 13, 12, 3, 7, 14, 10, 15, 6, 8, 0, 5, 9, 2,
      6, 11, 13, 8, 1, 4, 10, 7, 9, 5, 0, 15, 14, 2, 3, 12],
    [13, 2, 8, 4, 6, 15, 11, 1, 10, 9, 3, 14, 5, 0, 12, 7,
      1, 15, 13, 8, 10, 3, 7, 4, 12, 5, 6, 11, 0, 14, 9, 2,
      7, 11, 4, 1, 9, 12, 14, 2, 0, 6, 10, 13, 15, 3, 5, 8,
      2, 1, 14, 7, 4, 10, 8, 13, 15, 12, 9, 0, 3, 5, 6, 11]]"

definition fips_P :: "nat list" where
  "fips_P = [16, 7, 20, 21, 29, 12, 28, 17, 1, 15, 23, 26, 5, 18, 31, 10,
      2, 8, 24, 14, 32, 27, 3, 9, 19, 13, 30, 6, 22, 11, 4, 25]"

text \<open>The weight, after P and the rotation, of output bit \<open>b\<close> (most significant first) of S-box \<open>i\<close>.\<close>

definition fips_weight :: "nat \<Rightarrow> nat \<Rightarrow> nat" where
  "fips_weight i b = 2 ^ ((32 - length (takeWhile (\<lambda>p. p \<noteq> 4 * i + b + 1) fips_P)) mod 32)"

definition fips_sp_row :: "nat list \<Rightarrow> nat list \<Rightarrow> nat \<Rightarrow> 'w::len word" where
  "fips_sp_row box ws x =
     (let v = box ! (16 * (2 * (x div 32) + x mod 2) + x div 2 mod 16)
      in of_nat ((if odd (v div 8) then ws ! 0 else 0) + (if odd (v div 4) then ws ! 1 else 0)
           + (if odd (v div 2) then ws ! 2 else 0) + (if odd v then ws ! 3 else 0)))"

definition fips_sp :: "nat \<Rightarrow> 'w::len word list" where
  "fips_sp i = map (fips_sp_row (fips_S ! i) (map (fips_weight i) [0..<4])) [0..<64]"

lemma fips_weights_0: "map (fips_weight 0) [0..<4] = [16777216, 65536, 1024, 4]"
  by (simp add: fips_weight_def fips_P_def upt_rec)

lemma fips_weights_1: "map (fips_weight 1) [0..<4] = [1048576, 32, 2147483648, 32768]"
  by (simp add: fips_weight_def fips_P_def upt_rec)

lemma fips_weights_2: "map (fips_weight 2) [0..<4] = [512, 131072, 8, 134217728]"
  by (simp add: fips_weight_def fips_P_def upt_rec)

lemma fips_weights_3: "map (fips_weight 3) [0..<4] = [128, 8192, 8388608, 1]"
  by (simp add: fips_weight_def fips_P_def upt_rec)

lemma fips_weights_4: "map (fips_weight 4) [0..<4] = [33554432, 524288, 256, 1073741824]"
  by (simp add: fips_weight_def fips_P_def upt_rec)

lemma fips_weights_5: "map (fips_weight 5) [0..<4] = [536870912, 16, 4194304, 16384]"
  by (simp add: fips_weight_def fips_P_def upt_rec)

lemma fips_weights_6: "map (fips_weight 6) [0..<4] = [2, 2097152, 2048, 67108864]"
  by (simp add: fips_weight_def fips_P_def upt_rec)

lemma fips_weights_7: "map (fips_weight 7) [0..<4] = [268435456, 64, 262144, 4096]"
  by (simp add: fips_weight_def fips_P_def upt_rec)

lemma fips_sp_0: "fips_sp 0 = (SP1 :: u32 list)"
  unfolding fips_sp_def fips_weights_0 by (simp add: fips_sp_row_def fips_S_def SP1_def upt_rec)

lemma fips_sp_1: "fips_sp 1 = (SP2 :: u32 list)"
  unfolding fips_sp_def fips_weights_1 by (simp add: fips_sp_row_def fips_S_def SP2_def upt_rec)

lemma fips_sp_2: "fips_sp 2 = (SP3 :: u32 list)"
  unfolding fips_sp_def fips_weights_2 by (simp add: fips_sp_row_def fips_S_def SP3_def upt_rec)

lemma fips_sp_3: "fips_sp 3 = (SP4 :: u32 list)"
  unfolding fips_sp_def fips_weights_3 by (simp add: fips_sp_row_def fips_S_def SP4_def upt_rec)

lemma fips_sp_4: "fips_sp 4 = (SP5[46 := 0x02000000, 53 := 0, 54 := 0x40080000, 55 := 0x42000000] :: u32 list)"
  unfolding fips_sp_def fips_weights_4 by (simp add: fips_sp_row_def fips_S_def SP5_def upt_rec)

lemma fips_sp_5: "fips_sp 5 = (SP6 :: u32 list)"
  unfolding fips_sp_def fips_weights_5 by (simp add: fips_sp_row_def fips_S_def SP6_def upt_rec)

lemma fips_sp_6: "fips_sp 6 = (SP7 :: u32 list)"
  unfolding fips_sp_def fips_weights_6 by (simp add: fips_sp_row_def fips_S_def SP7_def upt_rec)

lemma fips_sp_7: "fips_sp 7 = (SP8 :: u32 list)"
  unfolding fips_sp_def fips_weights_7 by (simp add: fips_sp_row_def fips_S_def SP8_def upt_rec)

text \<open>
  C25: the tables \<open>SP1\<close> to \<open>SP8\<close> are the standard's S-boxes followed by P, except that \<open>SP5\<close> has four
  wrong entries: at the indices 46, 53, 54 and 55 it holds other values, so that the cipher is not
  the DES of FIPS 46-3 (it stays invertible, as the round trip shows).
\<close>

theorem SP_tables_FIPS:
  "map fips_sp [0..<8] = [SP1, SP2, SP3, SP4,
     SP5[46 := 0x02000000, 53 := 0x00000000, 54 := 0x40080000, 55 := 0x42000000],
     SP6, SP7, SP8 :: u32 list] \<and>
   map ((!) SP5) [46, 53, 54, 55] = [0x20000000, 0x02000100, 0x40000100, 0x00080000 :: u32]"
proof -
  have upt: "[0..<8] = [0, 1, 2, 3, 4, 5, 6, 7 :: nat]"
    by (simp add: upt_rec)
  show ?thesis
    unfolding upt list.map fips_sp_0 fips_sp_1 fips_sp_2 fips_sp_3 fips_sp_4 fips_sp_5 fips_sp_6 fips_sp_7
    by (simp add: SP5_def)
qed

section \<open>Error behaviour\<close>

lemma sizeof_64 [simp]: "sizeof_ulong TYPE(64) = 8"
  by (simp add: sizeof_ulong_def)

lemma length_words_64: "length (concat (map ulong_bytes (ws :: u64 list))) = 8 * length ws"
  by (induction ws) simp_all

text \<open>
  C36: with an eight-byte \<open>unsigned long\<close> (LP64) no well-formed data can be encrypted or decrypted: the number of key
  bytes is stored as an \<open>unsigned long\<close> into an \<open>int\<close>, beyond its end. This is not only the length variables: with
  objects of eight bytes for all lengths the key still does not fit, since its 128 bytes have half of the 32 words, and the
  rounds read words of \<open>ek\<close> and \<open>dk\<close> that were never written.
\<close>

theorem DES_LP64_undefined:
  assumes "length key = 8" and "length bs mod 8 = 0" and "length block = 8" and "length buf = 128" and "8 \<le> length obj" and "8 \<le> length out"
  shows "myic_DESEncrypt TYPE(64) key bs = None \<and> myic_DESDecrypt TYPE(64) key bs = None
    \<and> (\<exists>ek obj'. OPENCOMM_DesExpandEncKey TYPE(64) key buf obj = Some (Inr (ek, obj')) \<and> OPENCOMM_DesEncRaw TYPE(64) ek 128 block out = None)
    \<and> (\<exists>dk obj'. OPENCOMM_DesExpandDecKey TYPE(64) key buf obj = Some (Inr (dk, obj')) \<and> OPENCOMM_DesDecRaw TYPE(64) dk 128 block out = None)"
proof -
  have "store_ulong (128 :: u64) (replicate sizeof_int 0) = None" by (simp add: store_ulong_def sizeof_int_def)
  then have "myic_DESEncrypt TYPE(64) key bs = None" "myic_DESDecrypt TYPE(64) key bs = None"
    using assms(1,2)
    by (simp_all add: myic_DESEncrypt_def myic_DESDecrypt_def OPENCOMM_DesExpandEncKey_def OPENCOMM_DesExpandDecKey_def DES_KEYBYTES_def)
  moreover have "OPENCOMM_DesEncRaw TYPE(64) ek 128 block out = None" "OPENCOMM_DesDecRaw TYPE(64) ek 128 block out = None" for ek
    using assms(3) by (simp_all add: OPENCOMM_DesEncRaw_def OPENCOMM_DesDecRaw_def DES_KEYBYTES_def DES_KEYLONGS_def DES_BLOCKLEN_def)
  moreover have "\<exists>ek obj'. OPENCOMM_DesExpandEncKey TYPE(64) key buf obj = Some (Inr (ek, obj'))"
    "\<exists>dk obj'. OPENCOMM_DesExpandDecKey TYPE(64) key buf obj = Some (Inr (dk, obj'))"
    using assms(1,4,5)
    by (simp_all add: OPENCOMM_DesExpandEncKey_def OPENCOMM_DesExpandDecKey_def DES_KEYBYTES_def store_ulong_def memcpy_def length_words_64)
  ultimately show ?thesis by metis
qed

theorem DES_LP64_undefined_witness:
  "myic_DESEncrypt TYPE(64) USER_PASSWORD_KEY [1, 2, 3, 4, 5, 6, 7, 8] = None"
  using DES_LP64_undefined [of USER_PASSWORD_KEY "[1, 2, 3, 4, 5, 6, 7, 8]" "replicate 8 0" "replicate 128 0" "replicate 8 0" "replicate 8 0"]
  by (simp add: USER_PASSWORD_KEY_def)

lemma uint_byte_bounds: "0 \<le> uint (b :: byte)" "uint (b :: byte) < 256"
  using unat_byte_less [of b] by (simp_all only: unat_eq_nat_uint nat_less_iff [OF unsigned_greater_eq]) simp_all

lemma sint_byte: "sint (b :: byte) = (if uint b < 128 then uint b else uint b - 256)"
proof -
  note u = uint_byte_bounds [of b]
  have "sint b = take_bit 8 (uint b) - 256 * of_bool (bit (uint b) 7)"
    by (simp add: sint_uint signed_take_bit_eq_take_bit_minus)
  moreover have "take_bit 8 (uint b) = uint b"
    using u by (simp add: take_bit_int_eq_self)
  moreover have "bit (uint b) 7 \<longleftrightarrow> \<not> uint b < 128"
  proof -
    have "uint b div 128 \<in> {0, 1}" using u by auto
    moreover have "uint b div 128 = 0 \<longleftrightarrow> uint b < 128" using u by auto
    ultimately show ?thesis by (auto simp: bit_iff_odd)
  qed
  ultimately show ?thesis by simp
qed

lemma pad_char_range:
  "sint b \<le> 0 \<or> sint b > 8 \<longleftrightarrow> unat (b :: byte) \<notin> {1..8}"
  "unat (b :: byte) \<in> {1..8} \<Longrightarrow> nat (sint b) = unat b"
proof -
  define u where "u = uint b"
  have "0 \<le> u" "u < 256" and un: "unat b = nat u" and s: "sint b = (if u < 128 then u else u - 256)"
    using uint_byte_bounds [of b] by (simp_all only: u_def unat_eq_nat_uint sint_byte)
  then show "sint b \<le> 0 \<or> sint b > 8 \<longleftrightarrow> unat b \<notin> {1..8}"
    "unat b \<in> {1..8} \<Longrightarrow> nat (sint b) = unat b"
    unfolding un s atLeastAtMost_iff by auto
qed

definition des_plain :: "byte list \<Rightarrow> byte list" where
  "des_plain c = ecb (des_block (cookey (deskey USER_PASSWORD_KEY DE1))) (length c div 8) c"

text \<open>
  C32: the return values of \<open>DesDec\<close> (four-byte \<open>unsigned long\<close>): a length that is no multiple of
  eight is refused with \<open>0xEE20\<close>, an empty input reads before the plaintext buffer, and otherwise
  the plaintext is accepted exactly if its last byte is between 1 and 8, which is how many bytes are
  cut off.
\<close>

theorem DesDec_result:
  "DesDec TYPE(32) mem c =
     (if \<not> mem then Some (Inl ERR_MALLOC)
      else if length c mod 8 \<noteq> 0 then Some (Inl 0xEE20)
      else if c = [] then None
      else let pad = unat (last (des_plain c))
           in if pad \<in> {1..8} then Some (Inr (take (length c - pad) (des_plain c))) else Some (Inl ERR_FILECONT))"
proof -
  have key: "length USER_PASSWORD_KEY = 8" by (simp add: USER_PASSWORD_KEY_def)
  have dec: "myic_DESDecrypt TYPE(32) USER_PASSWORD_KEY c = Some (Inr (des_plain c))" "length (des_plain c) = length c"
    if "length c mod 8 = 0"
    using that myic_DESEncrypt_32(2) [OF key, of c "length c div 8"]
    by (auto simp: des_plain_def des_schedules length_ecb)
  have ndec: "myic_DESDecrypt TYPE(32) USER_PASSWORD_KEY c = Some (Inl 0xEE20)" if "length c mod 8 \<noteq> 0"
    using that by (simp add: myic_DESDecrypt_def)
  show ?thesis
  proof (cases "length c mod 8 = 0")
    case True
    then show ?thesis
      using dec [OF True] pad_char_range [of "last (des_plain c)"] by (auto simp: DesDec_def Let_def)
  next
    case False
    then show ?thesis using ndec [OF False] by (simp add: DesDec_def)
  qed
qed

text \<open>
  When \<open>CW_dataPadAdd\<close> cannot allocate its buffer, \<open>DesEnc\<close> reports success with an empty
  ciphertext, whatever the plaintext was.
\<close>

theorem DesEnc_malloc_failure: "DesEnc TYPE(32) False plain = Some (Inr [])"
  using myic_DESEncrypt_32(1) [of USER_PASSWORD_KEY "[]" 0]
  by (simp add: DesEnc_def CW_dataPadAdd_def Let_def USER_PASSWORD_KEY_def)

end
