(* ===== verification/Cgi_Login.thy ===== *)
theory Cgi_Login
  imports Cgi_Common Base64 Md5 Des
begin

text \<open>
  The program \<open>src/src/cgi/cgi_login.c\<close>: it compares the password and gives out a token, kept in Redis for a
  day under the name of the user, which the other programs ask for.
\<close>

definition get_login_info :: "string \<Rightarrow> string \<Rightarrow> string \<Rightarrow> (int \<times> string list) option" where
  "get_login_info login_buf user pwd = request_fields login_buf [(''user'', 512, user), (''pwd'', 512, pwd)]"

text \<open>The results of \<open>get_mysql_info\<close> and \<open>process_result_one\<close> are not tested.\<close>

definition check_user_pwd :: "'e services \<Rightarrow> string \<Rightarrow> string \<Rightarrow> 'e \<Rightarrow> (int \<times> 'e) option" where
  "check_user_pwd sv user pwd e = do {
     (_, mysql_user, mysql_pwd, mysql_db) \<leftarrow> get_mysql_info sv e;
     let (conn, e) = msql_conn sv mysql_user mysql_pwd mysql_db e;
     if \<not> conn then Some (- 1, e)
     else do {
       let e = set_names sv e;
       (_, tmp, e) \<leftarrow> select_one sv Sel_Password [S user] (Some (PWD_LEN, [])) e;
       Some (if tmp = pwd \<and> pwd \<noteq> [] then 0 else - 1, mysql_close sv e)
     }
   }"

section \<open>The token\<close>

text \<open>\<open>rand_num[i] = rand() % 1000\<close>, four times.\<close>

fun rand_nums :: "'e services \<Rightarrow> nat \<Rightarrow> 'e \<Rightarrow> nat list \<times> 'e" where
  "rand_nums sv 0 e = ([], e)"
| "rand_nums sv (Suc n) e =
     (let (r, e) = c_rand sv e; (rs, e) = rand_nums sv n e in (r mod 1000 # rs, e))"

text \<open>\<open>%02x\<close> of a byte.\<close>

definition hex2 :: "byte \<Rightarrow> string" where
  "hex2 b = [hex_digit (unat b div 16), hex_digit (unat b mod 16)]"

text \<open>
  The text of the token: the user and the random numbers, enciphered, in Base64, hashed, in hexadecimal.
  \<open>ulong\<close> is the width of \<open>unsigned long\<close>, on which \<open>DesEnc\<close> depends, and \<open>ctx\<close> the indeterminate initial
  contents of the MD5 context. \<^term>\<open>Some None\<close> is a failure of \<open>DesEnc\<close>.
\<close>

definition make_token :: "'w::len itself \<Rightarrow> md5_ctx \<Rightarrow> string \<Rightarrow> nat list \<Rightarrow> string option option" where
  "make_token ulong ctx user rand_num = do {
     tmp \<leftarrow> store 1024 (user @ concat (map show_nat rand_num));
     enc \<leftarrow> DesEnc ulong True (map byte_of_char tmp);
     (case enc of
        Inl rv \<Rightarrow> Some None
      | Inr enc_tmp \<Rightarrow>
          if length enc_tmp > 2048 then None
          else do {
            base64 \<leftarrow> store 3072 (base64_encode enc_tmp);
            let decrypt = fst (MD5Final (MD5Update (MD5Init ctx) (map byte_of_char base64)));
            Some (Some (concat (map hex2 decrypt)))
          })
   }"

definition set_token ::
    "'w::len itself \<Rightarrow> md5_ctx \<Rightarrow> 'e services \<Rightarrow> string \<Rightarrow> string \<Rightarrow> 'e \<Rightarrow> (int \<times> string \<times> 'e) option" where
  "set_token ulong ctx sv user token e = do {
     (_, redis_ip) \<leftarrow> cfg_value sv ''redis'' ''ip'' 30 [] e;
     (_, redis_port) \<leftarrow> cfg_value sv ''redis'' ''port'' 10 [] e;
     (redis_conn, e) \<leftarrow> rop_connectdb_nopwd sv redis_ip redis_port e;
     if \<not> redis_conn then Some (- 1, token, e)
     else do {
       let e = c_srand sv e;
       let (rand_num, e) = rand_nums sv 4 e;
       hex \<leftarrow> make_token ulong ctx user rand_num;
       (case hex of
          None \<Rightarrow> Some (- 1, token, rop_disconnect sv redis_conn e)
        | Some hex \<Rightarrow> do {
            token \<leftarrow> store 128 (token @ hex);
            (ret, e) \<leftarrow> rop_setex_string sv user 86400 token e;
            Some (ret, token, rop_disconnect sv redis_conn e)
          })
     }
   }"

section \<open>The loop\<close>

definition return_login_status :: "string \<Rightarrow> string \<Rightarrow> string option" where
  "return_login_status status_num token =
     print_answer (add_string ''token'' token (add_string ''code'' status_num cJSON_CreateObject))"

definition login_request ::
    "'w::len itself \<Rightarrow> md5_ctx \<Rightarrow> 'e services \<Rightarrow> request \<Rightarrow> 'e \<Rightarrow> (string \<times> 'e) option" where
  "login_request ulong ctx sv rq e = do {
     input \<leftarrow> fcgi_input rq;
     (case input of
        No_Data \<Rightarrow> Some (http_header @ no_data, e)
      | Read_Err \<Rightarrow> Some (http_header, e)
      | Body buf \<Rightarrow> do {
          (_, fields) \<leftarrow> get_login_info buf [] [];
          (case fields of
             [user, pwd] \<Rightarrow> do {
               (ret, e) \<leftarrow> check_user_pwd sv user pwd e;
               (ret, token, e) \<leftarrow> (if ret = 0 then set_token ulong ctx sv user [] e else Some (ret, [], e));
               out \<leftarrow> (if ret = 0 then return_login_status ''000'' token else return_login_status ''001'' ''fail'');
               Some (http_header @ out, e)
             }
           | _ \<Rightarrow> None)
        })
   }"

definition login_main ::
    "'w::len itself \<Rightarrow> md5_ctx \<Rightarrow> 'e services \<Rightarrow> request list \<Rightarrow> 'e \<Rightarrow> (string list \<times> 'e) option" where
  "login_main ulong ctx sv rqs e = serve (login_request ulong ctx sv) rqs e"

end
