(* ===== verification/Cgi_Register.thy ===== *)
theory Cgi_Register
  imports Cgi_Common
begin

text \<open>
  The program \<open>src/src/cgi/cgi_register.c\<close>: it enters a new user unless the name is taken.
\<close>

definition get_reg_info :: "string \<Rightarrow> string list \<Rightarrow> (int \<times> string list) option" where
  "get_reg_info reg_buf arrays =
     request_fields reg_buf
       [(''userName'', 128, arrays ! 0), (''nickName'', 128, arrays ! 1), (''firstPwd'', 128, arrays ! 2),
        (''phone'', 128, arrays ! 3), (''email'', 128, arrays ! 4)]"

text \<open>
  \<open>user_register\<close>. The five arrays are not initialised, but only used when all five members have been
  copied. A select that fails counts as a free name.
\<close>

definition register_user ::
    "'e services \<Rightarrow> string \<Rightarrow> string \<Rightarrow> string \<Rightarrow> string \<Rightarrow> string \<Rightarrow> 'e \<Rightarrow> (int \<times> 'e) option" where
  "register_user sv user nick_name pwd tel email e = do {
     (ret2, _, e) \<leftarrow> select_one sv Sel_User [S user] None e;
     if ret2 = 2 then Some (- 2, e)
     else do {
       let (ptm, e) = localtime sv e;
       time_str \<leftarrow> strftime 128 ptm;
       (ok, e) \<leftarrow> run_sql sv Ins_User [S user, S nick_name, S pwd, S tel, S time_str, S email] e;
       Some (if \<not> ok then - 1 else 0, e)
     }
   }"

definition user_register :: "'e services \<Rightarrow> string \<Rightarrow> 'e \<Rightarrow> (int \<times> 'e) option" where
  "user_register sv reg_buf e = do {
     (ret, mysql_user, mysql_pwd, mysql_db) \<leftarrow> get_mysql_info sv e;
     if ret \<noteq> 0 then Some (ret, e)
     else do {
       (ret, fields) \<leftarrow> get_reg_info reg_buf [[], [], [], [], []];
       if ret \<noteq> 0 then Some (ret, e)
       else (case fields of
         [user, nick_name, pwd, tel, email] \<Rightarrow> do {
           let (conn, e) = msql_conn sv mysql_user mysql_pwd mysql_db e;
           (if \<not> conn then Some (- 1, e)
            else do {
              let e = set_names sv e;
              (ret, e) \<leftarrow> register_user sv user nick_name pwd tel email e;
              Some (ret, mysql_close sv e)
            })
         }
       | _ \<Rightarrow> None)
     }
   }"

definition register_request :: "'e services \<Rightarrow> request \<Rightarrow> 'e \<Rightarrow> (string \<times> 'e) option" where
  "register_request sv rq e = do {
     input \<leftarrow> fcgi_input rq;
     (case input of
        No_Data \<Rightarrow> Some (http_header @ no_data, e)
      | Read_Err \<Rightarrow> Some (http_header, e)
      | Body buf \<Rightarrow> do {
          (ret, e) \<leftarrow> user_register sv buf e;
          out \<leftarrow> (if ret = 0 then return_status ''002''
                 else if ret = - 1 then return_status ''004''
                 else if ret = - 2 then return_status ''003''
                 else Some []);
          Some (http_header @ out, e)
        })
   }"

definition register_main :: "'e services \<Rightarrow> request list \<Rightarrow> 'e \<Rightarrow> (string list \<times> 'e) option" where
  "register_main sv rqs e = serve (register_request sv) rqs e"

end
