(* ===== verification/Cgi_Md5.thy ===== *)
theory Cgi_Md5
  imports Cgi_Common
begin

text \<open>
  The program \<open>src/src/cgi/cgi_md5.c\<close>: before an upload the client asks whether the server already has a
  file with the MD5 of its own; if so the file is entered into the user's list without a transfer.
\<close>

definition get_md5_info :: "string \<Rightarrow> string \<Rightarrow> string \<Rightarrow> string \<Rightarrow> string \<Rightarrow> (int \<times> string list) option" where
  "get_md5_info buf user token md5 filename =
     request_fields buf
       [(''user'', 128, user), (''md5'', 256, md5), (''fileName'', 128, filename), (''token'', 256, token)]"

text \<open>
  \<open>deal_md5\<close> up to its label \<open>END\<close>: the value of \<open>ret\<close>, whether there is a connection, the outside world.
\<close>

definition deal_md5_body ::
    "'e services \<Rightarrow> globals \<Rightarrow> string \<Rightarrow> string \<Rightarrow> string \<Rightarrow> 'e \<Rightarrow> (int \<times> bool \<times> 'e) option" where
  "deal_md5_body sv g user md5 filename e = do {
     let (conn, e) = msql_conn sv (mysql_user g) (mysql_pwd g) (mysql_db g) e;
     if \<not> conn then Some (- 1, conn, e)
     else do {
       let e = set_names sv e;
       (ret2, tmp, e) \<leftarrow> select_one sv Sel_File_Count [S md5] (Some (512, [])) e;
       if ret2 = 0 then do {
         count \<leftarrow> c_atoi tmp;
         (ret2, _, e) \<leftarrow> select_one sv Sel_User_File [S user, S md5, S filename] None e;
         if ret2 = 2 then Some (- 2, conn, e)
         else do {
           count \<leftarrow> int_add count 1;
           (ok, e) \<leftarrow> run_sql sv Upd_File_Count [N count, S md5] e;
           if \<not> ok then Some (- 1, conn, e)
           else do {
             let (ptm, e) = localtime sv e;
             time_str \<leftarrow> strftime 128 ptm;
             (ok, e) \<leftarrow> run_sql sv Ins_User_File [S user, S md5, S time_str, S filename, N 0, N 0] e;
             if \<not> ok then Some (- 1, conn, e)
             else do {
               (ret, e) \<leftarrow> count_file sv Ins_Count user tmp e;
               Some (ret, conn, e)
             }
           }
         }
       }
       else if ret2 = 1 then Some (- 3, conn, e)
       else Some (0, conn, e)
     }
   }"

definition deal_md5 :: "'e services \<Rightarrow> globals \<Rightarrow> string \<Rightarrow> string \<Rightarrow> string \<Rightarrow> 'e \<Rightarrow> (int \<times> string \<times> 'e) option" where
  "deal_md5 sv g user md5 filename e = do {
     (ret, conn, e) \<leftarrow> deal_md5_body sv g user md5 filename e;
     out \<leftarrow> return_status (if ret = 0 then ''005'' else if ret = - 2 then ''004'' else ''006'');
     Some (ret, out, close_conn sv conn e)
   }"

text \<open>One round of the loop in \<open>main\<close>; a request that cannot be read gets the header and nothing else.\<close>

definition md5_request :: "'e services \<Rightarrow> globals \<Rightarrow> request \<Rightarrow> 'e \<Rightarrow> (string \<times> 'e) option" where
  "md5_request sv g rq e = do {
     input \<leftarrow> fcgi_input rq;
     (case input of
        No_Data \<Rightarrow> Some (http_header @ no_data, e)
      | Read_Err \<Rightarrow> Some (http_header, e)
      | Body buf \<Rightarrow> do {
          (ret, fields) \<leftarrow> get_md5_info buf [] [] [] [];
          if ret \<noteq> 0 then Some (http_header, e)
          else (case fields of
            [user, md5, filename, token] \<Rightarrow> do {
              (ret, e) \<leftarrow> verify_token sv user token e;
              (if ret = 0 then do {
                 (_, out, e) \<leftarrow> deal_md5 sv g user md5 filename e;
                 Some (http_header @ out, e)
               }
               else do {
                 out \<leftarrow> return_status ''111'';
                 Some (http_header @ out, e)
               })
            }
          | _ \<Rightarrow> None)
        })
   }"

definition md5_main :: "'e services \<Rightarrow> request list \<Rightarrow> 'e \<Rightarrow> (string list \<times> 'e) option" where
  "md5_main sv rqs e = do {
     g \<leftarrow> read_cfg_mysql sv e;
     serve (md5_request sv g) rqs e
   }"

end
