(* ===== verification/Cgi_Upload.thy ===== *)
theory Cgi_Upload
  imports Cgi_Common
begin

text \<open>
  The program \<open>src/src/cgi/cgi_upload.c\<close>: it takes a file apart from the form data of a POST request, hands it to
  FastDFS, builds its address and enters it into the database. The child process after \<open>fork\<close>, which only
  replaces itself by the FastDFS tool, is the outside world's \<open>run_piped\<close>.
\<close>

section \<open>Taking the form data apart\<close>

definition crlf :: string where "crlf = [CHR 0x0D, CHR 0x0A]"

text \<open>
  \<open>strstr\<close> in the buffer \<open>file_buf\<close>, which has no terminating NUL of its own: the offset of the match from
  the start position, \<^term>\<open>Some None\<close> if a NUL comes first, undefined behaviour if the search leaves the buffer.
\<close>

fun scan :: "string \<Rightarrow> string \<Rightarrow> nat option option" where
  "scan [] key = None"
| "scan (c # s) key =
     (if take (length key) (c # s) = key then Some (Some 0)
      else if c = CHR 0x00 then Some None
      else map_option (map_option Suc) (scan s key))"

text \<open>A search from offset \<open>p\<close> whose result is used without a test for \<open>NULL\<close>.\<close>

definition next_line :: "string \<Rightarrow> nat \<Rightarrow> nat option" where
  "next_line buf p = do {
     r \<leftarrow> scan (drop p buf) crlf;
     i \<leftarrow> r;
     Some (p + i + 2)
   }"

text \<open>The tokens of \<open>strtok\<close> with the delimiter \<open>|\<close>.\<close>

fun split_bar :: "string \<Rightarrow> string list" where
  "split_bar [] = [[]]"
| "split_bar (c # s) =
     (if c = CHR ''|'' then [] # split_bar s
      else case split_bar s of t # ts \<Rightarrow> (c # t) # ts | [] \<Rightarrow> [[c]])"

definition strtok_bar :: "string \<Rightarrow> string list" where
  "strtok_bar s = filter (\<lambda>t. t \<noteq> []) (split_bar s)"

definition upload_info :: "string \<Rightarrow> (string \<times> string \<times> string) option" where
  "upload_info content_text =
     (case strtok_bar content_text of
        user # filename # md5 # sz # _ \<Rightarrow> do {
          user \<leftarrow> store USER_NAME_LEN user;
          filename \<leftarrow> store FILE_NAME_LEN filename;
          md5 \<leftarrow> store MD5_LEN md5;
          _ \<leftarrow> store 128 sz;
          Some (user, filename, md5)
        }
      | _ \<Rightarrow> None)"

text \<open>
  The scan of \<open>recv_save_file\<close> over the bytes \<open>buf\<close> read: the boundary line, the header of the first part, the
  info line, and the offset of the line behind it. \<^term>\<open>Some None\<close> is \<open>ret = -1\<close>. The header of the first part may fill
  \<open>content_text\<close> completely, since it is copied without a NUL and not read.
\<close>

definition upload_header :: "string \<Rightarrow> ((string \<times> string \<times> nat) option) option" where
  "upload_header buf = do {
     r \<leftarrow> scan buf crlf;
     (case r of
        None \<Rightarrow> Some None
      | Some i \<Rightarrow> do {
          boundary \<leftarrow> store TEMP_BUF_MAX_LEN (take i buf);
          p \<leftarrow> next_line buf (i + 2);
          if TEMP_BUF_MAX_LEN < p - 2 - (i + 2) then None
          else do {
            let start = p + 2;
            r \<leftarrow> scan (drop start buf) crlf;
            (case r of
               None \<Rightarrow> Some None
             | Some n \<Rightarrow> do {
                 content_text \<leftarrow> store TEMP_BUF_MAX_LEN (take n (drop start buf));
                 Some (Some (boundary, content_text, start + n))
               })
          }
        })
   }"

text \<open>
  The contents of the file: three more lines are skipped and a blank one, then the boundary is looked for.
  The length handed to \<open>memstr\<close> is \<open>len\<close> plus the offset of the contents, not minus. A boundary closer than two
  bytes would make the length of the contents negative.
\<close>

definition upload_contents :: "string \<Rightarrow> int \<Rightarrow> string \<Rightarrow> nat \<Rightarrow> string option option" where
  "upload_contents buf len boundary p = do {
     p \<leftarrow> next_line buf (p + 2);
     p \<leftarrow> next_line buf p;
     p \<leftarrow> next_line buf p;
     let data = p + 2;
     if length buf < data then None
     else do {
       r \<leftarrow> memstr (drop data buf) (to_int (len + int data)) boundary;
       (case r of
          None \<Rightarrow> Some None
        | Some i \<Rightarrow> if i < 2 then None else Some (Some (take (i - 2) (drop data buf))))
     }
   }"

text \<open>
  \<open>recv_save_file\<close>: \<open>mem\<close> says whether the allocation succeeds. The result has \<open>ret\<close> and the arrays \<open>user\<close>,
  \<open>filename\<close> and \<open>md5\<close>; nothing is ever stored through \<open>p_size\<close>.
\<close>

definition recv_save_file ::
    "'e services \<Rightarrow> bool \<Rightarrow> int \<Rightarrow> string \<Rightarrow> string \<times> string \<times> string \<Rightarrow> 'e \<Rightarrow> (int \<times> (string \<times> string \<times> string) \<times> 'e) option" where
  "recv_save_file sv mem len input arrays e =
     (if \<not> mem then Some (- 1, arrays, e)
      else let buf = take (nat len) input
           in if buf = [] then Some (- 1, arrays, e)
              else do {
                header \<leftarrow> upload_header buf;
                (case header of
                   None \<Rightarrow> Some (- 1, arrays, e)
                 | Some (boundary, content_text, p) \<Rightarrow> do {
                     (user, filename, md5) \<leftarrow> upload_info content_text;
                     contents \<leftarrow> upload_contents buf len boundary p;
                     (case contents of
                        None \<Rightarrow> Some (- 1, (user, filename, md5), e)
                      | Some contents \<Rightarrow>
                          let (ok, e) = write_file sv filename contents e
                          in Some (if \<not> ok then - 1 else 0, (user, filename, md5), e))
                   })
              })"

section \<open>Storage\<close>

text \<open>The text that \<open>read\<close> of at most 512 bytes leaves in a zeroed array of 512 bytes.\<close>

definition pipe_text :: "string \<Rightarrow> string option" where
  "pipe_text s = (if length s < TEMP_BUF_MAX_LEN then Some (c_str s) else None)"

definition upload_to_dstorage :: "'e services \<Rightarrow> string \<Rightarrow> 'e \<Rightarrow> (int \<times> string \<times> 'e) option" where
  "upload_to_dstorage sv filename e = do {
     (_, fdfs_cli_conf_path) \<leftarrow> cfg_value sv ''dfs_path'' ''client'' 256 [] e;
     let (r, e) = run_piped sv [''fdfs_upload_file'', fdfs_cli_conf_path, filename] TEMP_BUF_MAX_LEN e;
     (case r of
        Pipe_Err \<Rightarrow> Some (- 1, [], e)
      | Fork_Err \<Rightarrow> Some (- 1, [], e)
      | Pipe_Read s \<Rightarrow> do {
          fileid \<leftarrow> pipe_text s;
          fileid \<leftarrow> trim_space fileid;
          Some (if fileid = [] then - 1 else 0, fileid, e)
        })
   }"

definition source_ip :: string where "source_ip = ''source ip address: ''"

definition make_file_url :: "'e services \<Rightarrow> string \<Rightarrow> string \<Rightarrow> 'e \<Rightarrow> (int \<times> string \<times> 'e) option" where
  "make_file_url sv fileid fdfs_file_url e = do {
     (_, fdfs_cli_conf_path) \<leftarrow> cfg_value sv ''dfs_path'' ''client'' 256 [] e;
     let (r, e) = run_piped sv [''fdfs_file_info'', fdfs_cli_conf_path, fileid] TEMP_BUF_MAX_LEN e;
     (case r of
        Pipe_Err \<Rightarrow> Some (- 1, fdfs_file_url, e)
      | Fork_Err \<Rightarrow> Some (- 1, fdfs_file_url, e)
      | Pipe_Read s \<Rightarrow> do {
          fdfs_file_stat_buf \<leftarrow> pipe_text s;
          p \<leftarrow> strstr fdfs_file_stat_buf source_ip;
          let q = drop (p + length source_ip) fdfs_file_stat_buf;
          k \<leftarrow> strstr q newline;
          fdfs_file_host_name \<leftarrow> store HOST_NAME_LEN (take k q);
          (_, storage_web_server_port) \<leftarrow> cfg_value sv ''storage_web_server'' ''port'' 20 [] e;
          fdfs_file_url \<leftarrow> store FILE_URL_LEN
            (fdfs_file_url @ ''http://'' @ fdfs_file_host_name @ '':'' @ storage_web_server_port @ ''/'' @ fileid);
          Some (0, fdfs_file_url, e)
        })
   }"

section \<open>The database\<close>

definition store_fileinfo_body ::
    "'e services \<Rightarrow> globals \<Rightarrow> string \<Rightarrow> string \<Rightarrow> string \<Rightarrow> int \<Rightarrow> string \<Rightarrow> string \<Rightarrow> 'e \<Rightarrow> (int \<times> bool \<times> 'e) option" where
  "store_fileinfo_body sv g user filename md5 fsize fileid fdfs_file_url e = do {
     let (conn, e) = msql_conn sv (mysql_user g) (mysql_pwd g) (mysql_db g) e;
     if \<not> conn then Some (- 1, conn, e)
     else do {
       let e = set_names sv e;
       suffix \<leftarrow> store SUFFIX_LEN (get_file_suffix filename);
       (ok, e) \<leftarrow> run_sql sv Ins_File_Info [S md5, S fileid, S fdfs_file_url, S (show_int fsize), S suffix, N 1] e;
       if \<not> ok then Some (- 1, conn, e)
       else do {
         let (now, e) = localtime sv e;
         create_time \<leftarrow> strftime (TIME_STRING_LEN - 1) now;
         (ok, e) \<leftarrow> run_sql sv Ins_User_File [S user, S md5, S create_time, S filename, N 0, N 0] e;
         if \<not> ok then Some (- 1, conn, e)
         else do {
           (ret, e) \<leftarrow> count_file sv Ins_Count user [] e;
           Some (ret, conn, e)
         }
       }
     }
   }"

definition store_fileinfo_to_mysql ::
    "'e services \<Rightarrow> globals \<Rightarrow> string \<Rightarrow> string \<Rightarrow> string \<Rightarrow> int \<Rightarrow> string \<Rightarrow> string \<Rightarrow> 'e \<Rightarrow> (int \<times> 'e) option" where
  "store_fileinfo_to_mysql sv g user filename md5 fsize fileid fdfs_file_url e = do {
     (ret, conn, e) \<leftarrow> store_fileinfo_body sv g user filename md5 fsize fileid fdfs_file_url e;
     Some (ret, close_conn sv conn e)
   }"

section \<open>The loop\<close>

text \<open>
  One upload, up to the label \<open>END\<close>. \<open>fsize\<close> is the variable \<open>size\<close> of \<open>main\<close>, which is never assigned; the
  arrays are cleared after every request.
\<close>

definition upload_file :: "'e services \<Rightarrow> globals \<Rightarrow> bool \<Rightarrow> int \<Rightarrow> int \<Rightarrow> string \<Rightarrow> 'e \<Rightarrow> (int \<times> 'e) option" where
  "upload_file sv g mem fsize len input e = do {
     (ret, (user, filename, md5), e) \<leftarrow> recv_save_file sv mem len input ([], [], []) e;
     if ret < 0 then Some (- 1, e)
     else do {
       (ret, fileid, e) \<leftarrow> upload_to_dstorage sv filename e;
       if ret < 0 then Some (- 1, e)
       else do {
         let e = unlink_file sv filename e;
         (ret, fdfs_file_url, e) \<leftarrow> make_file_url sv fileid [] e;
         if ret < 0 then Some (- 1, e)
         else do {
           (ret, e) \<leftarrow> store_fileinfo_to_mysql sv g user filename md5 fsize fileid fdfs_file_url e;
           Some (if ret < 0 then - 1 else 0, e)
         }
       }
     }
   }"

definition upload_request :: "'e services \<Rightarrow> globals \<Rightarrow> bool \<Rightarrow> int \<Rightarrow> request \<Rightarrow> 'e \<Rightarrow> (string \<times> 'e) option" where
  "upload_request sv g mem fsize rq e = do {
     len \<leftarrow> (case content_length rq of None \<Rightarrow> Some 0 | Some s \<Rightarrow> Some (c_strtol s));
     if len \<le> 0 then Some (http_header @ ''No data from standard input'' @ newline, e)
     else do {
       (ret, e) \<leftarrow> upload_file sv g mem fsize len (stdin rq) e;
       out \<leftarrow> return_status (if ret = 0 then ''008'' else ''009'');
       Some (http_header @ out, e)
     }
   }"

definition upload_main :: "'e services \<Rightarrow> bool \<Rightarrow> int \<Rightarrow> request list \<Rightarrow> 'e \<Rightarrow> (string list \<times> 'e) option" where
  "upload_main sv mem fsize rqs e = do {
     g \<leftarrow> read_cfg_mysql sv e;
     serve (upload_request sv g mem fsize) rqs e
   }"

end
