(* ===== verification/Cgi_Files.thy ===== *)
theory Cgi_Files
  imports Cgi_Common
begin

text \<open>
  The program \<open>src/src/cgi/cgi_files.c\<close>: the list of the files of a user, as JSON.
\<close>

definition get_user_json_info :: "string \<Rightarrow> string \<Rightarrow> string \<Rightarrow> (int \<times> string list) option" where
  "get_user_json_info buf user token =
     request_fields buf [(''user'', USER_NAME_LEN, user), (''token'', TOKEN_LEN, token)]"

text \<open>\<open>return_login_status\<close>, which only a comment calls.\<close>

definition files_return_login_status :: "int \<Rightarrow> int \<Rightarrow> string option" where
  "files_return_login_status num token_flag = do {
     num_buf \<leftarrow> store 128 (show_int num);
     let token = (if token_flag = 0 then ''110'' else ''111'');
     print_answer (add_string ''code'' token (add_string ''num'' num_buf cJSON_CreateObject))
   }"

text \<open>The number of files of a user; 0 also stands for every failure.\<close>

definition get_user_files_count :: "'e services \<Rightarrow> globals \<Rightarrow> string \<Rightarrow> 'e \<Rightarrow> (int \<times> 'e) option" where
  "get_user_files_count sv g user e = do {
     let (conn, e) = msql_conn sv (mysql_user g) (mysql_pwd g) (mysql_db g) e;
     if \<not> conn then Some (0, e)
     else do {
       let e = set_names sv e;
       (ret2, tmp, e) \<leftarrow> select_one sv Sel_Count_Of [S user] (Some (512, [])) e;
       line \<leftarrow> (if ret2 \<noteq> 0 then Some 0 else c_atol tmp);
       Some (line, close_conn sv conn e)
     }
   }"

text \<open>The value \<open>valueint\<close> of an item; the parser sets it to 1 for \<open>true\<close>.\<close>

fun item_valueint :: "cJSON \<Rightarrow> int" where
  "item_valueint (cJSON_Number d i) = i"
| "item_valueint cJSON_True = 1"
| "item_valueint _ = 0"

definition get_fileslist_json_info ::
    "string \<Rightarrow> string \<Rightarrow> string \<Rightarrow> int \<Rightarrow> int \<Rightarrow> (int \<times> string list \<times> int \<times> int) option" where
  "get_fileslist_json_info buf user token start count =
     (case cJSON_Parse buf of
        UB \<Rightarrow> None
      | Fail off \<Rightarrow> Some (- 1, [user, token], start, count)
      | Ok root \<Rightarrow> do {
          (ret, arrays) \<leftarrow> copy_fields root [(''user'', USER_NAME_LEN, user), (''token'', TOKEN_LEN, token)];
          if ret \<noteq> 0 then Some (- 1, arrays, start, count)
          else (case cJSON_GetObjectItem (Some root) ''start'' of
            None \<Rightarrow> Some (- 1, arrays, start, count)
          | Some child3 \<Rightarrow>
              (case cJSON_GetObjectItem (Some root) ''count'' of
                 None \<Rightarrow> Some (- 1, arrays, item_valueint child3, count)
               | Some child4 \<Rightarrow> Some (0, arrays, item_valueint child3, item_valueint child4)))
        })"

definition user_file_columns :: "column list" where
  "user_file_columns =
     [Text_Col ''user'', Text_Col ''md5'', Text_Col ''time'', Text_Col ''filename'', Int_Col ''share_status'',
      Long_Col ''pv'', Text_Col ''url'', Long_Col ''size'', Text_Col ''type'']"

definition get_user_filelist :: "'e services \<Rightarrow> globals \<Rightarrow> string \<Rightarrow> 'e \<Rightarrow> (int \<times> string \<times> 'e) option" where
  "get_user_filelist sv g user e = do {
     let (conn, e) = msql_conn sv (mysql_user g) (mysql_pwd g) (mysql_db g) e;
     if \<not> conn then do {
       out2 \<leftarrow> return_status ''015'';
       Some (- 1, out2, e)
     }
     else do {
       let e = set_names sv e;
       sql_cmd \<leftarrow> sprintf_sql Sel_User_Files [S user];
       let (rows, e) = select_rows_of sv sql_cmd e;
       (case rows of
          None \<Rightarrow> do {
            out2 \<leftarrow> return_status ''015'';
            Some (- 1, out2, close_conn sv conn e)
          }
        | Some rows \<Rightarrow> do {
            array \<leftarrow> add_rows user_file_columns rows cJSON_CreateArray;
            out \<leftarrow> print_files array;
            Some (0, out, close_conn sv conn e)
          })
     }
   }"

text \<open>
  One round of the loop in \<open>main\<close>. The arrays \<open>user\<close> and \<open>token\<close> keep their contents from one request to the
  next; the token is checked twice, and the number of files is fetched before the check.
\<close>

definition files_request ::
    "'e services \<Rightarrow> globals \<Rightarrow> request \<Rightarrow> string list \<times> 'e \<Rightarrow> (string \<times> string list \<times> 'e) option" where
  "files_request sv g rq st = do {
     let (arrays, e) = st;
     input \<leftarrow> fcgi_input rq;
     (case (input, arrays) of
        (No_Data, _) \<Rightarrow> Some (http_header @ no_data, arrays, e)
      | (Read_Err, _) \<Rightarrow> Some (http_header, arrays, e)
      | (Body buf, [user, token]) \<Rightarrow> do {
          (_, arrays) \<leftarrow> get_user_json_info buf user token;
          (case arrays of
             [user, token] \<Rightarrow> do {
               (_, e) \<leftarrow> verify_token sv user token e;
               (_, e) \<leftarrow> get_user_files_count sv g user e;
               (ret, e) \<leftarrow> verify_token sv user token e;
               (if ret = 0 then do {
                  (_, out, e) \<leftarrow> get_user_filelist sv g user e;
                  Some (http_header @ out, arrays, e)
                }
                else do {
                  out \<leftarrow> return_status ''111'';
                  Some (http_header @ out, arrays, e)
                })
             }
           | _ \<Rightarrow> None)
        }
      | _ \<Rightarrow> None)
   }"

definition files_main :: "'e services \<Rightarrow> string list \<Rightarrow> request list \<Rightarrow> 'e \<Rightarrow> (string list \<times> 'e) option" where
  "files_main sv arrays rqs e = do {
     g \<leftarrow> read_cfg_mysql sv e;
     (outs, _, e) \<leftarrow> serve (files_request sv g) rqs (arrays, e);
     Some (outs, e)
   }"

end
