(* ===== verification/Cgi_Filesop.thy ===== *)
theory Cgi_Filesop
  imports Cgi_Common
begin

text \<open>
  The program \<open>src/src/cgi/cgi_filesop.c\<close>: sharing, deleting and counting views of a file of the user.
  \<open>main\<close> only deletes; the dispatch on a command is commented out. The handlers are given up to their label
  \<open>END\<close> (\<open>..._body\<close>: \<open>ret\<close>, the two connections, the outside world) and as a whole.
\<close>

definition get_json_info :: "string \<Rightarrow> string \<Rightarrow> string \<Rightarrow> string \<Rightarrow> string \<Rightarrow> (int \<times> string list) option" where
  "get_json_info buf user token md5 filename =
     request_fields buf
       [(''user'', USER_NAME_LEN, user), (''md5'', MD5_LEN, md5), (''filename'', FILE_NAME_LEN, filename),
        (''token'', TOKEN_LEN, token)]"

section \<open>Sharing\<close>

text \<open>
  The test whether the file is shared already: the Redis set first, then the table. A file found only in the
  table is entered into the set. The result is whether the handler stops, with \<open>ret\<close>.
\<close>

definition share_check :: "'e services \<Rightarrow> string \<Rightarrow> string \<Rightarrow> string \<Rightarrow> 'e \<Rightarrow> (int \<times> bool \<times> 'e) option" where
  "share_check sv md5 filename fileid e = do {
     (ret2, e) \<leftarrow> rop_zset_exit sv FILE_PUBLIC_ZSET fileid e;
     if ret2 = 1 then Some (- 2, True, e)
     else if ret2 = 0 then do {
       (ret2, _, e) \<leftarrow> select_one sv Sel_Share [S md5, S filename] None e;
       if ret2 = 2 then do {
         (_, e) \<leftarrow> rop_zset_add sv FILE_PUBLIC_ZSET 0 fileid e;
         Some (- 2, True, e)
       }
       else Some (0, False, e)
     }
     else Some (- 1, True, e)
   }"

definition share_enter :: "'e services \<Rightarrow> string \<Rightarrow> string \<Rightarrow> string \<Rightarrow> string \<Rightarrow> 'e \<Rightarrow> (int \<times> 'e) option" where
  "share_enter sv user md5 filename fileid e = do {
     (ok, e) \<leftarrow> run_sql sv Upd_Shared [S user, S md5, S filename] e;
     if \<not> ok then Some (- 1, e)
     else do {
       let (now, e) = localtime sv e;
       create_time \<leftarrow> strftime (TIME_STRING_LEN - 1) now;
       (ok, e) \<leftarrow> run_sql sv Ins_Share [S user, S md5, S create_time, S filename, N 0] e;
       if \<not> ok then Some (- 1, e)
       else do {
         (ret, e) \<leftarrow> count_file sv Ins_Share_Count share_user [] e;
         if ret \<noteq> 0 then Some (ret, e)
         else do {
           (_, e) \<leftarrow> rop_zset_add sv FILE_PUBLIC_ZSET 0 fileid e;
           let (_, e) = rop_hash_set sv FILE_NAME_HASH fileid filename e;
           Some (0, e)
         }
       }
     }
   }"

definition share_file_body ::
    "'e services \<Rightarrow> globals \<Rightarrow> string \<Rightarrow> string \<Rightarrow> string \<Rightarrow> 'e \<Rightarrow> (int \<times> bool \<times> bool \<times> 'e) option" where
  "share_file_body sv g user md5 filename e = do {
     (redis_conn, e) \<leftarrow> rop_connectdb_nopwd sv (redis_ip g) (redis_port g) e;
     if \<not> redis_conn then Some (- 1, redis_conn, False, e)
     else do {
       let (conn, e) = msql_conn sv (mysql_user g) (mysql_pwd g) (mysql_db g) e;
       if \<not> conn then Some (- 1, redis_conn, conn, e)
       else do {
         let e = set_names sv e;
         fileid \<leftarrow> store 1024 (md5 @ filename);
         (ret, stop, e) \<leftarrow> share_check sv md5 filename fileid e;
         if stop then Some (ret, redis_conn, conn, e)
         else do {
           (ret, e) \<leftarrow> share_enter sv user md5 filename fileid e;
           Some (ret, redis_conn, conn, e)
         }
       }
     }
   }"

definition share_file :: "'e services \<Rightarrow> globals \<Rightarrow> string \<Rightarrow> string \<Rightarrow> string \<Rightarrow> 'e \<Rightarrow> (int \<times> string \<times> 'e) option" where
  "share_file sv g user md5 filename e = do {
     (ret, redis_conn, conn, e) \<leftarrow> share_file_body sv g user md5 filename e;
     out \<leftarrow> (if ret = 0 then return_status ''010''
            else if ret = - 1 then return_status ''011''
            else if ret = - 2 then return_status ''012''
            else Some []);
     Some (ret, out, close_conn sv conn (rop_disconnect sv redis_conn e))
   }"

section \<open>Deleting\<close>

definition remove_file_from_storage :: "'e services \<Rightarrow> string \<Rightarrow> 'e \<Rightarrow> (int \<times> 'e) option" where
  "remove_file_from_storage sv fileid e = do {
     (_, fdfs_cli_conf_path) \<leftarrow> cfg_value sv ''dfs_path'' ''client'' 256 [] e;
     cmd \<leftarrow> store (1024 * 2) (''fdfs_delete_file '' @ fdfs_cli_conf_path @ '' '' @ fileid);
     Some (c_system sv cmd e)
   }"

text \<open>
  The four stages of \<open>del_file\<close>: whether the file is shared (\<open>share\<close>) and in the Redis set (\<open>flag\<close>); the end
  of the sharing; the user's count and list; the file itself. Each gives \<open>ret\<close>, where a value other than 0
  stops the handler; \<open>tmp\<close> is passed on, since a query that finds \<open>NULL\<close> leaves it unchanged.
\<close>

definition del_shared ::
    "'e services \<Rightarrow> string \<Rightarrow> string \<Rightarrow> string \<Rightarrow> string \<Rightarrow> 'e \<Rightarrow> (int \<times> int \<times> bool \<times> string \<times> 'e) option" where
  "del_shared sv user md5 filename fileid e = do {
     (ret2, e) \<leftarrow> rop_zset_exit sv FILE_PUBLIC_ZSET fileid e;
     if ret2 = 1 then Some (0, 1, True, [], e)
     else if ret2 = 0 then do {
       (ret2, tmp, e) \<leftarrow> select_one sv Sel_Shared [S user, S md5, S filename] (Some (512, [])) e;
       if ret2 = 0 then do {
         share \<leftarrow> c_atoi tmp;
         Some (0, share, False, tmp, e)
       }
       else if ret2 = - 1 then Some (- 1, 0, False, tmp, e)
       else Some (0, 0, False, tmp, e)
     }
     else Some (- 1, 0, False, [], e)
   }"

definition del_unshare ::
    "'e services \<Rightarrow> string \<Rightarrow> string \<Rightarrow> string \<Rightarrow> string \<Rightarrow> bool \<Rightarrow> string \<Rightarrow> 'e \<Rightarrow> (int \<times> string \<times> 'e) option" where
  "del_unshare sv user md5 filename fileid flag tmp e = do {
     (ok, e) \<leftarrow> run_sql sv Del_Share [S user, S md5, S filename] e;
     if \<not> ok then Some (- 1, tmp, e)
     else do {
       (ret2, tmp, e) \<leftarrow> select_one sv Sel_Count [S share_user] (Some (512, tmp)) e;
       if ret2 \<noteq> 0 then Some (- 1, tmp, e)
       else do {
         count \<leftarrow> c_atoi tmp;
         count \<leftarrow> int_add count (- 1);
         (ok, e) \<leftarrow> run_sql sv Upd_Count [N count, S share_user] e;
         if \<not> ok then Some (- 1, tmp, e)
         else if flag then do {
           (_, e) \<leftarrow> rop_zset_zrem sv FILE_PUBLIC_ZSET fileid e;
           (_, e) \<leftarrow> rop_hash_del sv FILE_NAME_HASH fileid e;
           Some (0, tmp, e)
         }
         else Some (0, tmp, e)
       }
     }
   }"

definition del_entry :: "'e services \<Rightarrow> string \<Rightarrow> string \<Rightarrow> string \<Rightarrow> string \<Rightarrow> 'e \<Rightarrow> (int \<times> string \<times> 'e) option" where
  "del_entry sv user md5 filename tmp e = do {
     (ret2, tmp, e) \<leftarrow> select_one sv Sel_Count [S user] (Some (512, tmp)) e;
     if ret2 \<noteq> 0 then Some (- 1, tmp, e)
     else do {
       count \<leftarrow> c_atoi tmp;
       (ok, e) \<leftarrow> (if count = 1 then run_sql sv Del_Count [S user] e
                   else do {
                     count \<leftarrow> int_add count (- 1);
                     run_sql sv Upd_Count [N count, S user] e
                   });
       if \<not> ok then Some (- 1, tmp, e)
       else do {
         (ok, e) \<leftarrow> run_sql sv Del_User_File [S user, S md5, S filename] e;
         Some (if \<not> ok then - 1 else 0, tmp, e)
       }
     }
   }"

definition del_stored :: "'e services \<Rightarrow> string \<Rightarrow> string \<Rightarrow> 'e \<Rightarrow> (int \<times> 'e) option" where
  "del_stored sv md5 tmp e = do {
     (ret2, tmp, e) \<leftarrow> select_one sv Sel_File_Count [S md5] (Some (512, tmp)) e;
     if ret2 \<noteq> 0 then Some (- 1, e)
     else do {
       count \<leftarrow> c_atoi tmp;
       count \<leftarrow> int_add count (- 1);
       (ok, e) \<leftarrow> run_sql sv Upd_File_Count_Del [N count, S md5] e;
       if \<not> ok then Some (- 1, e)
       else if count = 0 then do {
         (ret2, tmp, e) \<leftarrow> select_one sv Sel_File_Id [S md5] (Some (512, tmp)) e;
         if ret2 \<noteq> 0 then Some (- 1, e)
         else do {
           (ok, e) \<leftarrow> run_sql sv Del_File_Info [S md5] e;
           if \<not> ok then Some (- 1, e)
           else do {
             (ret2, e) \<leftarrow> remove_file_from_storage sv tmp e;
             Some (if ret2 \<noteq> 0 then - 1 else 0, e)
           }
         }
       }
       else Some (0, e)
     }
   }"

definition del_file_body ::
    "'e services \<Rightarrow> globals \<Rightarrow> string \<Rightarrow> string \<Rightarrow> string \<Rightarrow> 'e \<Rightarrow> (int \<times> bool \<times> bool \<times> 'e) option" where
  "del_file_body sv g user md5 filename e = do {
     (redis_conn, e) \<leftarrow> rop_connectdb_nopwd sv (redis_ip g) (redis_port g) e;
     if \<not> redis_conn then Some (- 1, redis_conn, False, e)
     else do {
       let (conn, e) = msql_conn sv (mysql_user g) (mysql_pwd g) (mysql_db g) e;
       if \<not> conn then Some (- 1, redis_conn, conn, e)
       else do {
         let e = set_names sv e;
         fileid \<leftarrow> store 1024 (md5 @ filename);
         (ret, share, flag, tmp, e) \<leftarrow> del_shared sv user md5 filename fileid e;
         if ret \<noteq> 0 then Some (ret, redis_conn, conn, e)
         else do {
           (ret, tmp, e) \<leftarrow> (if share = 1 then del_unshare sv user md5 filename fileid flag tmp e
                             else Some (0, tmp, e));
           if ret \<noteq> 0 then Some (ret, redis_conn, conn, e)
           else do {
             (ret, tmp, e) \<leftarrow> del_entry sv user md5 filename tmp e;
             if ret \<noteq> 0 then Some (ret, redis_conn, conn, e)
             else do {
               (ret, e) \<leftarrow> del_stored sv md5 tmp e;
               Some (ret, redis_conn, conn, e)
             }
           }
         }
       }
     }
   }"

definition del_file :: "'e services \<Rightarrow> globals \<Rightarrow> string \<Rightarrow> string \<Rightarrow> string \<Rightarrow> 'e \<Rightarrow> (int \<times> string \<times> 'e) option" where
  "del_file sv g user md5 filename e = do {
     (ret, redis_conn, conn, e) \<leftarrow> del_file_body sv g user md5 filename e;
     out \<leftarrow> return_status (if ret = 0 then ''013'' else ''014'');
     Some (ret, out, close_conn sv conn (rop_disconnect sv redis_conn e))
   }"

section \<open>Counting views\<close>

definition pv_file_body ::
    "'e services \<Rightarrow> globals \<Rightarrow> string \<Rightarrow> string \<Rightarrow> string \<Rightarrow> 'e \<Rightarrow> (int \<times> bool \<times> 'e) option" where
  "pv_file_body sv g user md5 filename e = do {
     let (conn, e) = msql_conn sv (mysql_user g) (mysql_pwd g) (mysql_db g) e;
     if \<not> conn then Some (- 1, conn, e)
     else do {
       let e = set_names sv e;
       (ret2, tmp, e) \<leftarrow> select_one sv Sel_Pv [S user, S md5, S filename] (Some (512, [])) e;
       if ret2 \<noteq> 0 then Some (- 1, conn, e)
       else do {
         pv \<leftarrow> c_atoi tmp;
         pv \<leftarrow> int_add pv 1;
         (ok, e) \<leftarrow> run_sql sv Upd_Pv [N pv, S user, S md5, S filename] e;
         Some (if \<not> ok then - 1 else 0, conn, e)
       }
     }
   }"

definition pv_file :: "'e services \<Rightarrow> globals \<Rightarrow> string \<Rightarrow> string \<Rightarrow> string \<Rightarrow> 'e \<Rightarrow> (int \<times> string \<times> 'e) option" where
  "pv_file sv g user md5 filename e = do {
     (ret, conn, e) \<leftarrow> pv_file_body sv g user md5 filename e;
     out \<leftarrow> return_status (if ret = 0 then ''016'' else ''017'');
     Some (ret, out, close_conn sv conn e)
   }"

section \<open>The loop\<close>

text \<open>
  The four arrays are declared outside the loop of \<open>main\<close> and the result of \<open>get_json_info\<close> is not tested: a
  member missing from a request has the value of the request before. Their indeterminate contents before
  the first request are the initial state.
\<close>

definition filesop_request ::
    "'e services \<Rightarrow> globals \<Rightarrow> request \<Rightarrow> string list \<times> 'e \<Rightarrow> (string \<times> string list \<times> 'e) option" where
  "filesop_request sv g rq st = do {
     let (arrays, e) = st;
     input \<leftarrow> fcgi_input rq;
     (case (input, arrays) of
        (No_Data, _) \<Rightarrow> Some (http_header @ no_data, arrays, e)
      | (Read_Err, _) \<Rightarrow> Some (http_header, arrays, e)
      | (Body buf, [user, md5, filename, token]) \<Rightarrow> do {
          (_, arrays) \<leftarrow> get_json_info buf user token md5 filename;
          (case arrays of
             [user, md5, filename, token] \<Rightarrow> do {
               (ret, e) \<leftarrow> verify_token sv user token e;
               (if ret \<noteq> 0 then do {
                  out \<leftarrow> return_status ''111'';
                  Some (http_header @ out, arrays, e)
                }
                else do {
                  (_, out, e) \<leftarrow> del_file sv g user md5 filename e;
                  Some (http_header @ out, arrays, e)
                })
             }
           | _ \<Rightarrow> None)
        }
      | _ \<Rightarrow> None)
   }"

definition filesop_main :: "'e services \<Rightarrow> string list \<Rightarrow> request list \<Rightarrow> 'e \<Rightarrow> (string list \<times> 'e) option" where
  "filesop_main sv arrays rqs e = do {
     g \<leftarrow> read_cfg sv e;
     (outs, _, e) \<leftarrow> serve (filesop_request sv g) rqs (arrays, e);
     Some (outs, e)
   }"

end
