(* ===== verification/Cgi_Sharefiles.thy ===== *)
theory Cgi_Sharefiles
  imports Cgi_Files
begin

text \<open>
  The program \<open>src/src/cgi/cgi_sharefiles.c\<close>: the number of shared files, a page of their list, and their
  ranking by downloads, which is read from Redis and rebuilt from the database when the two numbers of
  shared files differ.
\<close>

section \<open>Number and list\<close>

definition get_share_files_count :: "'e services \<Rightarrow> globals \<Rightarrow> 'e \<Rightarrow> (string \<times> 'e) option" where
  "get_share_files_count sv g e = do {
     let (conn, e) = msql_conn sv (mysql_user g) (mysql_pwd g) (mysql_db g) e;
     if \<not> conn then Some (show_int 0, e)
     else do {
       let e = set_names sv e;
       (ret2, tmp, e) \<leftarrow> select_one sv Sel_Count_Of [S share_user] (Some (512, [])) e;
       line \<leftarrow> (if ret2 \<noteq> 0 then Some 0 else c_atol tmp);
       Some (show_int line, close_conn sv conn e)
     }
   }"

definition share_get_fileslist_json_info :: "string \<Rightarrow> int \<Rightarrow> int \<Rightarrow> (int \<times> int \<times> int) option" where
  "share_get_fileslist_json_info buf start count =
     (case cJSON_Parse buf of
        UB \<Rightarrow> None
      | Fail off \<Rightarrow> Some (- 1, start, count)
      | Ok root \<Rightarrow>
          (case cJSON_GetObjectItem (Some root) ''start'' of
             None \<Rightarrow> Some (- 1, start, count)
           | Some child2 \<Rightarrow>
               (case cJSON_GetObjectItem (Some root) ''count'' of
                  None \<Rightarrow> Some (- 1, item_valueint child2, count)
                | Some child3 \<Rightarrow> Some (0, item_valueint child2, item_valueint child3))))"

definition share_file_columns :: "column list" where
  "share_file_columns =
     [Text_Col ''user'', Text_Col ''md5'', Text_Col ''time'', Text_Col ''filename'', Fixed_Col ''share_status'' 1,
      Long_Col ''pv'', Text_Col ''url'', Long_Col ''size'', Text_Col ''type'']"

definition get_share_filelist :: "'e services \<Rightarrow> globals \<Rightarrow> int \<Rightarrow> int \<Rightarrow> 'e \<Rightarrow> (int \<times> string \<times> 'e) option" where
  "get_share_filelist sv g start count e = do {
     let (conn, e) = msql_conn sv (mysql_user g) (mysql_pwd g) (mysql_db g) e;
     if \<not> conn then do {
       out2 \<leftarrow> return_status ''015'';
       Some (- 1, out2, e)
     }
     else do {
       let e = set_names sv e;
       sql_cmd \<leftarrow> sprintf_sql Sel_Share_Files [N start, N count];
       let (rows, e) = select_rows_of sv sql_cmd e;
       (case rows of
          None \<Rightarrow> do {
            out2 \<leftarrow> return_status ''015'';
            Some (- 1, out2, close_conn sv conn e)
          }
        | Some rows \<Rightarrow> do {
            array \<leftarrow> add_rows share_file_columns rows cJSON_CreateArray;
            out \<leftarrow> print_files array;
            Some (0, out, close_conn sv conn e)
          })
     }
   }"

section \<open>Ranking\<close>

text \<open>
  The rebuilding of the Redis set and the hash of names: the handler's \<open>ret\<close>. A row with a \<open>NULL\<close> stops it; the
  results of the Redis operations are not tested.
\<close>

fun ranking_rows :: "'e services \<Rightarrow> row list \<Rightarrow> 'e \<Rightarrow> (int \<times> 'e) option" where
  "ranking_rows sv [] e = Some (0, e)"
| "ranking_rows sv (row # rows) e =
     (case row of
        [md5, filename, pv] \<Rightarrow>
          (case (md5, filename, pv) of
             (Some md5, Some filename, Some pv) \<Rightarrow> do {
               fileid \<leftarrow> store 1024 (md5 @ filename);
               score \<leftarrow> c_atoi pv;
               (_, e) \<leftarrow> rop_zset_add sv FILE_PUBLIC_ZSET score fileid e;
               let (_, e) = rop_hash_set sv FILE_NAME_HASH fileid filename e;
               ranking_rows sv rows e
             }
           | _ \<Rightarrow> Some (- 1, e))
      | _ \<Rightarrow> None)"

definition rebuild_ranking :: "'e services \<Rightarrow> 'e \<Rightarrow> (int \<times> 'e) option" where
  "rebuild_ranking sv e = do {
     (_, e) \<leftarrow> rop_del_key sv FILE_PUBLIC_ZSET e;
     (_, e) \<leftarrow> rop_del_key sv FILE_NAME_HASH e;
     sql_cmd \<leftarrow> sprintf_sql Sel_Ranking [];
     let (rows, e) = select_rows_of sv sql_cmd e;
     (case rows of None \<Rightarrow> Some (- 1, e) | Some rows \<Rightarrow> ranking_rows sv rows e)
   }"

text \<open>The loop over the names of the files in rank order.\<close>

fun ranking_items :: "'e services \<Rightarrow> string list \<Rightarrow> cJSON \<Rightarrow> 'e \<Rightarrow> (int \<times> cJSON \<times> 'e) option" where
  "ranking_items sv [] array e = Some (0, array, e)"
| "ranking_items sv (v # values) array e = do {
     (ret, filename, e) \<leftarrow> rop_hash_get sv FILE_NAME_HASH (c_str v) 1024 [] e;
     if ret \<noteq> 0 then Some (- 1, array, e)
     else do {
       (score, e) \<leftarrow> rop_zset_get_score sv FILE_PUBLIC_ZSET (c_str v) e;
       if score = - 1 then Some (- 1, array, e)
       else do {
         let item = add_number ''pv'' score (add_string ''filename'' filename cJSON_CreateObject);
         ranking_items sv values (case add_item_to_array (Some array) (Some item) of None \<Rightarrow> array | Some a \<Rightarrow> a) e
       }
     }
   }"

text \<open>
  The part behind the comparison of the two numbers. \<open>calloc(count, VALUES_ID_SIZE)\<close> converts a negative count
  to a \<open>size_t\<close> and then fails; the result is the handler's \<open>ret\<close> and, for 0, the array of items.
\<close>

definition ranking_page :: "'e services \<Rightarrow> int \<Rightarrow> int \<Rightarrow> 'e \<Rightarrow> (int \<times> cJSON \<times> 'e) option" where
  "ranking_page sv start count e =
     (if count < 0 then Some (- 1, cJSON_CreateArray, e)
      else do {
        let values = replicate (nat count) (replicate VALUES_ID_SIZE (CHR 0x00));
        end1 \<leftarrow> int_add start count;
        end1 \<leftarrow> int_add end1 (- 1);
        (ret, values, n, e) \<leftarrow> rop_zset_zrevrange sv FILE_PUBLIC_ZSET start end1 values 0 e;
        if ret \<noteq> 0 then Some (ret, cJSON_CreateArray, e)
        else ranking_items sv (take (nat n) values) cJSON_CreateArray e
      })"

definition ranking_body :: "'e services \<Rightarrow> int \<Rightarrow> int \<Rightarrow> 'e \<Rightarrow> (int \<times> cJSON \<times> 'e) option" where
  "ranking_body sv start count e = do {
     (ret2, tmp, e) \<leftarrow> select_one sv Sel_Count_Of [S share_user] (Some (512, [])) e;
     if ret2 \<noteq> 0 then Some (- 1, cJSON_CreateArray, e)
     else do {
       sql_num \<leftarrow> c_atoi tmp;
       (redis_num, e) \<leftarrow> rop_zset_zcard sv FILE_PUBLIC_ZSET e;
       if redis_num = - 1 then Some (- 1, cJSON_CreateArray, e)
       else do {
         (ret, e) \<leftarrow> (if redis_num \<noteq> sql_num then rebuild_ranking sv e else Some (0, e));
         if ret \<noteq> 0 then Some (ret, cJSON_CreateArray, e) else ranking_page sv start count e
       }
     }
   }"

definition get_ranking_filelist :: "'e services \<Rightarrow> globals \<Rightarrow> int \<Rightarrow> int \<Rightarrow> 'e \<Rightarrow> (int \<times> string \<times> 'e) option" where
  "get_ranking_filelist sv g start count e = do {
     (redis_conn, e) \<leftarrow> rop_connectdb_nopwd sv (redis_ip g) (redis_port g) e;
     (ret, array, conn, e) \<leftarrow>
       (if \<not> redis_conn then Some (- 1, cJSON_CreateArray, False, e)
        else do {
          let (conn, e) = msql_conn sv (mysql_user g) (mysql_pwd g) (mysql_db g) e;
          if \<not> conn then Some (- 1, cJSON_CreateArray, conn, e)
          else do {
            (ret, array, e) \<leftarrow> ranking_body sv start count (set_names sv e);
            Some (ret, array, conn, e)
          }
        });
     out \<leftarrow> (if ret = 0 then print_files array else return_status ''015'');
     Some (ret, out, close_conn sv conn (rop_disconnect sv redis_conn e))
   }"

section \<open>The loop\<close>

text \<open>
  \<open>cmd\<close> is declared outside the loop; \<open>start\<close> and \<open>count\<close> are indeterminate (\<open>start0\<close>, \<open>count0\<close>) for a request
  without them.
\<close>

definition sharefiles_request ::
    "'e services \<Rightarrow> globals \<Rightarrow> int \<Rightarrow> int \<Rightarrow> request \<Rightarrow> string \<times> 'e \<Rightarrow> (string \<times> string \<times> 'e) option" where
  "sharefiles_request sv g start0 count0 rq st = do {
     let (cmd, e) = st;
     query \<leftarrow> query_string rq;
     cmd \<leftarrow> query_cmd query cmd;
     if cmd = ''count'' then do {
       (out, e) \<leftarrow> get_share_files_count sv g e;
       Some (http_header @ out, cmd, e)
     }
     else do {
       input \<leftarrow> fcgi_input rq;
       (case input of
          No_Data \<Rightarrow> Some (http_header @ no_data, cmd, e)
        | Read_Err \<Rightarrow> Some (http_header, cmd, e)
        | Body buf \<Rightarrow> do {
            (_, start, count) \<leftarrow> share_get_fileslist_json_info buf start0 count0;
            (_, out, e) \<leftarrow> (if cmd = ''normal'' then get_share_filelist sv g start count e
                            else if cmd = ''pvdesc'' then get_ranking_filelist sv g start count e
                            else Some (0, [], e));
            Some (http_header @ out, cmd, e)
          })
     }
   }"

definition sharefiles_main ::
    "'e services \<Rightarrow> string \<Rightarrow> int \<Rightarrow> int \<Rightarrow> request list \<Rightarrow> 'e \<Rightarrow> (string list \<times> 'e) option" where
  "sharefiles_main sv cmd start0 count0 rqs e = do {
     g \<leftarrow> read_cfg sv e;
     (outs, _, e) \<leftarrow> serve (sharefiles_request sv g start0 count0) rqs (cmd, e);
     Some (outs, e)
   }"

end
