(* ===== verification/Cgi_Sharefilesop.thy ===== *)
theory Cgi_Sharefilesop
  imports Cgi_Common
begin

text \<open>
  The program \<open>src/src/cgi/cgi_sharefilesop.c\<close>: counting the downloads of a shared file, ending its sharing and
  saving it to the list of another user. The names of functions that \<open>cgi_filesop.c\<close> also has carry a
  prefix. As there, \<open>..._body\<close> is a handler up to its label \<open>END\<close>.
\<close>

definition share_get_json_info :: "string \<Rightarrow> string \<Rightarrow> string \<Rightarrow> string \<Rightarrow> (int \<times> string list) option" where
  "share_get_json_info buf user md5 filename =
     request_fields buf
       [(''user'', USER_NAME_LEN, user), (''md5'', MD5_LEN, md5), (''filename'', FILE_NAME_LEN, filename)]"

section \<open>Counting downloads\<close>

definition share_pv_redis :: "'e services \<Rightarrow> string \<Rightarrow> string \<Rightarrow> int \<Rightarrow> 'e \<Rightarrow> (int \<times> 'e) option" where
  "share_pv_redis sv filename fileid pv e = do {
     (ret2, e) \<leftarrow> rop_zset_exit sv FILE_PUBLIC_ZSET fileid e;
     if ret2 = 1 then rop_zset_increment sv FILE_PUBLIC_ZSET fileid e
     else if ret2 = 0 then do {
       (_, e) \<leftarrow> rop_zset_add sv FILE_PUBLIC_ZSET pv fileid e;
       let (_, e) = rop_hash_set sv FILE_NAME_HASH fileid filename e;
       Some (0, e)
     }
     else Some (- 1, e)
   }"

definition share_pv_file_body ::
    "'e services \<Rightarrow> globals \<Rightarrow> string \<Rightarrow> string \<Rightarrow> 'e \<Rightarrow> (int \<times> bool \<times> bool \<times> 'e) option" where
  "share_pv_file_body sv g md5 filename e = do {
     (redis_conn, e) \<leftarrow> rop_connectdb_nopwd sv (redis_ip g) (redis_port g) e;
     if \<not> redis_conn then Some (- 1, redis_conn, False, e)
     else do {
       fileid \<leftarrow> store 1024 (md5 @ filename);
       let (conn, e) = msql_conn sv (mysql_user g) (mysql_pwd g) (mysql_db g) e;
       if \<not> conn then Some (- 1, redis_conn, conn, e)
       else do {
         let e = set_names sv e;
         (ret2, tmp, e) \<leftarrow> select_one sv Sel_Share_Pv [S md5, S filename] (Some (512, [])) e;
         if ret2 \<noteq> 0 then Some (- 1, redis_conn, conn, e)
         else do {
           pv \<leftarrow> c_atoi tmp;
           pv1 \<leftarrow> int_add pv 1;
           (ok, e) \<leftarrow> run_sql sv Upd_Share_Pv [N pv1, S md5, S filename] e;
           if \<not> ok then Some (- 1, redis_conn, conn, e)
           else do {
             (ret, e) \<leftarrow> share_pv_redis sv filename fileid pv1 e;
             Some (ret, redis_conn, conn, e)
           }
         }
       }
     }
   }"

definition share_pv_file :: "'e services \<Rightarrow> globals \<Rightarrow> string \<Rightarrow> string \<Rightarrow> 'e \<Rightarrow> (int \<times> string \<times> 'e) option" where
  "share_pv_file sv g md5 filename e = do {
     (ret, redis_conn, conn, e) \<leftarrow> share_pv_file_body sv g md5 filename e;
     out \<leftarrow> return_status (if ret = 0 then ''016'' else ''017'');
     Some (ret, out, close_conn sv conn (rop_disconnect sv redis_conn e))
   }"

section \<open>Ending a share\<close>

definition cancel_tables :: "'e services \<Rightarrow> string \<Rightarrow> string \<Rightarrow> string \<Rightarrow> 'e \<Rightarrow> (int \<times> 'e) option" where
  "cancel_tables sv user md5 filename e = do {
     (ok, e) \<leftarrow> run_sql sv Upd_Unshared [S user, S md5, S filename] e;
     if \<not> ok then Some (- 1, e)
     else do {
       (ret2, tmp, e) \<leftarrow> select_one sv Sel_Count [S share_user] (Some (512, [])) e;
       if ret2 \<noteq> 0 then Some (- 1, e)
       else do {
         count \<leftarrow> c_atoi tmp;
         (ok, e) \<leftarrow> (if count = 1 then run_sql sv Del_Count [S share_user] e
                     else do {
                       count \<leftarrow> int_add count (- 1);
                       run_sql sv Upd_Count [N count, S share_user] e
                     });
         if \<not> ok then Some (- 1, e)
         else do {
           (ok, e) \<leftarrow> run_sql sv Del_Share [S user, S md5, S filename] e;
           Some (if \<not> ok then - 1 else 0, e)
         }
       }
     }
   }"

definition cancel_share_file_body ::
    "'e services \<Rightarrow> globals \<Rightarrow> string \<Rightarrow> string \<Rightarrow> string \<Rightarrow> 'e \<Rightarrow> (int \<times> bool \<times> bool \<times> 'e) option" where
  "cancel_share_file_body sv g user md5 filename e = do {
     (redis_conn, e) \<leftarrow> rop_connectdb_nopwd sv (redis_ip g) (redis_port g) e;
     if \<not> redis_conn then Some (- 1, redis_conn, False, e)
     else do {
       let (conn, e) = msql_conn sv (mysql_user g) (mysql_pwd g) (mysql_db g) e;
       if \<not> conn then Some (- 1, redis_conn, conn, e)
       else do {
         let e = set_names sv e;
         fileid \<leftarrow> store 1024 (md5 @ filename);
         (ret, e) \<leftarrow> cancel_tables sv user md5 filename e;
         if ret \<noteq> 0 then Some (ret, redis_conn, conn, e)
         else do {
           (ret, e) \<leftarrow> rop_zset_zrem sv FILE_PUBLIC_ZSET fileid e;
           if ret \<noteq> 0 then Some (ret, redis_conn, conn, e)
           else do {
             (ret, e) \<leftarrow> rop_hash_del sv FILE_NAME_HASH fileid e;
             Some (ret, redis_conn, conn, e)
           }
         }
       }
     }
   }"

definition cancel_share_file ::
    "'e services \<Rightarrow> globals \<Rightarrow> string \<Rightarrow> string \<Rightarrow> string \<Rightarrow> 'e \<Rightarrow> (int \<times> string \<times> 'e) option" where
  "cancel_share_file sv g user md5 filename e = do {
     (ret, redis_conn, conn, e) \<leftarrow> cancel_share_file_body sv g user md5 filename e;
     out \<leftarrow> return_status (if ret = 0 then ''018'' else ''019'');
     Some (ret, out, close_conn sv conn (rop_disconnect sv redis_conn e))
   }"

section \<open>Saving a shared file\<close>

definition save_file_body ::
    "'e services \<Rightarrow> globals \<Rightarrow> string \<Rightarrow> string \<Rightarrow> string \<Rightarrow> 'e \<Rightarrow> (int \<times> bool \<times> 'e) option" where
  "save_file_body sv g user md5 filename e = do {
     let (conn, e) = msql_conn sv (mysql_user g) (mysql_pwd g) (mysql_db g) e;
     if \<not> conn then Some (- 1, conn, e)
     else do {
       let e = set_names sv e;
       (ret2, _, e) \<leftarrow> select_one sv Sel_User_File [S user, S md5, S filename] None e;
       if ret2 = 2 then Some (- 2, conn, e)
       else do {
         (ret2, tmp, e) \<leftarrow> select_one sv Sel_File_Count [S md5] (Some (512, [])) e;
         if ret2 \<noteq> 0 then Some (- 1, conn, e)
         else do {
           count \<leftarrow> c_atoi tmp;
           count \<leftarrow> int_add count 1;
           (ok, e) \<leftarrow> run_sql sv Upd_File_Count [N count, S md5] e;
           if \<not> ok then Some (- 1, conn, e)
           else do {
             let (ptm, e) = localtime sv e;
             time_str \<leftarrow> strftime 128 ptm;
             (ok, e) \<leftarrow> run_sql sv Ins_User_File [S user, S md5, S time_str, S filename, N 0, N 0] e;
             if \<not> ok then Some (- 1, conn, e)
             else do {
               (ret, e) \<leftarrow> count_file sv Ins_Count user tmp e;
               Some (ret, conn, e)
             }
           }
         }
       }
     }
   }"

definition save_file :: "'e services \<Rightarrow> globals \<Rightarrow> string \<Rightarrow> string \<Rightarrow> string \<Rightarrow> 'e \<Rightarrow> (int \<times> string \<times> 'e) option" where
  "save_file sv g user md5 filename e = do {
     (ret, conn, e) \<leftarrow> save_file_body sv g user md5 filename e;
     out \<leftarrow> (if ret = 0 then return_status ''020''
            else if ret = - 1 then return_status ''022''
            else if ret = - 2 then return_status ''021''
            else Some []);
     Some (ret, out, close_conn sv conn e)
   }"

section \<open>The loop\<close>

text \<open>
  The arrays \<open>cmd\<close>, \<open>user\<close>, \<open>md5\<close> and \<open>filename\<close> keep their contents from one request to the next, and no
  request is checked for a token. \<open>cmd\<close> has 20 bytes; \<open>getenv\<close> may give a null query string.
\<close>

definition sharefilesop_request ::
    "'e services \<Rightarrow> globals \<Rightarrow> request \<Rightarrow> string list \<times> 'e \<Rightarrow> (string \<times> string list \<times> 'e) option" where
  "sharefilesop_request sv g rq st = do {
     let (arrays, e) = st;
     (case arrays of
        [cmd, user, md5, filename] \<Rightarrow> do {
          query \<leftarrow> query_string rq;
          cmd \<leftarrow> query_cmd query cmd;
          input \<leftarrow> fcgi_input rq;
          (case input of
             No_Data \<Rightarrow> Some (http_header @ no_data, [cmd, user, md5, filename], e)
           | Read_Err \<Rightarrow> Some (http_header, [cmd, user, md5, filename], e)
           | Body buf \<Rightarrow> do {
               (_, arrays) \<leftarrow> share_get_json_info buf user md5 filename;
               (case arrays of
                  [user, md5, filename] \<Rightarrow> do {
                    (_, out, e) \<leftarrow> (if cmd = ''pv'' then share_pv_file sv g md5 filename e
                                    else if cmd = ''cancel'' then cancel_share_file sv g user md5 filename e
                                    else if cmd = ''save'' then save_file sv g user md5 filename e
                                    else Some (0, [], e));
                    Some (http_header @ out, [cmd, user, md5, filename], e)
                  }
                | _ \<Rightarrow> None)
             })
        }
      | _ \<Rightarrow> None)
   }"

definition sharefilesop_main :: "'e services \<Rightarrow> string list \<Rightarrow> request list \<Rightarrow> 'e \<Rightarrow> (string list \<times> 'e) option" where
  "sharefilesop_main sv arrays rqs e = do {
     g \<leftarrow> read_cfg sv e;
     (outs, _, e) \<leftarrow> serve (sharefilesop_request sv g) rqs (arrays, e);
     Some (outs, e)
   }"

end
