(* ===== verification/Disk_Server.thy ===== *)
theory Disk_Server
  imports Redis_Db Cgi_Common
begin

text \<open>
  The contract between the CGI programs and the servers they talk to, as locales over an abstraction of the
  outside world: the tables, the Redis keys and the shell commands run so far. \<open>disk_world\<close> lets MySQL refuse any
  statement and Redis answer each command with any reply, but what is executed has the effect of \<open>sql_exec\<close>; \<open>disk_world_up\<close> adds
  that the servers are up and no statement is refused. Both are interpreted on the servers at the end of the
  theory. The rules derived here describe every primitive step of a handler.
\<close>

record disk =
  w_tables :: tables
  w_redis :: rdb
  w_shell :: "string list"

section \<open>Configuration\<close>

text \<open>The string that a configuration gives for a title and a key.\<close>

definition cfg_string :: "cJSON \<Rightarrow> string \<Rightarrow> string \<Rightarrow> string option" where
  "cfg_string cfg title key =
     (case cJSON_GetObjectItem (Some cfg) title of
        None \<Rightarrow> None
      | Some father \<Rightarrow>
          (case cJSON_GetObjectItem (Some father) key of
             None \<Rightarrow> None
           | Some son \<Rightarrow> map_option c_str (valuestring son)))"

definition cfg_entry :: "cJSON \<Rightarrow> string \<Rightarrow> string \<Rightarrow> nat \<Rightarrow> bool" where
  "cfg_entry cfg title key n \<longleftrightarrow> (case cfg_string cfg title key of None \<Rightarrow> False | Some s \<Rightarrow> length s < n)"

text \<open>The entries the programs use are there and fit their arrays; the Redis port is a number.\<close>

definition cfg_ok :: "cJSON \<Rightarrow> bool" where
  "cfg_ok cfg \<longleftrightarrow> cfg_entry cfg ''mysql'' ''user'' 128 \<and> cfg_entry cfg ''mysql'' ''password'' 128
     \<and> cfg_entry cfg ''mysql'' ''database'' 128 \<and> cfg_entry cfg ''redis'' ''ip'' 30 \<and> cfg_entry cfg ''redis'' ''port'' 10
     \<and> cfg_entry cfg ''dfs_path'' ''client'' 256 \<and> cfg_entry cfg ''storage_web_server'' ''port'' 20
     \<and> (case cfg_string cfg ''redis'' ''port'' of None \<Rightarrow> False | Some s \<Rightarrow> port_of s \<noteq> None)"

definition cfg_at :: "cJSON \<Rightarrow> string \<Rightarrow> string \<Rightarrow> string" where
  "cfg_at cfg title key = (case cfg_string cfg title key of None \<Rightarrow> [] | Some s \<Rightarrow> s)"

lemma cfg_value_read:
  assumes "read_file sv CFG_PATH e = Some content" and "cJSON_Parse (c_str content) = Ok cfg" and "cfg_entry cfg title key n"
  shows "cfg_value sv title key n old e = Some (0, cfg_at cfg title key)"
  using assms
  by (auto simp: cfg_value_def get_cfg_value_def cfg_entry_def cfg_string_def cfg_at_def store_def split: option.splits)

section \<open>The first column of the first row\<close>

text \<open>What \<open>process_result_one\<close> makes of a result.\<close>

definition result_one :: "(nat \<times> string) option \<Rightarrow> qresult \<Rightarrow> (int \<times> string) option" where
  "result_one buf result =
     (let old = (case buf of None \<Rightarrow> [] | Some (n, text) \<Rightarrow> text)
      in case result of
           Q_Ok (Some []) \<Rightarrow> Some (1, old)
         | Q_Ok (Some (row # rows)) \<Rightarrow>
             (case buf of
                None \<Rightarrow> Some (2, old)
              | Some (n, text) \<Rightarrow>
                  (case row of [] \<Rightarrow> None | None # cols \<Rightarrow> Some (0, old) | Some v # cols \<Rightarrow> map_option (Pair 0) (store n v)))
         | _ \<Rightarrow> Some (- 1, old))"

lemma process_result_one_eq:
  "process_result_one sv sql_cmd buf e =
     (case mysql_query sv sql_cmd e of (result, e') \<Rightarrow> map_option (\<lambda>(ret, text). (ret, text, e')) (result_one buf result))"
  by (auto simp: process_result_one_def result_one_def store_def Let_def split: prod.splits qresult.splits option.splits list.splits)

lemma result_one_none: "result_one None (select_rows P cols rs) = Some (if filter P rs = [] then 1 else 2, [])"
  by (auto simp: result_one_def select_rows_def split: list.splits)

lemma find_filter: "find P xs = (case filter P xs of [] \<Rightarrow> None | x # _ \<Rightarrow> Some x)"
  by (induction xs) auto

lemma find_found: "find P xs = Some x \<Longrightarrow> x \<in> set xs" "find P xs = Some x \<Longrightarrow> P x"
  by (auto simp: find_Some_iff)

lemma result_one_text:
  assumes "\<And>r. r \<in> set rs \<Longrightarrow> P r \<Longrightarrow> length (g r) < n"
  shows "result_one (Some (n, tmp)) (select_rows P (\<lambda>r. [Some (g r)]) rs) =
    Some (case find P rs of None \<Rightarrow> (1, tmp) | Some r \<Rightarrow> (0, g r))"
proof (cases "filter P rs")
  case (Cons r rest)
  then have "r \<in> set rs" "P r" by (metis Cons_eq_filterD in_set_conv_decomp, metis Cons_eq_filterD)
  with Cons assms show ?thesis by (simp add: result_one_def select_rows_def find_filter store_def)
qed (simp add: result_one_def select_rows_def find_filter)

lemma length_show_int [buf_simps]: "in_int i \<Longrightarrow> length (show_int i) < 512"
  using show_int_length [of i] by simp

lemma count_file_eq:
  "count_file sv ins user tmp e = do {
     (ret2, tmp, e) \<leftarrow> select_one sv Sel_Count [S user] (Some (512, tmp)) e;
     (ok, e) \<leftarrow>
       (if ret2 = 1 then run_sql sv ins [S user, N 1] e
        else if ret2 = 0 then do {
          count \<leftarrow> c_atoi tmp;
          count \<leftarrow> int_add count 1;
          run_sql sv Upd_Count [N count, S user] e
        }
        else run_sql sv Sel_Count [S user] e);
     Some (if ok then 0 else - 1, e)
   }"
  unfolding count_file_def select_one_def run_sql_def
  by (cases "sprintf_sql Sel_Count [S user]")
    (auto simp: Let_def bind_map_option split: option.splits prod.splits intro!: arg_cong2 [where f = Option.bind] ext)

text \<open>Arguments of at most 310 bytes together, numbers being \<open>int\<close>s.\<close>

definition short_args :: "arg list \<Rightarrow> bool" where
  "short_args args \<longleftrightarrow> list_all (\<lambda>a. case a of N i \<Rightarrow> in_int i | S _ \<Rightarrow> True) args
     \<and> sum_list (map (\<lambda>a. case a of N _ \<Rightarrow> 11 | S v \<Rightarrow> length v) args) \<le> 310"

lemma short_args_len: "short_args args \<Longrightarrow> sum_list (map arg_len args) \<le> 310"
proof -
  have "list_all (\<lambda>a. case a of N i \<Rightarrow> in_int i | S _ \<Rightarrow> True) args \<Longrightarrow>
      sum_list (map arg_len args) \<le> sum_list (map (\<lambda>a. case a of N _ \<Rightarrow> 11 | S v \<Rightarrow> length v) args)"
    using show_int_length by (induction args) (auto intro!: add_mono split: arg.splits)
  then show "short_args args \<Longrightarrow> ?thesis" by (auto simp: short_args_def)
qed

text \<open>Two states of the disk that differ in \<open>user_file_count\<close> only.\<close>

definition only_counts :: "disk \<Rightarrow> disk \<Rightarrow> bool" where
  "only_counts d d' \<longleftrightarrow> d' = d \<lparr>w_tables := w_tables d \<lparr>t_user_file_count := t_user_file_count (w_tables d')\<rparr>\<rparr>"

lemma returns_pair: "(\<And>x y. p = (x, y) \<Longrightarrow> returns (f x y) Q) \<Longrightarrow> returns (case p of (x, y) \<Rightarrow> f x y) Q"
  by (cases p) simp

lemma returns_int_add: "returns (int_add i j) Q \<longleftrightarrow> in_int (i + j) \<and> Q (i + j)"
  by (simp add: int_add_def)

lemma returns_strftime: "valid_tm t \<Longrightarrow> 19 < n \<Longrightarrow> returns (strftime n t) Q \<longleftrightarrow> Q (time_text t)"
  using length_time_text [of t] by (simp add: strftime_def store_def)

lemma plain_time_text: "list_all (plain sq) (time_text t)"
  using time_text_set [of _ t] by (fastforce simp: list_all_iff plain_def sq_def c_isdigit_def)

lemma in_int_consts: "in_int 0" "in_int 1" "in_int (- 1)"
  by (simp_all add: in_int_def)

lemmas stmt_simps = piece_defs executed_def short_args_def in_int_consts plain_time_text
lemmas ret_simps = returns_bind returns_int_add returns_strftime returns_store Let_def

lemma digit_chars [simp]:
  "c_isdigit (CHR ''0'')" "c_isdigit (CHR ''1'')" "c_isdigit (CHR ''2'')" "c_isdigit (CHR ''3'')" "c_isdigit (CHR ''4'')"
  "c_isdigit (CHR ''5'')" "c_isdigit (CHR ''6'')" "c_isdigit (CHR ''7'')" "c_isdigit (CHR ''8'')" "c_isdigit (CHR ''9'')"
  by (simp_all add: c_isdigit_def)

section \<open>The servers\<close>

locale disk_world =
  fixes sv :: "'e services" and ab :: "'e \<Rightarrow> disk" and cfg :: cJSON
  assumes query_law: "parse_sql sql_cmd = Some (k, args) \<Longrightarrow> mysql_query sv sql_cmd e = (r, e') \<Longrightarrow>
        (r = Q_Err \<and> ab e' = ab e)
          \<or> (r, w_tables (ab e')) = sql_exec k args (w_tables (ab e)) \<and> ab e' = ab e \<lparr>w_tables := w_tables (ab e')\<rparr>"
    and init_law: "ab (snd (mysql_init sv e)) = ab e"
    and real_connect_law: "ab (snd (mysql_real_connect sv u p d e)) = ab e"
    and close_law: "ab (mysql_close sv e) = ab e"
    and redis_connect_law: "ab (snd (redisConnect sv ip port e)) = ab e"
    and redis_free_law: "ab (redisFree sv e) = ab e"
    and redis_law: "\<exists>reply e' db. redisCommand sv cmd e = (Some reply, e') \<and> ab e' = ab e \<lparr>w_redis := db\<rparr>
        \<and> (text_command cmd \<longrightarrow> reply_str reply \<noteq> None)"
    and time_law: "localtime sv e = (t, e') \<Longrightarrow> valid_tm t \<and> ab e' = ab e"
    and srand_law: "ab (c_srand sv e) = ab e"
    and rand_law: "ab (snd (c_rand sv e)) = ab e"
    and system_law: "ab (snd (c_system sv cmd' e)) = ab e \<lparr>w_shell := w_shell (ab e) @ [cmd']\<rparr>"
    and cfg_law: "\<exists>content. read_file sv CFG_PATH e = Some content \<and> cJSON_Parse (c_str content) = Ok cfg"
    and cfg_valid: "cfg_ok cfg"
begin

lemma cfg_values:
  "cfg_value sv ''mysql'' ''user'' 128 old e = Some (0, cfg_at cfg ''mysql'' ''user'')"
  "cfg_value sv ''mysql'' ''password'' 128 old e = Some (0, cfg_at cfg ''mysql'' ''password'')"
  "cfg_value sv ''mysql'' ''database'' 128 old e = Some (0, cfg_at cfg ''mysql'' ''database'')"
  "cfg_value sv ''redis'' ''ip'' 30 old e = Some (0, cfg_at cfg ''redis'' ''ip'')"
  "cfg_value sv ''redis'' ''port'' 10 old e = Some (0, cfg_at cfg ''redis'' ''port'')"
  "cfg_value sv ''dfs_path'' ''client'' 256 old e = Some (0, cfg_at cfg ''dfs_path'' ''client'')"
  "cfg_value sv ''storage_web_server'' ''port'' 20 old e = Some (0, cfg_at cfg ''storage_web_server'' ''port'')"
  using cfg_law [of e] cfg_valid by (auto simp: cfg_ok_def intro: cfg_value_read)

lemma cfg_port: "port_of (cfg_at cfg ''redis'' ''port'') \<noteq> None"
  using cfg_valid by (auto simp: cfg_ok_def cfg_at_def split: option.splits)

subsection \<open>Steps that leave the abstraction alone\<close>

lemma ab_msql_conn: "msql_conn sv u p d e = (conn, e') \<Longrightarrow> ab e' = ab e"
  using init_law [of e] real_connect_law close_law
  by (auto simp: msql_conn_def split: prod.splits if_splits) (metis snd_conv)+

lemma ab_close_conn [simp]: "ab (close_conn sv conn e) = ab e"
  by (simp add: close_conn_def close_law)

lemma ab_disconnect [simp]: "ab (rop_disconnect sv conn e) = ab e"
  by (simp add: rop_disconnect_def redis_free_law)

lemma ab_set_names [simp]: "ab (set_names sv e) = ab e"
proof -
  have "parse_sql (sql_text Set_Names []) = Some (Set_Names, [])" by (rule parse_sql_render) simp
  then have parse: "parse_sql ''set names utf8'' = Some (Set_Names, [])" by (simp add: sql_text_def)
  obtain r e' where q: "mysql_query sv ''set names utf8'' e = (r, e')" by fastforce
  show ?thesis using query_law [OF parse q] q by (auto simp: set_names_def executed_def)
qed

lemma connectdb_wp [wp_rules]:
  assumes "port_of port \<noteq> None" and "\<And>c e'. ab e' = ab e \<Longrightarrow> Q (c, e')"
  shows "returns (rop_connectdb_nopwd sv ip port e) Q"
proof -
  obtain p where p: "port_of port = Some p" using assms(1) by blast
  obtain c e' where "redisConnect sv ip p e = (c, e')" by fastforce
  moreover from this have "ab e' = ab e" using redis_connect_law by (metis snd_conv)
  ultimately show ?thesis
    using p assms(2) redis_free_law by (auto simp: rop_connectdb_nopwd_def opened_def split: connected.splits)
qed

subsection \<open>Statements\<close>

lemma query_cases:
  assumes "fits (sql_tail k) args" and "mysql_query sv (sql_text k args) e = (r, e')"
  obtains "r = Q_Err" and "ab e' = ab e"
  | "r = fst (sql_exec k args (w_tables (ab e)))" and "ab e' = ab e \<lparr>w_tables := snd (sql_exec k args (w_tables (ab e)))\<rparr>"
  using query_law [OF parse_sql_render [OF assms(1)] assms(2)] by (metis fst_conv snd_conv)

lemma run_sql_wp:
  assumes "fits (sql_tail k) args" and "short_args args"
    and "\<And>e'. ab e' = ab e \<Longrightarrow> Q (False, e')"
    and "\<And>e'. ab e' = ab e \<lparr>w_tables := snd (sql_exec k args (w_tables (ab e)))\<rparr> \<Longrightarrow>
      Q (fst (sql_exec k args (w_tables (ab e))) \<noteq> Q_Err, e')"
  shows "returns (run_sql sv k args e) Q"
proof -
  obtain r e' where q: "mysql_query sv (sql_text k args) e = (r, e')" by fastforce
  have "Q (r \<noteq> Q_Err, e')"
    using q by (rule query_cases [OF assms(1)]) (use assms(3,4) in auto)
  then show ?thesis
    using q sql_text_short [OF short_args_len [OF assms(2)]] by (simp add: run_sql_def sprintf_sql_def SQL_MAX_LEN_def store_def)
qed

lemma select_one_wp:
  assumes "fits (sql_tail k) args" and "short_args args"
    and "sql_exec k args (w_tables (ab e)) = (result, w_tables (ab e))"
    and "\<And>e'. ab e' = ab e \<Longrightarrow> Q (- 1, case buf of None \<Rightarrow> [] | Some (n, text) \<Rightarrow> text, e')"
    and "\<And>e'. ab e' = ab e \<Longrightarrow> returns (result_one buf result) (\<lambda>(ret, text). Q (ret, text, e'))"
  shows "returns (select_one sv k args buf e) Q"
proof -
  obtain r e' where q: "mysql_query sv (sql_text k args) e = (r, e')" by fastforce
  have "returns (result_one buf r) (\<lambda>(ret, text). Q (ret, text, e'))"
    using q by (rule query_cases [OF assms(1)]) (use assms(3,4,5) in \<open>auto simp: result_one_def\<close>)
  then show ?thesis
    using q sql_text_short [OF short_args_len [OF assms(2)]]
    by (auto simp: select_one_def sprintf_sql_def SQL_MAX_LEN_def store_def process_result_one_eq returns_iff)
qed

text \<open>A query for a number, for a text, and for the existence of a row.\<close>

lemma select_num_wp:
  assumes "fits (sql_tail k) args" and "short_args args"
    and "sql_exec k args (w_tables (ab e)) = (select_rows P (\<lambda>r. [num_col (g r)]) rs, w_tables (ab e))"
    and "\<And>r. r \<in> set rs \<Longrightarrow> in_int (g r)"
    and "\<And>e'. ab e' = ab e \<Longrightarrow> Q (- 1, tmp, e')"
    and "\<And>e'. ab e' = ab e \<Longrightarrow> find P rs = None \<Longrightarrow> Q (1, tmp, e')"
    and "\<And>e' r. ab e' = ab e \<Longrightarrow> find P rs = Some r \<Longrightarrow> r \<in> set rs \<Longrightarrow> P r \<Longrightarrow> Q (0, show_int (g r), e')"
  shows "returns (select_one sv k args (Some (512, tmp)) e) Q"
proof (rule select_one_wp [OF assms(1-3)])
  show "returns (result_one (Some (512, tmp)) (select_rows P (\<lambda>r. [num_col (g r)]) rs)) (\<lambda>(ret, text). Q (ret, text, e'))"
    if "ab e' = ab e" for e'
    using result_one_text [of rs P "\<lambda>r. show_int (g r)" 512 tmp] assms(4,6,7) that
    by (auto simp: num_col_def length_show_int dest: find_found split: option.splits)
qed (use assms(5) in simp)

lemma select_text_wp:
  assumes "fits (sql_tail k) args" and "short_args args"
    and "sql_exec k args (w_tables (ab e)) = (select_rows P (\<lambda>r. [Some (g r)]) rs, w_tables (ab e))"
    and "\<And>r. r \<in> set rs \<Longrightarrow> P r \<Longrightarrow> length (g r) < n"
    and "\<And>e'. ab e' = ab e \<Longrightarrow> Q (- 1, tmp, e')"
    and "\<And>e'. ab e' = ab e \<Longrightarrow> find P rs = None \<Longrightarrow> Q (1, tmp, e')"
    and "\<And>e' r. ab e' = ab e \<Longrightarrow> find P rs = Some r \<Longrightarrow> r \<in> set rs \<Longrightarrow> P r \<Longrightarrow> Q (0, g r, e')"
  shows "returns (select_one sv k args (Some (n, tmp)) e) Q"
proof (rule select_one_wp [OF assms(1-3)])
  show "returns (result_one (Some (n, tmp)) (select_rows P (\<lambda>r. [Some (g r)]) rs)) (\<lambda>(ret, text). Q (ret, text, e'))"
    if "ab e' = ab e" for e'
    using result_one_text [of rs P g n tmp] assms(4,6,7) that by (auto dest: find_found split: option.splits)
qed (use assms(5) in simp)

lemma select_any_wp:
  assumes "fits (sql_tail k) args" and "short_args args"
    and "sql_exec k args (w_tables (ab e)) = (select_rows P cols rs, w_tables (ab e))"
    and "\<And>e'. ab e' = ab e \<Longrightarrow> Q (- 1, [], e')"
    and "\<And>e'. ab e' = ab e \<Longrightarrow> \<forall>r \<in> set rs. \<not> P r \<Longrightarrow> Q (1, [], e')"
    and "\<And>e' r. ab e' = ab e \<Longrightarrow> r \<in> set rs \<Longrightarrow> P r \<Longrightarrow> Q (2, [], e')"
  shows "returns (select_one sv k args None e) Q"
  by (rule select_one_wp [OF assms(1-3)]) (use assms(4-6) in \<open>auto simp: result_one_none filter_empty_conv\<close>)

lemma count_file_wp:
  assumes "ins \<in> {Ins_Count, Ins_Share_Count}" and "list_all (plain sq) user" and "length user \<le> 280"
    and "\<And>r. r \<in> set (t_user_file_count (w_tables (ab e))) \<Longrightarrow> in_int (c_count r) \<and> in_int (c_count r + 1)"
    and "\<And>ret e'. only_counts (ab e) (ab e') \<Longrightarrow> Q (ret, e')"
  shows "returns (count_file sv ins user tmp e) Q"
  unfolding count_file_eq returns_bind
  by (rule select_num_wp [where P = "count_of user" and g = c_count and rs = "t_user_file_count (w_tables (ab e))"])
    (use assms in \<open>auto simp: returns_bind c_atoi_show_int int_add_def short_args_def only_counts_def executed_def piece_defs in_int_def intro!: run_sql_wp assms(5)\<close>)

subsection \<open>Redis\<close>

lemma redis_cases:
  obtains reply e' db where "redisCommand sv cmd e = (Some reply, e')" and "ab e' = ab e \<lparr>w_redis := db\<rparr>"
    and "text_command cmd \<Longrightarrow> reply_str reply \<noteq> None"
  using redis_law [of cmd e] by auto

lemma zset_exit_wp:
  "(\<And>ret e' db. ab e' = ab e \<lparr>w_redis := db\<rparr> \<Longrightarrow> Q (ret, e')) \<Longrightarrow> returns (rop_zset_exit sv key member e) Q"
  by (rule redis_cases [of "[''zlexcount'', key, CHR ''['' # member, CHR ''['' # member]" e])
    (auto simp: rop_zset_exit_def split: redisReply.splits)

lemma zset_add_wp:
  "(\<And>ret e' db. ab e' = ab e \<lparr>w_redis := db\<rparr> \<Longrightarrow> Q (ret, e')) \<Longrightarrow> returns (rop_zset_add sv key score member e) Q"
  by (rule redis_cases [of "[''ZADD'', key, show_int score, member]" e]) (auto simp: rop_zset_add_def)

lemma zset_zrem_wp:
  "(\<And>ret e' db. ab e' = ab e \<lparr>w_redis := db\<rparr> \<Longrightarrow> Q (ret, e')) \<Longrightarrow> returns (rop_zset_zrem sv key member e) Q"
  by (rule redis_cases [of "[''ZREM'', key, member]" e]) (auto simp: rop_zset_zrem_def)

lemma hash_del_wp:
  "(\<And>ret e' db. ab e' = ab e \<lparr>w_redis := db\<rparr> \<Longrightarrow> Q (ret, e')) \<Longrightarrow> returns (rop_hash_del sv key field e) Q"
  by (rule redis_cases [of "[''hdel'', key, field]" e]) (auto simp: rop_hash_del_def)

lemma zset_increment_wp:
  "(\<And>ret e' db. ab e' = ab e \<lparr>w_redis := db\<rparr> \<Longrightarrow> Q (ret, e')) \<Longrightarrow> returns (rop_zset_increment sv key member e) Q"
  by (rule redis_cases [of "[''ZINCRBY'', key, ''1'', member]" e])
    (auto simp: rop_zset_increment_def reply_ok_def text_command_def)

lemma setex_wp:
  "(\<And>ret e' db. ab e' = ab e \<lparr>w_redis := db\<rparr> \<Longrightarrow> Q (ret, e')) \<Longrightarrow> returns (rop_setex_string sv key secs value e) Q"
  by (rule redis_cases [of "[''setex'', key, show_nat (unat secs), value]" e])
    (auto simp: rop_setex_string_def reply_ok_def text_command_def)

lemma hash_set_wp:
  "(\<And>ret e' db. ab e' = ab e \<lparr>w_redis := db\<rparr> \<Longrightarrow> returns (f ret e') Q) \<Longrightarrow>
     returns (case rop_hash_set sv key field value e of (ret, e') \<Rightarrow> f ret e') Q"
  by (rule redis_cases [of "[''hset'', key, field, value]" e]) (auto simp: rop_hash_set_def)

subsection \<open>Connections and the clock\<close>

lemma conn_wp:
  "(\<And>conn e'. ab e' = ab e \<Longrightarrow> returns (f conn e') Q) \<Longrightarrow> returns (case msql_conn sv u p d e of (conn, e') \<Rightarrow> f conn e') Q"
  by (rule returns_pair) (auto dest: ab_msql_conn)

lemma clock_wp:
  "(\<And>t e'. valid_tm t \<Longrightarrow> length (time_text t) \<le> 19 \<Longrightarrow> ab e' = ab e \<Longrightarrow> returns (f t e') Q) \<Longrightarrow>
     returns (case localtime sv e of (t, e') \<Rightarrow> f t e') Q"
  by (rule returns_pair) (auto dest!: time_law simp: length_time_text)

end

section \<open>Servers that are up\<close>

text \<open>The count of files of a user after one more.\<close>

definition bump_count :: "string \<Rightarrow> count_row list \<Rightarrow> count_row list" where
  "bump_count user cs =
     (case find (count_of user) cs of
        None \<Rightarrow> cs @ [\<lparr>c_user = user, c_count = 1\<rparr>]
      | Some r \<Rightarrow> change (count_of user) (c_count_update (\<lambda>_. c_count r + 1)) cs)"

locale disk_world_up = disk_world +
  assumes query_up: "parse_sql sql_cmd = Some (k, args) \<Longrightarrow> mysql_query sv sql_cmd e = (r, e') \<Longrightarrow>
        (r, w_tables (ab e')) = sql_exec k args (w_tables (ab e))"
    and init_up: "fst (mysql_init sv e)"
    and real_connect_up: "fst (mysql_real_connect sv u p d e)"
    and redis_connect_up: "fst (redisConnect sv ip port e) = Connected"
    and redis_up: "redis_exec cmd (w_redis (ab e)) = Some (reply, db) \<Longrightarrow>
        \<exists>e'. redisCommand sv cmd e = (Some reply, e') \<and> ab e' = ab e \<lparr>w_redis := db\<rparr>"
begin

lemma msql_conn_up: "msql_conn sv u p d e = (conn, e') \<Longrightarrow> conn"
  using init_up [of e] real_connect_up by (auto simp: msql_conn_def split: prod.splits if_splits) (metis fst_conv)+

lemma connectdb_up:
  assumes "port_of port \<noteq> None" and "\<And>e'. ab e' = ab e \<Longrightarrow> Q (True, e')"
  shows "returns (rop_connectdb_nopwd sv ip port e) Q"
proof -
  obtain p where p: "port_of port = Some p" using assms(1) by blast
  obtain e' where e': "redisConnect sv ip p e = (Connected, e')" using redis_connect_up [of ip p e] by (metis prod.collapse)
  then have "ab e' = ab e" using redis_connect_law by (metis snd_conv)
  then show ?thesis using p e' assms(2) by (simp add: rop_connectdb_nopwd_def opened_def)
qed

lemma query_exact:
  assumes "fits (sql_tail k) args" and "mysql_query sv (sql_text k args) e = (r, e')"
  shows "r = fst (sql_exec k args (w_tables (ab e)))" and "ab e' = ab e \<lparr>w_tables := snd (sql_exec k args (w_tables (ab e)))\<rparr>"
  using query_up [OF parse_sql_render [OF assms(1)] assms(2)] query_law [OF parse_sql_render [OF assms(1)] assms(2)]
  by (auto simp: prod_eq_iff)

lemma run_sql_up:
  assumes "fits (sql_tail k) args" and "short_args args"
    and "\<And>e'. ab e' = ab e \<lparr>w_tables := snd (sql_exec k args (w_tables (ab e)))\<rparr> \<Longrightarrow>
      Q (fst (sql_exec k args (w_tables (ab e))) \<noteq> Q_Err, e')"
  shows "returns (run_sql sv k args e) Q"
proof -
  obtain r e' where q: "mysql_query sv (sql_text k args) e = (r, e')" by fastforce
  then show ?thesis
    using query_exact [OF assms(1) q] assms(3) sql_text_short [OF short_args_len [OF assms(2)]]
    by (simp add: run_sql_def sprintf_sql_def SQL_MAX_LEN_def store_def)
qed

lemma select_one_up:
  assumes "fits (sql_tail k) args" and "short_args args"
    and "sql_exec k args (w_tables (ab e)) = (result, w_tables (ab e))"
    and "\<And>e'. ab e' = ab e \<Longrightarrow> returns (result_one buf result) (\<lambda>(ret, text). Q (ret, text, e'))"
  shows "returns (select_one sv k args buf e) Q"
proof -
  obtain r e' where q: "mysql_query sv (sql_text k args) e = (r, e')" by fastforce
  have "returns (result_one buf r) (\<lambda>(ret, text). Q (ret, text, e'))"
    using query_exact [OF assms(1) q] assms(3,4) by simp
  then show ?thesis
    using q sql_text_short [OF short_args_len [OF assms(2)]]
    by (auto simp: select_one_def sprintf_sql_def SQL_MAX_LEN_def store_def process_result_one_eq returns_iff)
qed

lemma select_num_up:
  assumes "fits (sql_tail k) args" and "short_args args"
    and "sql_exec k args (w_tables (ab e)) = (select_rows P (\<lambda>r. [num_col (g r)]) rs, w_tables (ab e))"
    and "\<And>r. r \<in> set rs \<Longrightarrow> in_int (g r)"
    and "\<And>e'. ab e' = ab e \<Longrightarrow> find P rs = None \<Longrightarrow> Q (1, tmp, e')"
    and "\<And>e' r. ab e' = ab e \<Longrightarrow> find P rs = Some r \<Longrightarrow> r \<in> set rs \<Longrightarrow> P r \<Longrightarrow> Q (0, show_int (g r), e')"
  shows "returns (select_one sv k args (Some (512, tmp)) e) Q"
proof (rule select_one_up [OF assms(1-3)])
  show "returns (result_one (Some (512, tmp)) (select_rows P (\<lambda>r. [num_col (g r)]) rs)) (\<lambda>(ret, text). Q (ret, text, e'))"
    if "ab e' = ab e" for e'
    using result_one_text [of rs P "\<lambda>r. show_int (g r)" 512 tmp] assms(4,5,6) that
    by (auto simp: num_col_def length_show_int dest: find_found split: option.splits)
qed

lemma select_text_up:
  assumes "fits (sql_tail k) args" and "short_args args"
    and "sql_exec k args (w_tables (ab e)) = (select_rows P (\<lambda>r. [Some (g r)]) rs, w_tables (ab e))"
    and "\<And>r. r \<in> set rs \<Longrightarrow> P r \<Longrightarrow> length (g r) < n"
    and "\<And>e'. ab e' = ab e \<Longrightarrow> find P rs = None \<Longrightarrow> Q (1, tmp, e')"
    and "\<And>e' r. ab e' = ab e \<Longrightarrow> find P rs = Some r \<Longrightarrow> r \<in> set rs \<Longrightarrow> P r \<Longrightarrow> Q (0, g r, e')"
  shows "returns (select_one sv k args (Some (n, tmp)) e) Q"
proof (rule select_one_up [OF assms(1-3)])
  show "returns (result_one (Some (n, tmp)) (select_rows P (\<lambda>r. [Some (g r)]) rs)) (\<lambda>(ret, text). Q (ret, text, e'))"
    if "ab e' = ab e" for e'
    using result_one_text [of rs P g n tmp] assms(4,5,6) that by (auto dest: find_found split: option.splits)
qed

lemma select_any_up:
  assumes "fits (sql_tail k) args" and "short_args args"
    and "sql_exec k args (w_tables (ab e)) = (select_rows P cols rs, w_tables (ab e))"
    and "\<And>e'. ab e' = ab e \<Longrightarrow> \<forall>r \<in> set rs. \<not> P r \<Longrightarrow> Q (1, [], e')"
    and "\<And>e' r. ab e' = ab e \<Longrightarrow> r \<in> set rs \<Longrightarrow> P r \<Longrightarrow> Q (2, [], e')"
  shows "returns (select_one sv k args None e) Q"
  by (rule select_one_up [OF assms(1-3)]) (use assms(4-5) in \<open>auto simp: result_one_none filter_empty_conv\<close>)

lemma count_file_up:
  assumes "ins \<in> {Ins_Count, Ins_Share_Count}" and "list_all (plain sq) user" and "length user \<le> 280"
    and "\<And>r. r \<in> set (t_user_file_count (w_tables (ab e))) \<Longrightarrow> in_int (c_count r) \<and> in_int (c_count r + 1)"
    and "\<And>e'. ab e' = ab e \<lparr>w_tables := w_tables (ab e)
        \<lparr>t_user_file_count := bump_count user (t_user_file_count (w_tables (ab e)))\<rparr>\<rparr> \<Longrightarrow> Q (0, e')"
  shows "returns (count_file sv ins user tmp e) Q"
  unfolding count_file_eq returns_bind
  by (rule select_num_up [where P = "count_of user" and g = c_count and rs = "t_user_file_count (w_tables (ab e))"])
    (use assms in \<open>auto simp: returns_bind c_atoi_show_int int_add_def short_args_def bump_count_def executed_def piece_defs in_int_def
      intro!: run_sql_up assms(5)\<close>)

end

section \<open>Reference servers\<close>

text \<open>
  The configuration file of the repository as a JSON value, and servers that execute the statements of the
  programs and the Redis commands as documented; \<open>ref_faulty\<close> refuses a MySQL statement whenever the next element of
  a list of faults says so.
\<close>

definition cfg0 :: cJSON where
  "cfg0 = cJSON_Object
     [(''redis'', cJSON_Object [(''ip'', cJSON_String ''127.0.0.1''), (''port'', cJSON_String ''6379'')]),
      (''mysql'', cJSON_Object [(''ip'', cJSON_String ''127.0.0.1''), (''port'', cJSON_String ''3306''),
         (''database'', cJSON_String ''disk''), (''user'', cJSON_String ''root''), (''password'', cJSON_String ''root'')]),
      (''dfs_path'', cJSON_Object [(''client'', cJSON_String ''/etc/fdfs/client.conf'')]),
      (''web_server'', cJSON_Object [(''ip'', cJSON_String ''127.0.0.1''), (''port'', cJSON_String ''8080'')]),
      (''storage_web_server'', cJSON_Object [(''ip'', cJSON_String ''127.0.0.1''), (''port'', cJSON_String ''8080'')])]"

definition tm0 :: tm where
  "tm0 = \<lparr>tm_year = 120, tm_mon = 7, tm_mday = 4, tm_hour = 19, tm_min = 6, tm_sec = 0\<rparr>"

definition ref_redis :: "string list \<Rightarrow> disk \<Rightarrow> redisReply option \<times> disk" where
  "ref_redis cmd d =
     (case redis_exec cmd (w_redis d) of
        Some (reply, db) \<Rightarrow> (Some reply, d \<lparr>w_redis := db\<rparr>)
      | None \<Rightarrow> (Some (REPLY_ERROR ''ERR''), d))"

definition ref_mysql :: "string \<Rightarrow> disk \<Rightarrow> qresult \<times> disk" where
  "ref_mysql sql_cmd d = (let (r, t) = mysql_exec sql_cmd (w_tables d) in (r, d \<lparr>w_tables := t\<rparr>))"

definition ref_file :: "string \<Rightarrow> string option" where
  "ref_file path = (if path = CFG_PATH then Some (json_text True 0 cfg0) else None)"

definition ref_up :: "disk services" where
  "ref_up =
     \<lparr>mysql_init = Pair True, mysql_real_connect = \<lambda>u p d. Pair True, mysql_query = ref_mysql, mysql_close = id,
      redisConnect = \<lambda>ip port. Pair Connected, redisConnectWithTimeout = \<lambda>ip port timeout. Pair Connected,
      redisConnectUnix = \<lambda>path. Pair Connected, redisFree = id, redisCommand = ref_redis,
      redisCommandText = \<lambda>cmd d. None, redisAppendCommand = \<lambda>cmd. Pair False, redisAppendText = \<lambda>cmd d. None,
      redisGetReply = Pair None, read_file = \<lambda>path d. ref_file path, write_file = \<lambda>path contents. Pair True,
      unlink_file = \<lambda>path. id, localtime = Pair tm0, c_srand = id, c_rand = Pair 7,
      c_system = \<lambda>cmd d. (0, d \<lparr>w_shell := w_shell d @ [cmd]\<rparr>), run_piped = \<lambda>argv n. Pair Pipe_Err\<rparr>"

definition lift :: "('a \<Rightarrow> 'b \<times> 'a) \<Rightarrow> 'a \<times> 'f \<Rightarrow> 'b \<times> 'a \<times> 'f" where
  "lift f e = (case e of (d, faults) \<Rightarrow> (case f d of (x, d) \<Rightarrow> (x, d, faults)))"

definition ref_faulty :: "(disk \<times> bool list) services" where
  "ref_faulty =
     \<lparr>mysql_init = Pair True, mysql_real_connect = \<lambda>u p d. Pair True,
      mysql_query = \<lambda>sql_cmd (d, faults).
        (case faults of
           True # faults \<Rightarrow> (Q_Err, d, faults)
         | _ \<Rightarrow> lift (ref_mysql sql_cmd) (d, tl faults)),
      mysql_close = id,
      redisConnect = \<lambda>ip port. Pair Connected, redisConnectWithTimeout = \<lambda>ip port timeout. Pair Connected,
      redisConnectUnix = \<lambda>path. Pair Connected, redisFree = id, redisCommand = \<lambda>cmd. lift (ref_redis cmd),
      redisCommandText = \<lambda>cmd d. None, redisAppendCommand = \<lambda>cmd. Pair False, redisAppendText = \<lambda>cmd d. None,
      redisGetReply = Pair None, read_file = \<lambda>path d. ref_file path, write_file = \<lambda>path contents. Pair True,
      unlink_file = \<lambda>path. id, localtime = Pair tm0, c_srand = id, c_rand = Pair 7,
      c_system = \<lambda>cmd. lift (\<lambda>d. (0, d \<lparr>w_shell := w_shell d @ [cmd]\<rparr>)), run_piped = \<lambda>argv n. Pair Pipe_Err\<rparr>"

lemma cfg0_canonical: "canonical cfg0" "nesting cfg0 \<le> CJSON_NESTING_LIMIT" "CHR 0x00 \<notin> set (json_text True 0 cfg0)"
  by (simp_all add: cfg0_def CJSON_NESTING_LIMIT_def quote_char_def escape_def escape_char_def backslash_def)

lemma cfg0_ok: "cfg_ok cfg0"
  by code_simp

lemma ref_file_cfg: "\<exists>content. ref_file CFG_PATH = Some content \<and> cJSON_Parse (c_str content) = Ok cfg0"
  using cfg0_canonical cJSON_Parse_text by (simp add: ref_file_def)

lemma ref_mysql_exec:
  assumes "parse_sql sql_cmd = Some (k, args)"
  shows "ref_mysql sql_cmd d = (fst (sql_exec k args (w_tables d)), d \<lparr>w_tables := snd (sql_exec k args (w_tables d))\<rparr>)"
  using assms by (simp add: ref_mysql_def mysql_exec_def split: prod.splits)

lemma ref_redis_reply:
  "\<exists>reply db. ref_redis cmd d = (Some reply, d \<lparr>w_redis := db\<rparr>) \<and> (text_command cmd \<longrightarrow> reply_str reply \<noteq> None)"
proof (cases "redis_exec cmd (w_redis d)")
  case None
  have "d = d \<lparr>w_redis := w_redis d\<rparr>" by simp
  with None show ?thesis unfolding ref_redis_def by (metis option.simps(4) option.distinct(1) reply_str.simps(3))
next
  case (Some r)
  then show ?thesis using exec_text by (cases r) (auto simp: ref_redis_def)
qed

interpretation ref_up: disk_world_up ref_up id cfg0
proof unfold_locales
  show "\<exists>reply e' db. redisCommand ref_up cmd e = (Some reply, e') \<and> id e' = id e \<lparr>w_redis := db\<rparr>
      \<and> (text_command cmd \<longrightarrow> reply_str reply \<noteq> None)" for cmd e
    using ref_redis_reply [of cmd e] by (auto simp: ref_up_def)
qed (auto simp: ref_up_def ref_mysql_exec ref_file_cfg cfg0_ok tm0_def valid_tm_def ref_redis_def)

interpretation ref_faulty: disk_world ref_faulty fst cfg0
proof unfold_locales
  show "\<exists>reply e' db. redisCommand ref_faulty cmd e = (Some reply, e') \<and> fst e' = fst e \<lparr>w_redis := db\<rparr>
      \<and> (text_command cmd \<longrightarrow> reply_str reply \<noteq> None)" for cmd e
    using ref_redis_reply [of cmd "fst e"] by (cases e) (auto simp: ref_faulty_def lift_def)
  show "r = Q_Err \<and> fst e' = fst e
      \<or> (r, w_tables (fst e')) = sql_exec k args (w_tables (fst e)) \<and> fst e' = fst e \<lparr>w_tables := w_tables (fst e')\<rparr>"
    if "parse_sql sql_cmd = Some (k, args)" "mysql_query ref_faulty sql_cmd e = (r, e')" for sql_cmd k args e r e'
    using that by (cases e) (auto simp: ref_faulty_def lift_def ref_mysql_exec split: list.splits bool.splits)
qed (auto simp: ref_faulty_def ref_file_cfg cfg0_ok tm0_def valid_tm_def lift_def split: prod.splits)

end
