(* ===== verification/Disk_Invariant.thy ===== *)
theory Disk_Invariant
  imports Disk_Server Cgi_Md5 Cgi_Filesop Cgi_Sharefilesop Cgi_Upload
begin

text \<open>
  The invariant of the database that keeps stored files alive: \<open>file_info\<close> has one row per MD5 sum, its
  \<open>count\<close> is at least the number of entries in \<open>user_file_list\<close> that refer to it, and every entry refers to a
  row. Every handler that changes these tables keeps it, also if the server refuses statements in the
  middle of a handler, and returns; a deletion removes a file from the storage only if no entry is left.
  The handlers run on counters of at most \<open>2^30\<close> in absolute value and on names short enough for
  \<open>char sql_cmd[512]\<close> that have no quote or backslash.
\<close>

section \<open>The invariant\<close>

definition refs :: "tables \<Rightarrow> string \<Rightarrow> nat" where
  "refs t md5 = length (filter (\<lambda>r. l_md5 r = md5) (t_user_file_list t))"

definition refcount_inv :: "tables \<Rightarrow> bool" where
  "refcount_inv t \<longleftrightarrow>
     distinct (map f_md5 (t_file_info t))
     \<and> (\<forall>f \<in> set (t_file_info t). int (refs t (f_md5 f)) \<le> f_count f)
     \<and> (\<forall>r \<in> set (t_user_file_list t). l_md5 r \<in> f_md5 ` set (t_file_info t))"

definition in_limit :: "nat \<Rightarrow> int \<Rightarrow> bool" where
  "in_limit n i \<longleftrightarrow> \<bar>i\<bar> \<le> 2 ^ 30 + int n"

definition files_in :: "nat \<Rightarrow> file_row list \<Rightarrow> bool" where
  "files_in n fs \<longleftrightarrow> (\<forall>f \<in> set fs. in_limit n (f_count f) \<and> length (f_file_id f) < 512)"

definition entries_in :: "nat \<Rightarrow> list_row list \<Rightarrow> bool" where
  "entries_in n rs \<longleftrightarrow> (\<forall>r \<in> set rs. in_limit n (l_shared r) \<and> in_limit n (l_pv r))"

definition counts_in :: "nat \<Rightarrow> count_row list \<Rightarrow> bool" where
  "counts_in n cs \<longleftrightarrow> (\<forall>c \<in> set cs. in_limit n (c_count c))"

definition shares_in :: "nat \<Rightarrow> share_row list \<Rightarrow> bool" where
  "shares_in n ss \<longleftrightarrow> (\<forall>s \<in> set ss. in_limit n (s_pv s))"

definition bounded :: "nat \<Rightarrow> tables \<Rightarrow> bool" where
  "bounded n t \<longleftrightarrow> files_in n (t_file_info t) \<and> entries_in n (t_user_file_list t) \<and> counts_in n (t_user_file_count t)
     \<and> shares_in n (t_share_file_list t)"

lemmas in_defs = files_in_def entries_in_def counts_in_def shares_in_def

lemma bounded_9: "bounded 0 t \<Longrightarrow> files_in 9 (t_file_info t) \<and> entries_in 9 (t_user_file_list t) \<and> counts_in 9 (t_user_file_count t)
     \<and> shares_in 9 (t_share_file_list t)"
  by (auto simp: bounded_def in_defs in_limit_def)

lemma in_limit_int: "in_limit 9 i \<Longrightarrow> in_int i \<and> in_int (i + 1) \<and> in_int (i - 1)"
  by (auto simp: in_limit_def in_int_def abs_le_iff)

definition args_ok :: "string \<Rightarrow> string \<Rightarrow> string \<Rightarrow> bool" where
  "args_ok user md5 filename \<longleftrightarrow> list_all (plain sq) user \<and> list_all (plain sq) md5 \<and> list_all (plain sq) filename
     \<and> length user + length md5 + length filename \<le> 250"

lemma refs_updates [simp]:
  "refs (t \<lparr>t_user_file_count := cs\<rparr>) m = refs t m" "refs (t \<lparr>t_share_file_list := ss\<rparr>) m = refs t m"
  "refs (t \<lparr>t_user := us\<rparr>) m = refs t m" "refs (t \<lparr>t_file_info := fs\<rparr>) m = refs t m"
  by (simp_all add: refs_def)

lemma refcount_inv_updates [simp]:
  "refcount_inv (t \<lparr>t_user_file_count := cs\<rparr>) = refcount_inv t" "refcount_inv (t \<lparr>t_share_file_list := ss\<rparr>) = refcount_inv t"
  "refcount_inv (t \<lparr>t_user := us\<rparr>) = refcount_inv t"
  by (simp_all add: refcount_inv_def)

lemma refcount_inv_cong:
  assumes "t_file_info t' = t_file_info t" and "t_user_file_list t' = t_user_file_list t"
  shows "refs t' = refs t" and "refcount_inv t' = refcount_inv t"
  using assms by (simp_all add: refcount_inv_def refs_def fun_eq_iff)

lemma only_counts_inv: "only_counts d d' \<Longrightarrow> refcount_inv (w_tables d') = refcount_inv (w_tables d)"
  unfolding only_counts_def by (metis disk.select_convs(1) disk.surjective disk.update_convs(1) refcount_inv_updates(1))

lemma map_change: "(\<And>r. h (f r) = h r) \<Longrightarrow> map h (change P f rs) = map h rs"
  by (simp add: change_def)

lemma change_mem: "r \<in> set rs \<Longrightarrow> P r \<Longrightarrow> f r \<in> set (change P f rs)"
  unfolding change_def by (metis (mono_tags, lifting) image_eqI image_set)

lemma change_cases: "x \<in> set (change P f rs) \<Longrightarrow> (\<exists>r \<in> set rs. P r \<and> x = f r) \<or> x \<in> set rs \<and> \<not> P x"
  by (auto simp: change_def split: if_splits)

lemma refcount_inv_count:
  assumes "refcount_inv t" and "int (refs t m) \<le> n"
  shows "refcount_inv (t \<lparr>t_file_info := change (file_of m) (f_count_update (\<lambda>_. n)) (t_file_info t)\<rparr>)"
proof -
  let ?fs = "change (file_of m) (f_count_update (\<lambda>_. n)) (t_file_info t)"
  have md5s: "map f_md5 ?fs = map f_md5 (t_file_info t)" by (rule map_change) simp
  then have img: "f_md5 ` set ?fs = f_md5 ` set (t_file_info t)" by (metis set_map)
  have "\<forall>f \<in> set ?fs. int (refs t (f_md5 f)) \<le> f_count f"
    using assms by (auto simp: refcount_inv_def change_def file_of_def)
  with md5s img assms(1) show ?thesis by (simp add: refcount_inv_def)
qed

lemma refcount_inv_insert:
  assumes "refcount_inv t" and "\<And>f. f \<in> set (t_file_info t) \<Longrightarrow> file_of (l_md5 r) f \<Longrightarrow> int (refs t (l_md5 r)) < f_count f"
    and "f \<in> set (t_file_info t)" and "file_of (l_md5 r) f"
  shows "refcount_inv (t \<lparr>t_user_file_list := t_user_file_list t @ [r]\<rparr>)"
proof -
  have "refs (t \<lparr>t_user_file_list := t_user_file_list t @ [r]\<rparr>) m = refs t m + (if l_md5 r = m then 1 else 0)" for m
    by (simp add: refs_def)
  moreover have "l_md5 r \<in> f_md5 ` set (t_file_info t)" using assms(3,4) by (metis file_of_def image_eqI)
  ultimately show ?thesis using assms(1,2) by (fastforce simp: refcount_inv_def file_of_def)
qed

text \<open>Changes of an entry other than its file.\<close>

lemma refs_change [simp]:
  assumes "\<And>r. l_md5 (f r) = l_md5 r"
  shows "refs (t \<lparr>t_user_file_list := change P f rs\<rparr>) m = refs (t \<lparr>t_user_file_list := rs\<rparr>) m"
  by (induction rs) (auto simp: refs_def change_def assms)

lemma refcount_inv_change:
  assumes "\<And>r. l_md5 (f r) = l_md5 r"
  shows "refcount_inv (t \<lparr>t_user_file_list := change P f (t_user_file_list t)\<rparr>) = refcount_inv t"
proof -
  have "l_md5 ` set (change P f rs) = l_md5 ` set rs" for rs by (induction rs) (auto simp: change_def assms)
  then have "(\<forall>r \<in> set (change P f rs). l_md5 r \<in> A) \<longleftrightarrow> (\<forall>r \<in> set rs. l_md5 r \<in> A)" for A rs
    by (simp add: image_subset_iff [symmetric])
  then show ?thesis by (simp add: refcount_inv_def assms)
qed

text \<open>One more user of a file: the count first, then the entry.\<close>

lemma refcount_inv_add1:
  assumes "refcount_inv t" and "find (file_of md5) (t_file_info t) = Some f"
  shows "refcount_inv (t \<lparr>t_file_info := change (file_of md5) (f_count_update (\<lambda>_. f_count f + 1)) (t_file_info t)\<rparr>)"
proof (rule refcount_inv_count [OF assms(1)])
  show "int (refs t md5) \<le> f_count f + 1"
    using assms(1) find_found [OF assms(2)] by (force simp: refcount_inv_def file_of_def)
qed

lemma refcount_inv_add2:
  assumes "refcount_inv t" and "find (file_of md5) (t_file_info t) = Some f" and "l_md5 r = md5"
  shows "refcount_inv (t \<lparr>t_file_info := change (file_of md5) (f_count_update (\<lambda>_. f_count f + 1)) (t_file_info t),
      t_user_file_list := t_user_file_list t @ [r]\<rparr>)"
proof -
  let ?t = "t \<lparr>t_file_info := change (file_of md5) (f_count_update (\<lambda>_. f_count f + 1)) (t_file_info t)\<rparr>"
  have f: "f \<in> set (t_file_info t)" "f_md5 f = md5" using find_found [OF assms(2)] by (auto simp: file_of_def)
  then have count: "int (refs t md5) < f_count f + 1" using assms(1) by (force simp: refcount_inv_def)
  have mem: "f \<lparr>f_count := f_count f + 1\<rparr> \<in> set (t_file_info ?t)"
    using change_mem [of f "t_file_info t" "file_of md5"] f by (simp add: file_of_def)
  have "refcount_inv (?t \<lparr>t_user_file_list := t_user_file_list ?t @ [r]\<rparr>)"
  proof (rule refcount_inv_insert [OF refcount_inv_add1 [OF assms(1,2)], where f = "f \<lparr>f_count := f_count f + 1\<rparr>"])
    show "int (refs ?t (l_md5 r)) < f_count f'" if f': "f' \<in> set (t_file_info ?t)" "file_of (l_md5 r) f'" for f'
      using change_cases [of f' "file_of md5"] f' count by (force simp: assms(3))
  qed (use f assms(3) mem in \<open>simp_all add: file_of_def\<close>)
  then show ?thesis by simp
qed

text \<open>One entry less, then the count; a file without entries leaves.\<close>

lemma refs_remove_le: "refs (t \<lparr>t_user_file_list := remove P (t_user_file_list t)\<rparr>) m \<le> refs t m"
proof -
  have "length (filter (\<lambda>r. l_md5 r = m) (filter Q rs)) \<le> length (filter (\<lambda>r. l_md5 r = m) rs)" for Q rs
    by (induction rs) auto
  then show ?thesis by (simp add: refs_def remove_def)
qed

lemma refs_remove_less:
  assumes "r \<in> set (t_user_file_list t)" and "P r" and "l_md5 r = m"
  shows "refs (t \<lparr>t_user_file_list := remove P (t_user_file_list t)\<rparr>) m < refs t m"
proof -
  have "length (filter (\<lambda>r. l_md5 r = m) (filter (\<lambda>r. \<not> P r) (t_user_file_list t)))
      < length (filter (\<lambda>r. l_md5 r = m) (t_user_file_list t))"
    using length_filter_less [of r "filter (\<lambda>r. l_md5 r = m) (t_user_file_list t)" "\<lambda>r. \<not> P r"] assms
    by (simp add: conj_commute)
  then show ?thesis by (simp add: refs_def remove_def)
qed

lemma refcount_inv_remove:
  assumes "refcount_inv t"
  shows "refcount_inv (t \<lparr>t_user_file_list := remove P (t_user_file_list t)\<rparr>)"
proof -
  let ?t = "t \<lparr>t_user_file_list := remove P (t_user_file_list t)\<rparr>"
  have "\<forall>f \<in> set (t_file_info t). int (refs ?t (f_md5 f)) \<le> f_count f"
    using assms refs_remove_le [of P t] unfolding refcount_inv_def by (meson of_nat_le_iff order_trans)
  with assms show ?thesis by (simp add: refcount_inv_def remove_def)
qed

lemma refcount_inv_drop:
  assumes "refcount_inv t" and "refs t m = 0"
  shows "refcount_inv (t \<lparr>t_file_info := remove (file_of m) (t_file_info t)\<rparr>)"
  using assms by (fastforce simp: refcount_inv_def refs_def remove_def file_of_def filter_empty_conv distinct_map inj_on_def)

lemma counts_in_change:
  assumes "counts_in 0 cs" and "find P cs = Some r"
  shows "counts_in 9 (change P' (c_count_update (\<lambda>_. c_count r - 1)) cs)"
  using assms(1) find_found(1) [OF assms(2)] by (auto simp: counts_in_def change_def in_limit_def)

text \<open>A new file with one user.\<close>

definition upload_ok :: "string \<Rightarrow> string \<Rightarrow> string \<Rightarrow> int \<Rightarrow> string \<Rightarrow> string \<Rightarrow> bool" where
  "upload_ok user filename md5 fsize fileid url \<longleftrightarrow>
     list_all (plain sq) user \<and> list_all (plain sq) filename \<and> list_all (plain sq) md5 \<and> list_all (plain sq) fileid
     \<and> list_all (plain sq) url \<and> in_long fsize \<and> length (get_file_suffix filename) < 8
     \<and> list_all (plain sq) (get_file_suffix filename)
     \<and> length user + length filename + length md5 + length fileid + length url \<le> 250"

lemma refcount_inv_new:
  assumes "refcount_inv t" and "f_md5 f \<notin> f_md5 ` set (t_file_info t)" and "f_count f = 1"
  shows "refcount_inv (t \<lparr>t_file_info := t_file_info t @ [f]\<rparr>)"
    and "l_md5 r = f_md5 f \<Longrightarrow>
      refcount_inv (t \<lparr>t_file_info := t_file_info t @ [f], t_user_file_list := t_user_file_list t @ [r]\<rparr>)"
proof -
  have none: "refs t (f_md5 f) = 0"
    using assms(1,2) unfolding refcount_inv_def refs_def length_0_conv filter_empty_conv by metis
  have count: "refs (t \<lparr>t_file_info := fs, t_user_file_list := t_user_file_list t @ [r]\<rparr>) m
      = refs t m + (if l_md5 r = m then 1 else 0)" for fs m
    by (simp add: refs_def)
  show "refcount_inv (t \<lparr>t_file_info := t_file_info t @ [f]\<rparr>)"
    using assms none by (auto simp: refcount_inv_def)
  show "refcount_inv (t \<lparr>t_file_info := t_file_info t @ [f], t_user_file_list := t_user_file_list t @ [r]\<rparr>)"
    if "l_md5 r = f_md5 f"
    using assms none that by (auto simp: refcount_inv_def count)
qed

lemma show_int_plain: "list_all (plain sq) (show_int i)"
  using show_int_set [of _ i] by (fastforce simp: list_all_iff plain_def sq_def c_isdigit_def)

context disk_world
begin

lemma read_cfg_eq:
  "read_cfg sv e = Some \<lparr>mysql_user = cfg_at cfg ''mysql'' ''user'', mysql_pwd = cfg_at cfg ''mysql'' ''password'',
     mysql_db = cfg_at cfg ''mysql'' ''database'', redis_ip = cfg_at cfg ''redis'' ''ip'', redis_port = cfg_at cfg ''redis'' ''port''\<rparr>"
  by (simp add: read_cfg_def read_cfg_mysql_def cfg_values)

lemma read_cfg_port: "read_cfg sv e = Some g \<Longrightarrow> port_of (redis_port g) \<noteq> None"
  using cfg_port by (auto simp: read_cfg_eq)

lemma sel_file_count_wp:
  assumes "list_all (plain sq) md5" and "length md5 \<le> 300" and "files_in 9 (t_file_info (w_tables (ab e)))"
    and "\<And>e'. ab e' = ab e \<Longrightarrow> Q (- 1, tmp, e')"
    and "\<And>e'. ab e' = ab e \<Longrightarrow> find (file_of md5) (t_file_info (w_tables (ab e))) = None \<Longrightarrow> Q (1, tmp, e')"
    and "\<And>e' f text. ab e' = ab e \<Longrightarrow> find (file_of md5) (t_file_info (w_tables (ab e))) = Some f \<Longrightarrow>
      c_atoi text = Some (f_count f) \<Longrightarrow> in_int (f_count f + 1) \<Longrightarrow> in_int (f_count f - 1) \<Longrightarrow> Q (0, text, e')"
  shows "returns (select_one sv Sel_File_Count [S md5] (Some (512, tmp)) e) Q"
  by (rule select_num_wp [where P = "file_of md5" and g = f_count and rs = "t_file_info (w_tables (ab e))"])
    (use assms in \<open>auto simp: short_args_def c_atoi_show_int files_in_def in_limit_int\<close>)

lemma sel_user_file_wp:
  assumes "args_ok user md5 filename"
    and "\<And>ret e'. ab e' = ab e \<Longrightarrow> Q (ret, [], e')"
  shows "returns (select_one sv Sel_User_File [S user, S md5, S filename] None e) Q"
  by (rule select_any_wp [where P = "entry_of user md5 filename" and cols = list_cols and rs = "t_user_file_list (w_tables (ab e))"])
    (use assms in \<open>auto simp: short_args_def args_ok_def piece_defs\<close>)

lemma count_wp:
  assumes "ins \<in> {Ins_Count, Ins_Share_Count}" and "list_all (plain sq) user" and "length user \<le> 280"
    and "counts_in 9 (t_user_file_count (w_tables (ab e)))"
    and "\<And>ret e'. only_counts (ab e) (ab e') \<Longrightarrow> refcount_inv (w_tables (ab e')) = refcount_inv (w_tables (ab e)) \<Longrightarrow> Q (ret, e')"
  shows "returns (count_file sv ins user tmp e) Q"
  by (rule count_file_wp) (use assms in \<open>auto simp: counts_in_def in_limit_int only_counts_inv\<close>)

lemma deal_md5_body_inv:
  assumes "refcount_inv (w_tables (ab e))" and "bounded 0 (w_tables (ab e))" and "args_ok user md5 filename"
  shows "returns (deal_md5_body sv g user md5 filename e) (\<lambda>(ret, conn, e'). refcount_inv (w_tables (ab e')))"
  unfolding deal_md5_body_def
  using assms bounded_9 [OF assms(2)]
  by (auto simp: ret_simps stmt_simps args_ok_def refcount_inv_add1 refcount_inv_add2
      intro!: conn_wp clock_wp sel_file_count_wp sel_user_file_wp run_sql_wp count_wp)

lemma deal_md5_inv:
  assumes "refcount_inv (w_tables (ab e))" and "bounded 0 (w_tables (ab e))" and "args_ok user md5 filename"
  shows "returns (deal_md5 sv g user md5 filename e) (\<lambda>(ret, out, e'). refcount_inv (w_tables (ab e')))"
  unfolding deal_md5_def returns_bind
  by (rule returns_mono [OF deal_md5_body_inv [OF assms]]) (auto simp: ret_simps)

lemma save_file_body_inv:
  assumes "refcount_inv (w_tables (ab e))" and "bounded 0 (w_tables (ab e))" and "args_ok user md5 filename"
  shows "returns (save_file_body sv g user md5 filename e) (\<lambda>(ret, conn, e'). refcount_inv (w_tables (ab e')))"
  unfolding save_file_body_def
  using assms bounded_9 [OF assms(2)]
  by (auto simp: ret_simps stmt_simps args_ok_def refcount_inv_add1 refcount_inv_add2
      intro!: conn_wp clock_wp sel_file_count_wp sel_user_file_wp run_sql_wp count_wp)

lemma save_file_inv:
  assumes "refcount_inv (w_tables (ab e))" and "bounded 0 (w_tables (ab e))" and "args_ok user md5 filename"
  shows "returns (save_file sv g user md5 filename e) (\<lambda>(ret, out, e'). refcount_inv (w_tables (ab e')))"
  unfolding save_file_def returns_bind
  by (rule returns_mono [OF save_file_body_inv [OF assms]]) (auto simp: ret_simps)

lemma sel_share_wp:
  assumes "args_ok user md5 filename" and "\<And>ret e'. ab e' = ab e \<Longrightarrow> Q (ret, [], e')"
  shows "returns (select_one sv Sel_Share [S md5, S filename] None e) Q"
  by (rule select_any_wp [where P = "share_of md5 filename" and cols = share_cols and rs = "t_share_file_list (w_tables (ab e))"])
    (use assms in \<open>auto simp: short_args_def args_ok_def piece_defs\<close>)

lemma share_check_wp:
  assumes "args_ok user md5 filename" and "\<And>ret stop e'. w_tables (ab e') = w_tables (ab e) \<Longrightarrow> Q (ret, stop, e')"
  shows "returns (share_check sv md5 filename fileid e) Q"
  unfolding share_check_def using assms
  by (auto simp: ret_simps intro!: zset_exit_wp sel_share_wp zset_add_wp)

lemma share_user_plain: "list_all (plain sq) share_user" "length share_user = 41"
  by (simp_all add: share_user_def plain_def sq_def)

lemma share_enter_inv:
  assumes "refcount_inv (w_tables (ab e))" and "counts_in 9 (t_user_file_count (w_tables (ab e)))" and "args_ok user md5 filename"
  shows "returns (share_enter sv user md5 filename fileid e) (\<lambda>(ret, e'). refcount_inv (w_tables (ab e')))"
  unfolding share_enter_def
  using assms
  by (auto simp: ret_simps stmt_simps array_sizes args_ok_def share_user_plain refcount_inv_change
      intro!: clock_wp run_sql_wp count_wp zset_add_wp hash_set_wp)

lemma share_file_body_inv:
  assumes "refcount_inv (w_tables (ab e))" and "bounded 0 (w_tables (ab e))" and "args_ok user md5 filename"
    and "port_of (redis_port g) \<noteq> None"
  shows "returns (share_file_body sv g user md5 filename e) (\<lambda>(ret, redis_conn, conn, e'). refcount_inv (w_tables (ab e')))"
  unfolding share_file_body_def
  using assms bounded_9 [OF assms(2)]
  by (auto simp: ret_simps args_ok_def intro!: connectdb_wp conn_wp share_check_wp [OF assms(3)] returns_mono [OF share_enter_inv])

lemma share_file_inv:
  assumes "refcount_inv (w_tables (ab e))" and "bounded 0 (w_tables (ab e))" and "args_ok user md5 filename"
    and "port_of (redis_port g) \<noteq> None"
  shows "returns (share_file sv g user md5 filename e) (\<lambda>(ret, out, e'). refcount_inv (w_tables (ab e')))"
  unfolding share_file_def returns_bind
  by (rule returns_mono [OF share_file_body_inv [OF assms]]) (auto simp: ret_simps)

subsection \<open>Views\<close>

lemma sel_pv_wp:
  assumes "args_ok user md5 filename" and "entries_in 9 (t_user_file_list (w_tables (ab e)))"
    and "\<And>ret e'. ab e' = ab e \<Longrightarrow> ret \<noteq> 0 \<Longrightarrow> Q (ret, tmp, e')"
    and "\<And>e' r text. ab e' = ab e \<Longrightarrow> find (entry_of user md5 filename) (t_user_file_list (w_tables (ab e))) = Some r \<Longrightarrow>
      c_atoi text = Some (l_pv r) \<Longrightarrow> in_int (l_pv r + 1) \<Longrightarrow> Q (0, text, e')"
  shows "returns (select_one sv Sel_Pv [S user, S md5, S filename] (Some (512, tmp)) e) Q"
  by (rule select_num_wp [where P = "entry_of user md5 filename" and g = l_pv and rs = "t_user_file_list (w_tables (ab e))"])
    (use assms in \<open>auto simp: short_args_def args_ok_def piece_defs c_atoi_show_int entries_in_def in_limit_int\<close>)

lemma sel_share_pv_wp:
  assumes "list_all (plain sq) md5" and "list_all (plain sq) filename" and "length md5 + length filename \<le> 250"
    and "shares_in 9 (t_share_file_list (w_tables (ab e)))"
    and "\<And>ret e'. ab e' = ab e \<Longrightarrow> ret \<noteq> 0 \<Longrightarrow> Q (ret, tmp, e')"
    and "\<And>e' r text. ab e' = ab e \<Longrightarrow> find (share_of md5 filename) (t_share_file_list (w_tables (ab e))) = Some r \<Longrightarrow>
      c_atoi text = Some (s_pv r) \<Longrightarrow> in_int (s_pv r + 1) \<Longrightarrow> Q (0, text, e')"
  shows "returns (select_one sv Sel_Share_Pv [S md5, S filename] (Some (512, tmp)) e) Q"
  by (rule select_num_wp [where P = "share_of md5 filename" and g = s_pv and rs = "t_share_file_list (w_tables (ab e))"])
    (use assms in \<open>auto simp: short_args_def piece_defs c_atoi_show_int shares_in_def in_limit_int\<close>)

lemma pv_file_inv:
  assumes "refcount_inv (w_tables (ab e))" and "bounded 0 (w_tables (ab e))" and "args_ok user md5 filename"
  shows "returns (pv_file sv g user md5 filename e) (\<lambda>(ret, out, e'). refcount_inv (w_tables (ab e')))"
  unfolding pv_file_def pv_file_body_def
  using assms bounded_9 [OF assms(2)]
  by (auto simp: ret_simps stmt_simps args_ok_def refcount_inv_change intro!: conn_wp sel_pv_wp run_sql_wp)

lemma share_pv_file_inv:
  assumes "refcount_inv (w_tables (ab e))" and "bounded 0 (w_tables (ab e))" and "args_ok user md5 filename"
    and "port_of (redis_port g) \<noteq> None"
  shows "returns (share_pv_file sv g md5 filename e) (\<lambda>(ret, out, e'). refcount_inv (w_tables (ab e')))"
  unfolding share_pv_file_def share_pv_file_body_def share_pv_redis_def
  using assms bounded_9 [OF assms(2)]
  by (auto simp: ret_simps stmt_simps args_ok_def
      intro!: connectdb_wp conn_wp sel_share_pv_wp run_sql_wp zset_exit_wp zset_increment_wp zset_add_wp hash_set_wp)

subsection \<open>Ending a share\<close>

lemma sel_count_wp:
  assumes "list_all (plain sq) user" and "length user \<le> 300" and "counts_in 9 (t_user_file_count (w_tables (ab e)))"
    and "\<And>ret e'. ab e' = ab e \<Longrightarrow> ret \<noteq> 0 \<Longrightarrow> Q (ret, tmp, e')"
    and "\<And>e' r text. ab e' = ab e \<Longrightarrow> find (count_of user) (t_user_file_count (w_tables (ab e))) = Some r \<Longrightarrow>
      c_atoi text = Some (c_count r) \<Longrightarrow> in_int (c_count r - 1) \<Longrightarrow> Q (0, text, e')"
  shows "returns (select_one sv Sel_Count [S user] (Some (512, tmp)) e) Q"
  by (rule select_num_wp [where P = "count_of user" and g = c_count and rs = "t_user_file_count (w_tables (ab e))"])
    (use assms in \<open>auto simp: short_args_def piece_defs c_atoi_show_int counts_in_def in_limit_int\<close>)

lemma cancel_share_file_inv:
  assumes "refcount_inv (w_tables (ab e))" and "bounded 0 (w_tables (ab e))" and "args_ok user md5 filename"
    and "port_of (redis_port g) \<noteq> None"
  shows "returns (cancel_share_file sv g user md5 filename e) (\<lambda>(ret, out, e'). refcount_inv (w_tables (ab e')))"
  unfolding cancel_share_file_def cancel_share_file_body_def cancel_tables_def
  using assms bounded_9 [OF assms(2)]
  by (auto simp: ret_simps stmt_simps args_ok_def share_user_plain refcount_inv_change
      intro!: connectdb_wp conn_wp sel_count_wp run_sql_wp zset_zrem_wp hash_del_wp)

subsection \<open>Storing a new file\<close>

lemma store_fileinfo_inv:
  assumes "refcount_inv (w_tables (ab e))" and "bounded 0 (w_tables (ab e))" and "upload_ok user filename md5 fsize fileid url"
    and "md5 \<notin> f_md5 ` set (t_file_info (w_tables (ab e)))"
  shows "returns (store_fileinfo_to_mysql sv g user filename md5 fsize fileid url e) (\<lambda>(ret, e'). refcount_inv (w_tables (ab e')))"
  unfolding store_fileinfo_to_mysql_def store_fileinfo_body_def
  using assms bounded_9 [OF assms(2)] show_long_length [of fsize]
  by (auto simp: ret_simps stmt_simps array_sizes upload_ok_def show_int_plain refcount_inv_new
      intro!: conn_wp clock_wp run_sql_wp count_wp)

subsection \<open>Deleting\<close>

lemma sel_shared_wp:
  assumes "args_ok user md5 filename" and "entries_in 9 (t_user_file_list (w_tables (ab e)))"
    and "\<And>ret e'. ab e' = ab e \<Longrightarrow> ret \<noteq> 0 \<Longrightarrow> Q (ret, tmp, e')"
    and "\<And>e' i text. ab e' = ab e \<Longrightarrow> c_atoi text = Some i \<Longrightarrow> Q (0, text, e')"
  shows "returns (select_one sv Sel_Shared [S user, S md5, S filename] (Some (512, tmp)) e) Q"
  by (rule select_num_wp [where P = "entry_of user md5 filename" and g = l_shared and rs = "t_user_file_list (w_tables (ab e))"])
    (use assms in \<open>auto simp: short_args_def args_ok_def piece_defs c_atoi_show_int entries_in_def in_limit_int\<close>)

lemma sel_file_id_wp:
  assumes "list_all (plain sq) md5" and "length md5 \<le> 300" and "files_in 9 (t_file_info (w_tables (ab e)))"
    and "\<And>ret e'. ab e' = ab e \<Longrightarrow> ret \<noteq> 0 \<Longrightarrow> Q (ret, tmp, e')"
    and "\<And>e' f. ab e' = ab e \<Longrightarrow> f \<in> set (t_file_info (w_tables (ab e))) \<Longrightarrow> file_of md5 f \<Longrightarrow> length (f_file_id f) < 512 \<Longrightarrow> Q (0, f_file_id f, e')"
  shows "returns (select_one sv Sel_File_Id [S md5] (Some (512, tmp)) e) Q"
  by (rule select_text_wp [where P = "file_of md5" and g = f_file_id and rs = "t_file_info (w_tables (ab e))"])
    (use assms in \<open>auto simp: short_args_def piece_defs files_in_def file_of_def\<close>)

lemma del_shared_wp:
  assumes "args_ok user md5 filename" and "entries_in 9 (t_user_file_list (w_tables (ab e)))"
    and "\<And>ret share flag tmp db e'. ab e' = ab e \<lparr>w_redis := db\<rparr> \<Longrightarrow> Q (ret, share, flag, tmp, e')"
  shows "returns (del_shared sv user md5 filename fileid e) Q"
  unfolding del_shared_def using assms
  by (auto simp: ret_simps intro!: zset_exit_wp sel_shared_wp)

lemma del_unshare_wp:
  assumes "args_ok user md5 filename" and "counts_in 0 (t_user_file_count (w_tables (ab e)))"
    and "\<And>ret tmp e'. counts_in 9 (t_user_file_count (w_tables (ab e'))) \<Longrightarrow>
      t_file_info (w_tables (ab e')) = t_file_info (w_tables (ab e)) \<Longrightarrow>
      t_user_file_list (w_tables (ab e')) = t_user_file_list (w_tables (ab e)) \<Longrightarrow>
      w_shell (ab e') = w_shell (ab e) \<Longrightarrow> Q (ret, tmp, e')"
  shows "returns (del_unshare sv user md5 filename fileid flag tmp e) Q"
proof -
  have "counts_in 9 (t_user_file_count (w_tables (ab e)))" using assms(2) by (auto simp: counts_in_def in_limit_def)
  then show ?thesis
    unfolding del_unshare_def using assms
    by (auto simp: ret_simps stmt_simps args_ok_def share_user_plain counts_in_change
      intro!: run_sql_wp sel_count_wp zset_zrem_wp hash_del_wp)
qed

lemma del_entry_wp:
  assumes "args_ok user md5 filename" and "counts_in 9 (t_user_file_count (w_tables (ab e)))"
    and "\<And>ret tmp e'. t_file_info (w_tables (ab e')) = t_file_info (w_tables (ab e)) \<Longrightarrow>
      t_user_file_list (w_tables (ab e')) =
        (if ret = 0 then remove (entry_of user md5 filename) (t_user_file_list (w_tables (ab e))) else t_user_file_list (w_tables (ab e))) \<Longrightarrow>
      w_shell (ab e') = w_shell (ab e) \<Longrightarrow> Q (ret, tmp, e')"
  shows "returns (del_entry sv user md5 filename tmp e) Q"
  unfolding del_entry_def using assms
  by (auto simp: ret_simps stmt_simps args_ok_def intro!: run_sql_wp sel_count_wp)

end

text \<open>
  What a deletion may do to the storage: nothing, or one command that deletes the file with this MD5 sum, of
  which no entry is left then.
\<close>

definition delete_cmd :: "cJSON \<Rightarrow> string \<Rightarrow> string" where
  "delete_cmd cfg fileid = ''fdfs_delete_file '' @ cfg_at cfg ''dfs_path'' ''client'' @ '' '' @ fileid"

definition storage_safe :: "cJSON \<Rightarrow> string \<Rightarrow> disk \<Rightarrow> disk \<Rightarrow> bool" where
  "storage_safe cfg md5 d d' \<longleftrightarrow> w_shell d' = w_shell d
     \<or> (\<exists>f \<in> set (t_file_info (w_tables d)). f_md5 f = md5 \<and> w_shell d' = w_shell d @ [delete_cmd cfg (f_file_id f)]
          \<and> refs (w_tables d') md5 = 0 \<and> md5 \<notin> f_md5 ` set (t_file_info (w_tables d')))"

lemma storage_safe_same: "w_shell d' = w_shell d \<Longrightarrow> storage_safe cfg md5 d d'"
  by (simp add: storage_safe_def)

lemma remove_change: "remove (file_of md5) (change (file_of md5) (f_count_update h) fs) = remove (file_of md5) fs"
  by (induction fs) (auto simp: remove_def change_def file_of_def)

lemma files_in_zero: "files_in 9 fs \<Longrightarrow> files_in 9 (change P (f_count_update (\<lambda>_. 0)) fs)"
  by (auto simp: files_in_def change_def in_limit_def)

lemma storage_safe_drop:
  assumes "refs (w_tables d) md5 = 0" and "file_of md5 f"
    and "f \<in> set (change (file_of md5) (f_count_update (\<lambda>_. 0)) (t_file_info (w_tables d)))"
  shows "storage_safe cfg md5 d (d \<lparr>w_tables := w_tables d \<lparr>t_file_info := remove (file_of md5) (t_file_info (w_tables d))\<rparr>,
      w_shell := w_shell d @ [delete_cmd cfg (f_file_id f)]\<rparr>)"
proof -
  have "\<exists>f' \<in> set (t_file_info (w_tables d)). f_md5 f' = md5 \<and> f_file_id f' = f_file_id f"
    using change_cases [OF assms(3)] assms(2) by (fastforce simp: file_of_def)
  then show ?thesis using assms(1) by (force simp: storage_safe_def remove_def file_of_def)
qed

context disk_world
begin

lemma remove_file_wp:
  assumes "length fileid < 512" and "\<And>ret e'. ab e' = ab e \<lparr>w_shell := w_shell (ab e) @ [delete_cmd cfg fileid]\<rparr> \<Longrightarrow> Q (ret, e')"
  shows "returns (remove_file_from_storage sv fileid e) Q"
proof -
  have "length (cfg_at cfg ''dfs_path'' ''client'') < 256"
    using cfg_valid by (auto simp: cfg_ok_def cfg_entry_def cfg_at_def split: option.splits)
  then show ?thesis
    using assms system_law [of "delete_cmd cfg fileid" e]
    by (cases "c_system sv (delete_cmd cfg fileid) e")
      (auto simp: remove_file_from_storage_def cfg_values delete_cmd_def ret_simps)
qed

lemma del_stored_inv:
  assumes "refcount_inv (w_tables (ab e))" and "files_in 9 (t_file_info (w_tables (ab e)))"
    and "list_all (plain sq) md5" and "length md5 \<le> 250"
    and "\<And>f. f \<in> set (t_file_info (w_tables (ab e))) \<Longrightarrow> f_md5 f = md5 \<Longrightarrow> int (refs (w_tables (ab e)) md5) < f_count f"
  shows "returns (del_stored sv md5 tmp e) (\<lambda>(ret, e'). refcount_inv (w_tables (ab e')) \<and> storage_safe cfg md5 (ab e) (ab e'))"
proof -
  have less: "refcount_inv (w_tables (ab e) \<lparr>t_file_info :=
      change (file_of md5) (f_count_update (\<lambda>_. f_count f - 1)) (t_file_info (w_tables (ab e)))\<rparr>)"
    if "find (file_of md5) (t_file_info (w_tables (ab e))) = Some f" for f
    using assms(5) find_found [OF that] by (intro refcount_inv_count [OF assms(1)]) (force simp: file_of_def)
  have zero: "refs (w_tables (ab e)) md5 = 0"
    if "find (file_of md5) (t_file_info (w_tables (ab e))) = Some f" "f_count f = 1" for f
    using assms(5) find_found [OF that(1)] that(2) by (force simp: file_of_def)
  have none: "refcount_inv (w_tables (ab e) \<lparr>t_file_info := change (file_of md5) (f_count_update (\<lambda>_. 0)) (t_file_info (w_tables (ab e)))\<rparr>)"
    if "find (file_of md5) (t_file_info (w_tables (ab e))) = Some f" "f_count f = 1" for f
    using less [OF that(1)] that(2) by simp
  show ?thesis
    unfolding del_stored_def
    using assms(1-4)
    by (auto simp: ret_simps stmt_simps less zero none remove_change storage_safe_same refcount_inv_drop files_in_zero storage_safe_drop
        intro!: sel_file_count_wp run_sql_wp sel_file_id_wp remove_file_wp)
qed

text \<open>The last stage, after the entry of the user has left.\<close>

lemma del_stored_after:
  assumes "refcount_inv (w_tables (ab e))" and "files_in 9 (t_file_info (w_tables (ab e)))" and "args_ok user md5 filename"
    and "r \<in> set (t_user_file_list (w_tables (ab e)))" and "entry_of user md5 filename r"
    and "t_file_info (w_tables (ab e')) = t_file_info (w_tables (ab e))"
    and "t_user_file_list (w_tables (ab e')) = remove (entry_of user md5 filename) (t_user_file_list (w_tables (ab e)))"
    and "w_shell (ab e') = w_shell (ab e)"
  shows "returns (del_stored sv md5 tmp e') (\<lambda>(ret, e''). refcount_inv (w_tables (ab e'')) \<and> storage_safe cfg md5 (ab e) (ab e''))"
proof -
  let ?t = "w_tables (ab e) \<lparr>t_user_file_list := remove (entry_of user md5 filename) (t_user_file_list (w_tables (ab e)))\<rparr>"
  have cong: "refs (w_tables (ab e')) = refs ?t" "refcount_inv (w_tables (ab e')) = refcount_inv ?t"
    using refcount_inv_cong [of "w_tables (ab e')" ?t] assms(6,7) by simp_all
  have inv: "refcount_inv (w_tables (ab e'))" unfolding cong by (rule refcount_inv_remove [OF assms(1)])
  have less: "refs (w_tables (ab e')) md5 < refs (w_tables (ab e)) md5"
    unfolding cong using assms(5) by (intro refs_remove_less [OF assms(4)]) (auto simp: entry_of_def)
  have "int (refs (w_tables (ab e')) md5) < f_count f" if "f \<in> set (t_file_info (w_tables (ab e')))" "f_md5 f = md5" for f
    using less assms(1,6) that by (force simp: refcount_inv_def)
  then show ?thesis
    by (intro returns_mono [OF del_stored_inv [OF inv]])
      (use assms(2,3,6,8) in \<open>auto simp: args_ok_def storage_safe_def\<close>)
qed

lemma del_file_inv:
  assumes "refcount_inv (w_tables (ab e))" and "bounded 0 (w_tables (ab e))" and "args_ok user md5 filename"
    and "port_of (redis_port g) \<noteq> None"
    and "r \<in> set (t_user_file_list (w_tables (ab e)))" and "entry_of user md5 filename r"
  shows "returns (del_file sv g user md5 filename e)
    (\<lambda>(ret, out, e'). refcount_inv (w_tables (ab e')) \<and> storage_safe cfg md5 (ab e) (ab e'))"
proof -
  have counts: "counts_in 0 (t_user_file_count (w_tables (ab e)))" using assms(2) by (simp add: bounded_def)
  note b9 = bounded_9 [OF assms(2)]
  note last = del_stored_after [OF assms(1) _ assms(3,5,6)]
  have keep: "refcount_inv (w_tables (ab e'))"
    if "t_file_info (w_tables (ab e')) = t_file_info (w_tables (ab e))"
      "t_user_file_list (w_tables (ab e')) = t_user_file_list (w_tables (ab e))" for e'
    using refcount_inv_cong(2) [OF that] assms(1) by simp
  show ?thesis
    unfolding del_file_def del_file_body_def
    using assms(1,4) assms(3) [unfolded args_ok_def] counts b9
    by (auto simp: ret_simps keep storage_safe_same
        intro!: connectdb_wp conn_wp del_shared_wp [OF assms(3)] del_unshare_wp [OF assms(3)] del_entry_wp [OF assms(3)] returns_mono [OF last] split: if_splits)
qed

end
section \<open>Sequences of requests\<close>

text \<open>
  The handlers that change the tables of files, as operations on the outside world, and the states that
  sequences of them reach from a database without files. A user deletes entries of their own, and a file is
  stored under a new MD5 sum (the client asks \<open>cgi_md5\<close> first).
\<close>

datatype disk_op =
    Op_Md5 string string string
  | Op_Store string string string int string string
  | Op_Share string string string
  | Op_Del string string string
  | Op_Pv string string string
  | Op_Share_Pv string string
  | Op_Cancel string string string
  | Op_Save string string string

fun run_op :: "'e services \<Rightarrow> globals \<Rightarrow> disk_op \<Rightarrow> 'e \<Rightarrow> 'e option" where
  "run_op sv g (Op_Md5 user md5 filename) e = map_option (snd \<circ> snd) (deal_md5 sv g user md5 filename e)"
| "run_op sv g (Op_Store user filename md5 fsize fileid url) e =
     map_option snd (store_fileinfo_to_mysql sv g user filename md5 fsize fileid url e)"
| "run_op sv g (Op_Share user md5 filename) e = map_option (snd \<circ> snd) (share_file sv g user md5 filename e)"
| "run_op sv g (Op_Del user md5 filename) e = map_option (snd \<circ> snd) (del_file sv g user md5 filename e)"
| "run_op sv g (Op_Pv user md5 filename) e = map_option (snd \<circ> snd) (pv_file sv g user md5 filename e)"
| "run_op sv g (Op_Share_Pv md5 filename) e = map_option (snd \<circ> snd) (share_pv_file sv g md5 filename e)"
| "run_op sv g (Op_Cancel user md5 filename) e = map_option (snd \<circ> snd) (cancel_share_file sv g user md5 filename e)"
| "run_op sv g (Op_Save user md5 filename) e = map_option (snd \<circ> snd) (save_file sv g user md5 filename e)"

fun op_ok :: "disk_op \<Rightarrow> tables \<Rightarrow> bool" where
  "op_ok (Op_Md5 user md5 filename) t = args_ok user md5 filename"
| "op_ok (Op_Store user filename md5 fsize fileid url) t \<longleftrightarrow>
     upload_ok user filename md5 fsize fileid url \<and> md5 \<notin> f_md5 ` set (t_file_info t)"
| "op_ok (Op_Share user md5 filename) t = args_ok user md5 filename"
| "op_ok (Op_Del user md5 filename) t \<longleftrightarrow>
     args_ok user md5 filename \<and> (\<exists>r \<in> set (t_user_file_list t). entry_of user md5 filename r)"
| "op_ok (Op_Pv user md5 filename) t = args_ok user md5 filename"
| "op_ok (Op_Share_Pv md5 filename) t = args_ok [] md5 filename"
| "op_ok (Op_Cancel user md5 filename) t = args_ok user md5 filename"
| "op_ok (Op_Save user md5 filename) t = args_ok user md5 filename"

inductive reachable :: "'e services \<Rightarrow> ('e \<Rightarrow> disk) \<Rightarrow> globals \<Rightarrow> 'e \<Rightarrow> bool" for sv ab g where
  start: "t_file_info (w_tables (ab e)) = [] \<Longrightarrow> t_user_file_list (w_tables (ab e)) = [] \<Longrightarrow> reachable sv ab g e"
| step: "reachable sv ab g e \<Longrightarrow> bounded 0 (w_tables (ab e)) \<Longrightarrow> op_ok op (w_tables (ab e)) \<Longrightarrow>
    run_op sv g op e = Some e' \<Longrightarrow> reachable sv ab g e'"

lemma returns_map_option: "returns (map_option f m) Q = returns m (\<lambda>x. Q (f x))"
  by (cases m) simp_all

context disk_world
begin

lemma run_op_inv:
  assumes "port_of (redis_port g) \<noteq> None" and "refcount_inv (w_tables (ab e))" and "bounded 0 (w_tables (ab e))"
    and "op_ok op (w_tables (ab e))"
  shows "returns (run_op sv g op e) (\<lambda>e'. refcount_inv (w_tables (ab e')))"
  using assms
  by (cases op)
    (auto simp: returns_map_option case_prod_unfold intro!: returns_mono [OF deal_md5_inv] returns_mono [OF store_fileinfo_inv]
      returns_mono [OF share_file_inv] returns_mono [OF del_file_inv] returns_mono [OF pv_file_inv]
      returns_mono [OF share_pv_file_inv] returns_mono [OF cancel_share_file_inv] returns_mono [OF save_file_inv])

lemma reachable_inv:
  assumes "port_of (redis_port g) \<noteq> None" and "reachable sv ab g e"
  shows "refcount_inv (w_tables (ab e))"
  using assms(2)
proof induction
  case (start e)
  then show ?case by (simp add: refcount_inv_def)
next
  case (step e op e')
  then show ?case using run_op_inv [OF assms(1), of e op] by simp
qed

end
text \<open>
  C5: in every state that a sequence of instant uploads, stores under a new MD5 sum, shares, downloads, cancelled
  shares, saves and deletions reaches from a database without files, every entry of a user refers to a stored
  file whose count is at least the number of its entries, and every further such request returns. The sequences
  are those of \<open>op_ok\<close>: names have no quotes and fit the statements, and a user deletes only an entry of their own (a
  deletion by somebody without the entry does break the count, \<open>Disk_Effects\<close>); and the counters are within
  \<open>2^30\<close>. MySQL may refuse any statement in the middle of a request; Redis answers each command, if only with an error.
\<close>

theorem reachable_refcount:
  assumes "disk_world sv ab cfg" and "read_cfg sv e0 = Some g" and "reachable sv ab g e"
  shows "refcount_inv (w_tables (ab e))
    \<and> (bounded 0 (w_tables (ab e)) \<and> op_ok op (w_tables (ab e)) \<longrightarrow> run_op sv g op e \<noteq> None)"
proof -
  have port: "port_of (redis_port g) \<noteq> None" using disk_world.read_cfg_port [OF assms(1,2)] .
  have inv: "refcount_inv (w_tables (ab e))" using disk_world.reachable_inv [OF assms(1) port assms(3)] .
  have "returns (run_op sv g op e) (\<lambda>e'. refcount_inv (w_tables (ab e')))"
    if "bounded 0 (w_tables (ab e))" "op_ok op (w_tables (ab e))"
    using disk_world.run_op_inv [OF assms(1) port inv that] .
  with inv show ?thesis by (auto simp: returns_iff)
qed

definition disk0 :: disk where
  "disk0 = \<lparr>w_tables = \<lparr>t_user = [], t_file_info = [], t_user_file_list = [], t_user_file_count = [], t_share_file_list = []\<rparr>,
     w_redis = Map.empty, w_shell = []\<rparr>"

definition globals0 :: globals where
  "globals0 = \<lparr>mysql_user = ''root'', mysql_pwd = ''root'', mysql_db = ''disk'', redis_ip = ''127.0.0.1'', redis_port = ''6379''\<rparr>"

definition tables1 :: "int \<Rightarrow> tables" where
  "tables1 n = \<lparr>t_user = [],
     t_file_info = [\<lparr>f_md5 = ''0a'', f_file_id = ''g1'', f_url = ''u'', f_size = ''5'', f_type = ''txt'', f_count = n\<rparr>],
     t_user_file_list = [\<lparr>l_user = ''ann'', l_md5 = ''0a'', l_createtime = ''2020-08-04 19:06:00'', l_filename = ''a.txt'',
       l_shared = 0, l_pv = 0\<rparr>],
     t_user_file_count = [\<lparr>c_user = ''ann'', c_count = 1\<rparr>], t_share_file_list = []\<rparr>"

lemma globals0_read: "read_cfg ref_faulty e = Some globals0" "read_cfg ref_up d = Some globals0"
  unfolding ref_faulty.read_cfg_eq ref_up.read_cfg_eq globals0_def by code_simp+

text \<open>Ann stores a file, and the server refuses the insert of the entry after the file has been entered.\<close>

lemma refused_step:
  "map_option (\<lambda>e. w_tables (fst e))
     (run_op ref_faulty globals0 (Op_Store ''ann'' ''a.txt'' ''0a'' 5 ''g1'' ''u'') (disk0, [False, False, True]))
   = Some (tables1 1 \<lparr>t_user_file_list := [], t_user_file_count := []\<rparr>)"
  by code_simp

lemma tables_examples: "bounded 0 (w_tables disk0)" "bounded 0 (tables1 2)" "refcount_inv (tables1 2)"
  by (simp_all add: bounded_def in_defs in_limit_def disk0_def tables1_def refcount_inv_def refs_def)

lemma op_ok_examples:
  "op_ok (Op_Store ''ann'' ''a.txt'' ''0a'' 5 ''g1'' ''u'') (w_tables disk0)"
  "args_ok ''ann'' ''0a'' ''a.txt''" "args_ok ''bob'' ''0a'' ''a.txt''"
proof -
  have "get_file_suffix ''a.txt'' = ''txt''" by code_simp
  then show "op_ok (Op_Store ''ann'' ''a.txt'' ''0a'' 5 ''g1'' ''u'') (w_tables disk0)"
    by (simp add: upload_ok_def plain_def sq_def in_long_def disk0_def)
qed (simp_all add: args_ok_def plain_def sq_def)

theorem reachable_refcount_witness:
  "\<exists>e. reachable ref_faulty fst globals0 e \<and> t_file_info (w_tables (fst e)) = t_file_info (tables1 1)
     \<and> refcount_inv (w_tables (fst e))"
proof -
  obtain e1 where e1: "run_op ref_faulty globals0 (Op_Store ''ann'' ''a.txt'' ''0a'' 5 ''g1'' ''u'') (disk0, [False, False, True]) = Some e1"
      "w_tables (fst e1) = tables1 1 \<lparr>t_user_file_list := [], t_user_file_count := []\<rparr>"
    using refused_step by (auto simp del: run_op.simps)
  have "reachable ref_faulty fst globals0 (disk0, [False, False, True])"
    by (rule reachable.start) (simp_all add: disk0_def)
  then have reach: "reachable ref_faulty fst globals0 e1"
    by (rule reachable.step [OF _ _ _ e1(1)]) (use tables_examples op_ok_examples in \<open>simp_all del: op_ok.simps\<close>)
  show ?thesis
    using reachable_refcount [OF ref_faulty.disk_world_axioms globals0_read(1) reach] reach e1(2)
    by (intro exI [of _ e1]) simp
qed

text \<open>
  C7: a user who deletes an entry of their own keeps the counts right, and the file leaves the storage only if
  no other entry refers to it, also if statements are refused in between. The storage is asked at most once,
  for the file with the MD5 sum of the request.
\<close>

theorem del_file_storage:
  assumes "disk_world sv ab cfg" and "read_cfg sv e0 = Some g"
    and "refcount_inv (w_tables (ab e))" and "bounded 0 (w_tables (ab e))" and "args_ok user md5 filename"
    and "r \<in> set (t_user_file_list (w_tables (ab e)))" and "entry_of user md5 filename r"
  shows "returns (del_file sv g user md5 filename e)
    (\<lambda>(ret, out, e'). refcount_inv (w_tables (ab e')) \<and> storage_safe cfg md5 (ab e) (ab e'))"
  using disk_world.del_file_inv [OF assms(1,3-5) disk_world.read_cfg_port [OF assms(1,2)] assms(6,7)] .

theorem del_file_storage_witness:
  "returns (del_file ref_up globals0 ''ann'' ''0a'' ''a.txt'' (disk0 \<lparr>w_tables := tables1 2\<rparr>))
     (\<lambda>(ret, out, e'). refcount_inv (w_tables e') \<and> storage_safe cfg0 ''0a'' (disk0 \<lparr>w_tables := tables1 2\<rparr>) e')"
proof -
  have "\<exists>r \<in> set (t_user_file_list (tables1 2)). entry_of ''ann'' ''0a'' ''a.txt'' r"
    by (simp add: tables1_def entry_of_def)
  then show ?thesis
    using del_file_storage [OF ref_up.disk_world_axioms globals0_read(2), of "disk0 \<lparr>w_tables := tables1 2\<rparr>"]
      tables_examples op_ok_examples by auto
qed

end
