(* ===== verification/Disk_Effects.thy ===== *)
theory Disk_Effects
  imports Disk_Invariant
begin

text \<open>
  What the handlers do when the servers are up: the answer and the exact change of the tables and of the Redis
  keys, on every branch.
\<close>

definition has_entry :: "string \<Rightarrow> string \<Rightarrow> string \<Rightarrow> disk \<Rightarrow> bool" where
  "has_entry user md5 filename d \<longleftrightarrow> (\<exists>r \<in> set (t_user_file_list (w_tables d)). entry_of user md5 filename r)"

definition stored :: "string \<Rightarrow> disk \<Rightarrow> file_row option" where
  "stored md5 d = find (file_of md5) (t_file_info (w_tables d))"

context disk_world_up
begin

lemma conn_up:
  "(\<And>e'. ab e' = ab e \<Longrightarrow> returns (f True e') Q) \<Longrightarrow> returns (case msql_conn sv u p d e of (conn, e') \<Rightarrow> f conn e') Q"
  by (rule returns_pair) (use msql_conn_up ab_msql_conn in \<open>metis (full_types)\<close>)

lemma sel_file_count_up:
  assumes "list_all (plain sq) md5" and "length md5 \<le> 300" and "files_in 9 (t_file_info (w_tables (ab e)))"
    and "\<And>e'. ab e' = ab e \<Longrightarrow> stored md5 (ab e) = None \<Longrightarrow> Q (1, tmp, e')"
    and "\<And>e' f text. ab e' = ab e \<Longrightarrow> stored md5 (ab e) = Some f \<Longrightarrow>
      c_atoi text = Some (f_count f) \<Longrightarrow> in_int (f_count f + 1) \<Longrightarrow> in_int (f_count f - 1) \<Longrightarrow> Q (0, text, e')"
  shows "returns (select_one sv Sel_File_Count [S md5] (Some (512, tmp)) e) Q"
  by (rule select_num_up [where P = "file_of md5" and g = f_count and rs = "t_file_info (w_tables (ab e))"])
    (use assms in \<open>auto simp: stored_def short_args_def c_atoi_show_int files_in_def in_limit_int\<close>)

lemma sel_user_file_up:
  assumes "args_ok user md5 filename"
    and "\<And>e'. ab e' = ab e \<Longrightarrow> \<not> has_entry user md5 filename (ab e) \<Longrightarrow> Q (1, [], e')"
    and "\<And>e'. ab e' = ab e \<Longrightarrow> has_entry user md5 filename (ab e) \<Longrightarrow> Q (2, [], e')"
  shows "returns (select_one sv Sel_User_File [S user, S md5, S filename] None e) Q"
  by (rule select_any_up [where P = "entry_of user md5 filename" and cols = list_cols and rs = "t_user_file_list (w_tables (ab e))"])
    (use assms in \<open>auto simp: short_args_def args_ok_def piece_defs has_entry_def\<close>)

lemma count_up:
  assumes "ins \<in> {Ins_Count, Ins_Share_Count}" and "list_all (plain sq) user" and "length user \<le> 280"
    and "counts_in 9 (t_user_file_count (w_tables (ab e)))"
    and "\<And>e'. ab e' = ab e \<lparr>w_tables := w_tables (ab e)
        \<lparr>t_user_file_count := bump_count user (t_user_file_count (w_tables (ab e)))\<rparr>\<rparr> \<Longrightarrow> Q (0, e')"
  shows "returns (count_file sv ins user tmp e) Q"
  by (rule count_file_up) (use assms in \<open>auto simp: counts_in_def in_limit_int\<close>)

end

section \<open>Instant upload\<close>

definition new_entry :: "string \<Rightarrow> string \<Rightarrow> string \<Rightarrow> tm \<Rightarrow> list_row" where
  "new_entry user md5 filename now =
     \<lparr>l_user = user, l_md5 = md5, l_createtime = time_text now, l_filename = filename, l_shared = 0, l_pv = 0\<rparr>"

text \<open>One more user of the file \<open>f\<close>.\<close>

definition add_user :: "file_row \<Rightarrow> list_row \<Rightarrow> tables \<Rightarrow> tables" where
  "add_user f r t = t
     \<lparr>t_file_info := change (file_of (l_md5 r)) (f_count_update (\<lambda>_. f_count f + 1)) (t_file_info t),
      t_user_file_list := t_user_file_list t @ [r],
      t_user_file_count := bump_count (l_user r) (t_user_file_count t)\<rparr>"

context disk_world_up
begin

lemma deal_md5_up:
  assumes "bounded 0 (w_tables (ab e))" and "args_ok user md5 filename"
    and "\<And>e'. stored md5 (ab e) = None \<Longrightarrow> ab e' = ab e \<Longrightarrow> Q (- 3, status_text ''006'', e')"
    and "\<And>e'. stored md5 (ab e) \<noteq> None \<Longrightarrow> has_entry user md5 filename (ab e) \<Longrightarrow> ab e' = ab e \<Longrightarrow> Q (- 2, status_text ''004'', e')"
    and "\<And>e' f now. stored md5 (ab e) = Some f \<Longrightarrow> \<not> has_entry user md5 filename (ab e) \<Longrightarrow> valid_tm now \<Longrightarrow>
      ab e' = ab e \<lparr>w_tables := add_user f (new_entry user md5 filename now) (w_tables (ab e))\<rparr> \<Longrightarrow> Q (0, status_text ''005'', e')"
  shows "returns (deal_md5 sv g user md5 filename e) Q"
  unfolding deal_md5_def deal_md5_body_def
  using assms bounded_9 [OF assms(1)]
  by (auto simp: ret_simps stmt_simps args_ok_def add_user_def new_entry_def
      intro!: conn_up clock_wp sel_file_count_up sel_user_file_up run_sql_up count_up)

end

section \<open>The public files in Redis\<close>

text \<open>
  The sorted set of the shared files and the hash of their names. The scores are the same for all members as
  long as nothing has been downloaded, and only then does Redis document the answer to \<open>zlexcount\<close>.
\<close>

definition public :: "disk \<Rightarrow> (string \<times> int) list option" where
  "public d = zset_of (w_redis d FILE_PUBLIC_ZSET)"

definition names :: "disk \<Rightarrow> (string \<times> string) list option" where
  "names d = hash_of (w_redis d FILE_NAME_HASH)"

context disk_world_up
begin

lemma redis_exact:
  assumes "redis_exec cmd (w_redis (ab e)) = Some (reply, db)"
  obtains e' where "redisCommand sv cmd e = (Some reply, e')" and "ab e' = ab e \<lparr>w_redis := db\<rparr>"
  using redis_up [OF assms] by auto

lemma zset_exit_up:
  assumes "public (ab e) = Some z" and "same_scores z"
    and "\<And>e'. ab e' = ab e \<Longrightarrow> Q (if map_of z member = None then 0 else 1, e')"
  shows "returns (rop_zset_exit sv FILE_PUBLIC_ZSET member e) Q"
proof -
  have "redis_exec [''zlexcount'', FILE_PUBLIC_ZSET, CHR ''['' # member, CHR ''['' # member] (w_redis (ab e))
      = Some (new_count (map_of z member \<noteq> None), w_redis (ab e))"
    using assms(1,2) by (simp add: redis_exec_def exec_zlexcount_def public_def)
  then obtain e' where "redisCommand sv [''zlexcount'', FILE_PUBLIC_ZSET, CHR ''['' # member, CHR ''['' # member] e
      = (Some (new_count (map_of z member \<noteq> None)), e')" "ab e' = ab e"
    by (rule redis_exact) simp
  then show ?thesis using assms(3) by (auto simp: rop_zset_exit_def new_count_def to_int_id in_int_consts)
qed

lemma zset_add_up:
  assumes "public (ab e) = Some z" and "in_int score"
    and "\<And>ret e'. ab e' = ab e \<lparr>w_redis := put_zset FILE_PUBLIC_ZSET (AList.update member score z) (w_redis (ab e))\<rparr> \<Longrightarrow> Q (ret, e')"
  shows "returns (rop_zset_add sv FILE_PUBLIC_ZSET score member e) Q"
proof -
  have "redis_exec [''ZADD'', FILE_PUBLIC_ZSET, show_int score, member] (w_redis (ab e))
      = Some (new_count (map_of z member = None), put_zset FILE_PUBLIC_ZSET (AList.update member score z) (w_redis (ab e)))"
    using assms(1) by (simp add: redis_exec_def exec_zadd_def with_zset_def public_def read_show_int)
  then show ?thesis by (rule redis_exact) (use assms(3) in \<open>auto simp: rop_zset_add_def new_count_def\<close>)
qed

lemma hash_set_up:
  assumes "names (ab e) = Some h"
    and "\<And>ret e'. ab e' = ab e \<lparr>w_redis := put_hash FILE_NAME_HASH (AList.update field v h) (w_redis (ab e))\<rparr> \<Longrightarrow> returns (f ret e') Q"
  shows "returns (case rop_hash_set sv FILE_NAME_HASH field v e of (ret, e') \<Rightarrow> f ret e') Q"
proof -
  have "redis_exec [''hset'', FILE_NAME_HASH, field, v] (w_redis (ab e))
      = Some (new_count (map_of h field = None), put_hash FILE_NAME_HASH (AList.update field v h) (w_redis (ab e)))"
    using assms(1) by (simp add: redis_exec_def exec_hset_def with_hash_def names_def)
  then show ?thesis by (rule redis_exact) (use assms(2) in \<open>auto simp: rop_hash_set_def new_count_def\<close>)
qed

lemma zset_increment_up:
  assumes "public (ab e) = Some z" and "map_of z member = Some s"
    and "\<And>e'. ab e' = ab e \<lparr>w_redis := put_zset FILE_PUBLIC_ZSET (AList.update member (s + 1) z) (w_redis (ab e))\<rparr> \<Longrightarrow> Q (- 1, e')"
  shows "returns (rop_zset_increment sv FILE_PUBLIC_ZSET member e) Q"
proof -
  have "read_int ''1'' = 1" by code_simp
  then have "redis_exec [''ZINCRBY'', FILE_PUBLIC_ZSET, ''1'', member] (w_redis (ab e))
      = Some (REPLY_STRING (show_int (s + 1)), put_zset FILE_PUBLIC_ZSET (AList.update member (s + 1) z) (w_redis (ab e)))"
    using assms(1,2) by (simp add: redis_exec_def exec_zincrby_def with_zset_def public_def Let_def)
  moreover have "c_str (show_int i) \<noteq> ''OK''" for i
    using show_int_set [of "CHR ''O''" i] show_int_set [of "CHR 0x00" i] c_str_id [of "show_int i"]
    by (fastforce simp: c_isdigit_def simp del: c_str_id)
  ultimately show ?thesis using assms(3)
    by (elim redis_exact) (auto simp: rop_zset_increment_def reply_ok_def)
qed

end

section \<open>Sharing\<close>

definition is_shared :: "string \<Rightarrow> string \<Rightarrow> disk \<Rightarrow> bool" where
  "is_shared md5 filename d \<longleftrightarrow> (\<exists>r \<in> set (t_share_file_list (w_tables d)). share_of md5 filename r)"

definition add_share :: "string \<Rightarrow> string \<Rightarrow> string \<Rightarrow> tm \<Rightarrow> tables \<Rightarrow> tables" where
  "add_share user md5 filename now t = t
     \<lparr>t_user_file_list := change (entry_of user md5 filename) (l_shared_update (\<lambda>_. 1)) (t_user_file_list t),
      t_share_file_list := t_share_file_list t @
        [\<lparr>s_user = user, s_md5 = md5, s_createtime = time_text now, s_filename = filename, s_pv = 0\<rparr>],
      t_user_file_count := bump_count share_user (t_user_file_count t)\<rparr>"

definition publish :: "string \<Rightarrow> (string \<times> int) list \<Rightarrow> rdb \<Rightarrow> rdb" where
  "publish fileid z db = put_zset FILE_PUBLIC_ZSET (AList.update fileid 0 z) db"

definition name_file :: "string \<Rightarrow> string \<Rightarrow> (string \<times> string) list \<Rightarrow> rdb \<Rightarrow> rdb" where
  "name_file fileid filename h db = put_hash FILE_NAME_HASH (AList.update fileid filename h) db"

lemma redis_keys_differ [simp]: "FILE_PUBLIC_ZSET \<noteq> FILE_NAME_HASH" "FILE_NAME_HASH \<noteq> FILE_PUBLIC_ZSET"
  by (simp_all add: FILE_PUBLIC_ZSET_def FILE_NAME_HASH_def)

lemma names_after [simp]: "names (d \<lparr>w_tables := t\<rparr>) = names d" "public (d \<lparr>w_tables := t\<rparr>) = public d"
  "names (d \<lparr>w_tables := t, w_redis := put_zset FILE_PUBLIC_ZSET z (w_redis d)\<rparr>) = names d"
  "names (d \<lparr>w_redis := put_zset FILE_PUBLIC_ZSET z (w_redis d)\<rparr>) = names d"
  by (simp_all add: names_def public_def put_zset_def)

context disk_world_up
begin

lemma sel_share_up:
  assumes "args_ok user md5 filename"
    and "\<And>e'. ab e' = ab e \<Longrightarrow> \<not> is_shared md5 filename (ab e) \<Longrightarrow> Q (1, [], e')"
    and "\<And>e'. ab e' = ab e \<Longrightarrow> is_shared md5 filename (ab e) \<Longrightarrow> Q (2, [], e')"
  shows "returns (select_one sv Sel_Share [S md5, S filename] None e) Q"
  by (rule select_any_up [where P = "share_of md5 filename" and cols = share_cols and rs = "t_share_file_list (w_tables (ab e))"])
    (use assms in \<open>auto simp: short_args_def args_ok_def piece_defs is_shared_def\<close>)

lemma share_file_up:
  assumes "bounded 0 (w_tables (ab e))" and "args_ok user md5 filename" and "port_of (redis_port g) \<noteq> None"
    and "public (ab e) = Some z" and "same_scores z" and "names (ab e) = Some h"
    and "\<And>e'. map_of z (md5 @ filename) \<noteq> None \<Longrightarrow> ab e' = ab e \<Longrightarrow> Q (- 2, status_text ''012'', e')"
    and "\<And>e'. map_of z (md5 @ filename) = None \<Longrightarrow> is_shared md5 filename (ab e) \<Longrightarrow>
      ab e' = ab e \<lparr>w_redis := publish (md5 @ filename) z (w_redis (ab e))\<rparr> \<Longrightarrow> Q (- 2, status_text ''012'', e')"
    and "\<And>e' now. map_of z (md5 @ filename) = None \<Longrightarrow> \<not> is_shared md5 filename (ab e) \<Longrightarrow> valid_tm now \<Longrightarrow>
      ab e' = ab e \<lparr>w_tables := add_share user md5 filename now (w_tables (ab e)),
        w_redis := name_file (md5 @ filename) filename h (publish (md5 @ filename) z (w_redis (ab e)))\<rparr> \<Longrightarrow> Q (0, status_text ''010'', e')"
  shows "returns (share_file sv g user md5 filename e) Q"
  unfolding share_file_def share_file_body_def share_check_def share_enter_def
  using assms(1,3-9) assms(2) [unfolded args_ok_def] bounded_9 [OF assms(1)]
  by (auto simp: ret_simps stmt_simps array_sizes share_user_plain add_share_def publish_def name_file_def
      intro!: connectdb_up conn_up zset_exit_up [OF _ assms(5)] sel_share_up [OF assms(2)] zset_add_up [where z = z] run_sql_up clock_wp
      count_up hash_set_up [where h = h])

lemma sel_share_pv_up:
  assumes "list_all (plain sq) md5" and "list_all (plain sq) filename" and "length md5 + length filename \<le> 250"
    and "shares_in 9 (t_share_file_list (w_tables (ab e)))"
    and "find (share_of md5 filename) (t_share_file_list (w_tables (ab e))) = Some r"
    and "\<And>e' text. ab e' = ab e \<Longrightarrow> c_atoi text = Some (s_pv r) \<Longrightarrow> in_int (s_pv r + 1) \<Longrightarrow> Q (0, text, e')"
  shows "returns (select_one sv Sel_Share_Pv [S md5, S filename] (Some (512, tmp)) e) Q"
  by (rule select_num_up [where P = "share_of md5 filename" and g = s_pv and rs = "t_share_file_list (w_tables (ab e))"])
    (use assms in \<open>auto simp: short_args_def piece_defs c_atoi_show_int shares_in_def in_limit_int\<close>)

lemma share_pv_file_up:
  assumes "bounded 0 (w_tables (ab e))" and "args_ok user md5 filename" and "port_of (redis_port g) \<noteq> None"
    and "public (ab e) = Some z" and "same_scores z" and "map_of z (md5 @ filename) = Some s"
    and "find (share_of md5 filename) (t_share_file_list (w_tables (ab e))) = Some r"
    and "\<And>e'. ab e' = ab e \<lparr>w_tables := w_tables (ab e) \<lparr>t_share_file_list :=
          change (share_of md5 filename) (s_pv_update (\<lambda>_. s_pv r + 1)) (t_share_file_list (w_tables (ab e)))\<rparr>,
        w_redis := put_zset FILE_PUBLIC_ZSET (AList.update (md5 @ filename) (s + 1) z) (w_redis (ab e))\<rparr> \<Longrightarrow>
      Q (- 1, status_text ''017'', e')"
  shows "returns (share_pv_file sv g md5 filename e) Q"
  unfolding share_pv_file_def share_pv_file_body_def share_pv_redis_def
  using assms(1,3-8) assms(2) [unfolded args_ok_def] bounded_9 [OF assms(1)]
  by (auto simp: ret_simps stmt_simps
      intro!: connectdb_up conn_up sel_share_pv_up [where r = r] run_sql_up zset_exit_up [OF _ assms(5)]
      zset_increment_up [where z = z and s = s])

end

section \<open>Deleting\<close>

definition drop_count :: "string \<Rightarrow> count_row \<Rightarrow> count_row list \<Rightarrow> count_row list" where
  "drop_count user c cs =
     (if c_count c = 1 then remove (count_of user) cs
      else change (count_of user) (c_count_update (\<lambda>_. c_count c - 1)) cs)"

definition drop_file :: "file_row \<Rightarrow> file_row list \<Rightarrow> file_row list" where
  "drop_file f fs =
     (if f_count f = 1 then remove (file_of (f_md5 f)) fs
      else change (file_of (f_md5 f)) (f_count_update (\<lambda>_. f_count f - 1)) fs)"

definition not_shared :: "string \<Rightarrow> string \<Rightarrow> string \<Rightarrow> disk \<Rightarrow> bool" where
  "not_shared user md5 filename d \<longleftrightarrow>
     (\<forall>r \<in> set (t_user_file_list (w_tables d)). entry_of user md5 filename r \<longrightarrow> l_shared r \<noteq> 1)"

text \<open>The disk after \<open>user\<close> has deleted the entry \<open>md5\<close>, \<open>filename\<close>; whether there is one plays no role.\<close>

definition deleted :: "cJSON \<Rightarrow> string \<Rightarrow> string \<Rightarrow> string \<Rightarrow> file_row \<Rightarrow> count_row \<Rightarrow> disk \<Rightarrow> disk" where
  "deleted cfg user md5 filename f c d = d
     \<lparr>w_tables := w_tables d
        \<lparr>t_user_file_count := drop_count user c (t_user_file_count (w_tables d)),
         t_user_file_list := remove (entry_of user md5 filename) (t_user_file_list (w_tables d)),
         t_file_info := drop_file f (t_file_info (w_tables d))\<rparr>,
      w_shell := w_shell d @ (if f_count f = 1 then [delete_cmd cfg (f_file_id f)] else [])\<rparr>"

lemma find_change: "find (file_of m) (change (file_of m) (f_count_update h) fs) = map_option (f_count_update h) (find (file_of m) fs)"
  by (induction fs) (auto simp: change_def file_of_def)

lemma stored_md5: "stored md5 d = Some f \<Longrightarrow> f_md5 f = md5"
  using find_found(2) by (fastforce simp: stored_def file_of_def)

context disk_world_up
begin

lemma sel_shared_up:
  assumes "args_ok user md5 filename" and "entries_in 9 (t_user_file_list (w_tables (ab e)))"
    and "\<And>e'. ab e' = ab e \<Longrightarrow> find (entry_of user md5 filename) (t_user_file_list (w_tables (ab e))) = None \<Longrightarrow> Q (1, tmp, e')"
    and "\<And>e' r text. ab e' = ab e \<Longrightarrow> find (entry_of user md5 filename) (t_user_file_list (w_tables (ab e))) = Some r \<Longrightarrow>
      c_atoi text = Some (l_shared r) \<Longrightarrow> Q (0, text, e')"
  shows "returns (select_one sv Sel_Shared [S user, S md5, S filename] (Some (512, tmp)) e) Q"
  by (rule select_num_up [where P = "entry_of user md5 filename" and g = l_shared and rs = "t_user_file_list (w_tables (ab e))"])
    (use assms in \<open>auto simp: short_args_def args_ok_def piece_defs c_atoi_show_int entries_in_def in_limit_int\<close>)

lemma sel_count_up:
  assumes "list_all (plain sq) user" and "length user \<le> 300" and "counts_in 9 (t_user_file_count (w_tables (ab e)))"
    and "\<And>e'. ab e' = ab e \<Longrightarrow> find (count_of user) (t_user_file_count (w_tables (ab e))) = None \<Longrightarrow> Q (1, tmp, e')"
    and "\<And>e' r text. ab e' = ab e \<Longrightarrow> find (count_of user) (t_user_file_count (w_tables (ab e))) = Some r \<Longrightarrow>
      c_atoi text = Some (c_count r) \<Longrightarrow> in_int (c_count r - 1) \<Longrightarrow> Q (0, text, e')"
  shows "returns (select_one sv Sel_Count [S user] (Some (512, tmp)) e) Q"
  by (rule select_num_up [where P = "count_of user" and g = c_count and rs = "t_user_file_count (w_tables (ab e))"])
    (use assms in \<open>auto simp: short_args_def piece_defs c_atoi_show_int counts_in_def in_limit_int\<close>)

lemma sel_file_id_up:
  assumes "list_all (plain sq) md5" and "length md5 \<le> 300" and "files_in 9 (t_file_info (w_tables (ab e)))"
    and "find (file_of md5) (t_file_info (w_tables (ab e))) = Some f"
    and "\<And>e'. ab e' = ab e \<Longrightarrow> length (f_file_id f) < 512 \<Longrightarrow> Q (0, f_file_id f, e')"
  shows "returns (select_one sv Sel_File_Id [S md5] (Some (512, tmp)) e) Q"
  by (rule select_text_up [where P = "file_of md5" and g = f_file_id and rs = "t_file_info (w_tables (ab e))"])
    (use assms in \<open>auto simp: short_args_def piece_defs files_in_def file_of_def\<close>)

lemma del_stored_up:
  assumes "list_all (plain sq) md5" and "length md5 \<le> 250" and "files_in 9 (t_file_info (w_tables (ab e)))"
    and "stored md5 (ab e) = Some f"
    and "\<And>ret e'. ab e' = ab e \<lparr>w_tables := w_tables (ab e) \<lparr>t_file_info := drop_file f (t_file_info (w_tables (ab e)))\<rparr>,
        w_shell := w_shell (ab e) @ (if f_count f = 1 then [delete_cmd cfg (f_file_id f)] else [])\<rparr> \<Longrightarrow>
      ret = 0 \<or> f_count f = 1 \<and> ret = - 1 \<Longrightarrow> Q (ret, e')"
  shows "returns (del_stored sv md5 tmp e) Q"
  unfolding del_stored_def
  using assms stored_md5 [OF assms(4)]
  by (auto simp: ret_simps stmt_simps drop_file_def remove_change files_in_zero find_change stored_def [symmetric]
      intro!: sel_file_count_up run_sql_up sel_file_id_up [where f = "f \<lparr>f_count := 0\<rparr>"] remove_file_wp)

lemma del_stored_none:
  assumes "list_all (plain sq) md5" and "length md5 \<le> 250" and "files_in 9 (t_file_info (w_tables (ab e)))"
    and "stored md5 (ab e) = None" and "\<And>e'. ab e' = ab e \<Longrightarrow> Q (- 1, e')"
  shows "returns (del_stored sv md5 tmp e) Q"
  unfolding del_stored_def using assms by (auto simp: ret_simps intro!: sel_file_count_up)

lemma del_entry_up:
  assumes "args_ok user md5 filename" and "counts_in 9 (t_user_file_count (w_tables (ab e)))"
    and "\<And>tmp e'. find (count_of user) (t_user_file_count (w_tables (ab e))) = None \<Longrightarrow> ab e' = ab e \<Longrightarrow> Q (- 1, tmp, e')"
    and "\<And>tmp e' c. find (count_of user) (t_user_file_count (w_tables (ab e))) = Some c \<Longrightarrow>
      ab e' = ab e \<lparr>w_tables := w_tables (ab e) \<lparr>t_user_file_count := drop_count user c (t_user_file_count (w_tables (ab e))),
         t_user_file_list := remove (entry_of user md5 filename) (t_user_file_list (w_tables (ab e)))\<rparr>\<rparr> \<Longrightarrow> Q (0, tmp, e')"
  shows "returns (del_entry sv user md5 filename tmp e) Q"
  unfolding del_entry_def using assms
  by (auto simp: ret_simps stmt_simps args_ok_def drop_count_def intro!: sel_count_up run_sql_up)

lemma del_shared_up:
  assumes "args_ok user md5 filename" and "entries_in 9 (t_user_file_list (w_tables (ab e)))"
    and "public (ab e) = Some z" and "same_scores z" and "map_of z fileid = None"
    and "not_shared user md5 filename (ab e)"
    and "\<And>share tmp e'. ab e' = ab e \<Longrightarrow> share \<noteq> 1 \<Longrightarrow> Q (0, share, False, tmp, e')"
  shows "returns (del_shared sv user md5 filename fileid e) Q"
proof -
  have "l_shared r \<noteq> 1" if "find (entry_of user md5 filename) (t_user_file_list (w_tables (ab e))) = Some r" for r
    using assms(6) find_found [OF that] by (auto simp: not_shared_def)
  then show ?thesis
    unfolding del_shared_def using assms(1-5,7)
    by (auto simp: ret_simps intro!: zset_exit_up [OF _ assms(4)] sel_shared_up)
qed

text \<open>A file that is not shared.\<close>

lemma del_file_up:
  assumes "bounded 0 (w_tables (ab e))" and "args_ok user md5 filename" and "port_of (redis_port g) \<noteq> None"
    and "public (ab e) = Some z" and "same_scores z" and "map_of z (md5 @ filename) = None"
    and "not_shared user md5 filename (ab e)"
    and "\<And>e'. find (count_of user) (t_user_file_count (w_tables (ab e))) = None \<Longrightarrow> ab e' = ab e \<Longrightarrow> Q (- 1, status_text ''014'', e')"
    and "stored md5 (ab e) = Some f"
    and "\<And>e' c. find (count_of user) (t_user_file_count (w_tables (ab e))) = Some c \<Longrightarrow>
      ab e' = deleted cfg user md5 filename f c (ab e) \<Longrightarrow> Q (0, status_text ''013'', e')"
    and "\<And>e' c. find (count_of user) (t_user_file_count (w_tables (ab e))) = Some c \<Longrightarrow> f_count f = 1 \<Longrightarrow>
      ab e' = deleted cfg user md5 filename f c (ab e) \<Longrightarrow> Q (- 1, status_text ''014'', e')"
  shows "returns (del_file sv g user md5 filename e) Q"
proof -
  have md5: "list_all (plain sq) md5" "length md5 \<le> 250" "length md5 + length filename < 1024"
    using assms(2) by (auto simp: args_ok_def)
  have stored: "stored md5 (d \<lparr>w_tables := w_tables d \<lparr>t_user_file_count := cs, t_user_file_list := rs\<rparr>\<rparr>) = stored md5 d" for d cs rs
    by (simp add: stored_def)
  show ?thesis
    unfolding del_file_def del_file_body_def
    using assms(3,4,6-) md5 bounded_9 [OF assms(1)] stored
    by (auto simp: ret_simps deleted_def
        intro!: connectdb_up conn_up del_shared_up [OF assms(2) _ _ assms(5)] del_entry_up [OF assms(2)] del_stored_up [where f = f])
qed

end

text \<open>A file that is in the public set: the share of \<open>user\<close>, if there is one, leaves the table; the set loses the file.\<close>

definition unpublish :: "string \<Rightarrow> (string \<times> int) list \<Rightarrow> (string \<times> string) list \<Rightarrow> rdb \<Rightarrow> rdb" where
  "unpublish fileid z h db = put_hash FILE_NAME_HASH (AList.delete fileid h) (put_zset FILE_PUBLIC_ZSET (AList.delete fileid z) db)"

definition end_share :: "string \<Rightarrow> string \<Rightarrow> string \<Rightarrow> count_row \<Rightarrow> (string \<times> int) list \<Rightarrow> (string \<times> string) list \<Rightarrow> disk \<Rightarrow> disk" where
  "end_share user md5 filename sc z h d = d
     \<lparr>w_tables := w_tables d
        \<lparr>t_share_file_list := remove (\<lambda>r. s_user r = user \<and> share_of md5 filename r) (t_share_file_list (w_tables d)),
         t_user_file_count := change (count_of share_user) (c_count_update (\<lambda>_. c_count sc - 1)) (t_user_file_count (w_tables d))\<rparr>,
      w_redis := unpublish (md5 @ filename) z h (w_redis d)\<rparr>"

lemma find_count_change:
  "user \<noteq> v \<Longrightarrow> find (count_of user) (change (count_of v) (c_count_update h) cs) = find (count_of user) cs"
  by (induction cs) (auto simp: change_def count_of_def)

context disk_world_up
begin

lemma zset_zrem_up:
  assumes "public (ab e) = Some z"
    and "\<And>ret e'. ab e' = ab e \<lparr>w_redis := put_zset FILE_PUBLIC_ZSET (AList.delete member z) (w_redis (ab e))\<rparr> \<Longrightarrow> Q (ret, e')"
  shows "returns (rop_zset_zrem sv FILE_PUBLIC_ZSET member e) Q"
proof -
  have "redis_exec [''ZREM'', FILE_PUBLIC_ZSET, member] (w_redis (ab e))
      = Some (new_count (map_of z member \<noteq> None), put_zset FILE_PUBLIC_ZSET (AList.delete member z) (w_redis (ab e)))"
    using assms(1) by (simp add: redis_exec_def exec_zrem_def with_zset_def public_def)
  then show ?thesis by (rule redis_exact) (use assms(2) in \<open>auto simp: rop_zset_zrem_def new_count_def\<close>)
qed

lemma hash_del_up:
  assumes "names (ab e) = Some h"
    and "\<And>ret e'. ab e' = ab e \<lparr>w_redis := put_hash FILE_NAME_HASH (AList.delete field h) (w_redis (ab e))\<rparr> \<Longrightarrow> Q (ret, e')"
  shows "returns (rop_hash_del sv FILE_NAME_HASH field e) Q"
proof -
  have "redis_exec [''hdel'', FILE_NAME_HASH, field] (w_redis (ab e))
      = Some (new_count (map_of h field \<noteq> None), put_hash FILE_NAME_HASH (AList.delete field h) (w_redis (ab e)))"
    using assms(1) by (simp add: redis_exec_def exec_hdel_def with_hash_def names_def)
  then show ?thesis by (rule redis_exact) (use assms(2) in \<open>auto simp: rop_hash_del_def new_count_def\<close>)
qed

lemma del_unshare_up:
  assumes "args_ok user md5 filename" and "counts_in 9 (t_user_file_count (w_tables (ab e)))"
    and "public (ab e) = Some z" and "names (ab e) = Some h"
    and "find (count_of share_user) (t_user_file_count (w_tables (ab e))) = Some sc"
    and "\<And>tmp e'. ab e' = end_share user md5 filename sc z h (ab e) \<Longrightarrow> Q (0, tmp, e')"
  shows "returns (del_unshare sv user md5 filename (md5 @ filename) True tmp e) Q"
  unfolding del_unshare_def using assms
  by (auto simp: ret_simps stmt_simps args_ok_def share_user_plain end_share_def unpublish_def
      intro!: run_sql_up sel_count_up zset_zrem_up [where z = z] hash_del_up [where h = h])

lemma del_file_public_up:
  assumes "bounded 0 (w_tables (ab e))" and "args_ok user md5 filename" and "port_of (redis_port g) \<noteq> None"
    and "public (ab e) = Some z" and "same_scores z" and "map_of z (md5 @ filename) \<noteq> None" and "names (ab e) = Some h"
    and "find (count_of share_user) (t_user_file_count (w_tables (ab e))) = Some sc" and "user \<noteq> share_user"
    and "find (count_of user) (t_user_file_count (w_tables (ab e))) = Some c" and "stored md5 (ab e) = Some f"
    and "\<And>e'. ab e' = deleted cfg user md5 filename f c (end_share user md5 filename sc z h (ab e)) \<Longrightarrow> Q (0, status_text ''013'', e')"
    and "\<And>e'. f_count f = 1 \<Longrightarrow> ab e' = deleted cfg user md5 filename f c (end_share user md5 filename sc z h (ab e)) \<Longrightarrow>
      Q (- 1, status_text ''014'', e')"
  shows "returns (del_file sv g user md5 filename e) Q"
proof -
  have md5: "list_all (plain sq) md5" "length md5 \<le> 250" "length md5 + length filename < 1024"
    using assms(2) by (auto simp: args_ok_def)
  have counts: "counts_in 9 (change (count_of share_user) (c_count_update (\<lambda>_. c_count sc - 1)) (t_user_file_count (w_tables (ab e))))"
    using assms(1,8) by (intro counts_in_change) (auto simp: bounded_def)
  have stored: "stored md5 (d \<lparr>w_redis := r, w_tables := w_tables d' \<lparr>t_share_file_list := ss, t_user_file_count := cs, t_user_file_list := rs\<rparr>\<rparr>)
      = stored md5 d'" for d d' cs rs ss r
    by (simp add: stored_def)
  have exit: "returns (del_shared sv user md5 filename (md5 @ filename) e') Q'"
    if "ab e' = ab e" "\<And>e''. ab e'' = ab e \<Longrightarrow> Q' (0, 1, True, [], e'')" for e' Q'
    unfolding del_shared_def using that assms(4,6) by (auto simp: ret_simps intro!: zset_exit_up [OF _ assms(5)])
  show ?thesis
    unfolding del_file_def del_file_body_def
    using assms(3,4,7-) md5 bounded_9 [OF assms(1)] counts stored
    by (auto simp: ret_simps deleted_def end_share_def find_count_change
        intro!: connectdb_up conn_up exit del_unshare_up [OF assms(2), where z = z and h = h and sc = sc]
        del_entry_up [OF assms(2)] del_stored_up [where f = f])
qed

end

section \<open>The outcome of the requests\<close>

lemma up_port: "disk_world_up sv ab cfg \<Longrightarrow> read_cfg sv e = Some g \<Longrightarrow> port_of (redis_port g) \<noteq> None"
  by (rule disk_world.read_cfg_port [OF disk_world_up.axioms(1)])

lemma disk0_redis: "public disk0 = Some []" "names disk0 = Some []" "same_scores []"
  by (simp_all add: public_def names_def disk0_def same_scores_def)

definition md5_outcome :: "string \<Rightarrow> string \<Rightarrow> string \<Rightarrow> disk \<Rightarrow> int \<Rightarrow> string \<Rightarrow> disk \<Rightarrow> bool" where
  "md5_outcome user md5 filename d ret out d' =
     (case stored md5 d of
        None \<Rightarrow> ret = - 3 \<and> out = status_text ''006'' \<and> d' = d
      | Some f \<Rightarrow>
          if has_entry user md5 filename d then ret = - 2 \<and> out = status_text ''004'' \<and> d' = d
          else ret = 0 \<and> out = status_text ''005''
            \<and> (\<exists>now. valid_tm now \<and> d' = d \<lparr>w_tables := add_user f (new_entry user md5 filename now) (w_tables d)\<rparr>))"

text \<open>
  C20: the answer to a request for an instant upload: 006 if the storage does not have the file, 004 if the
  user has it under this name already, both without any change; else 005, and the file has one more user, who
  has one more entry with the current time and one more file.
\<close>

theorem deal_md5_outcome:
  assumes "disk_world_up sv ab cfg" and "bounded 0 (w_tables (ab e))" and "args_ok user md5 filename"
  shows "returns (deal_md5 sv g user md5 filename e) (\<lambda>(ret, out, e'). md5_outcome user md5 filename (ab e) ret out (ab e'))"
  by (rule disk_world_up.deal_md5_up [OF assms]) (auto simp: md5_outcome_def)

theorem deal_md5_outcome_witness:
  "returns (deal_md5 ref_up globals0 ''bob'' ''0a'' ''a.txt'' (disk0 \<lparr>w_tables := tables1 2\<rparr>))
     (\<lambda>(ret, out, e'). md5_outcome ''bob'' ''0a'' ''a.txt'' (disk0 \<lparr>w_tables := tables1 2\<rparr>) ret out e')"
  using deal_md5_outcome [OF ref_up.disk_world_up_axioms, of "disk0 \<lparr>w_tables := tables1 2\<rparr>"] tables_examples op_ok_examples by simp

definition share_outcome :: "string \<Rightarrow> string \<Rightarrow> string \<Rightarrow> (string \<times> int) list \<Rightarrow> (string \<times> string) list \<Rightarrow> disk \<Rightarrow> int \<Rightarrow> string \<Rightarrow> disk \<Rightarrow> bool" where
  "share_outcome user md5 filename z h d ret out d' =
     (if map_of z (md5 @ filename) \<noteq> None then ret = - 2 \<and> out = status_text ''012'' \<and> d' = d
      else if is_shared md5 filename d
      then ret = - 2 \<and> out = status_text ''012'' \<and> d' = d \<lparr>w_redis := publish (md5 @ filename) z (w_redis d)\<rparr>
      else ret = 0 \<and> out = status_text ''010''
        \<and> (\<exists>now. valid_tm now \<and> d' = d \<lparr>w_tables := add_share user md5 filename now (w_tables d),
             w_redis := name_file (md5 @ filename) filename h (publish (md5 @ filename) z (w_redis d))\<rparr>))"



text \<open>
  C33: \<open>del_file\<close> does not look whether the user has the file. Any user with at least one file of their own can
  name the only user's file of somebody else: the file leaves the storage and \<open>file_info\<close>, while every entry
  that refers to it stays, and the count of the user who asked goes down by one.
\<close>

theorem del_file_of_another_user:
  assumes "disk_world_up sv ab cfg" and "read_cfg sv e0 = Some g" and "bounded 0 (w_tables (ab e))" and "args_ok user md5 filename"
    and "public (ab e) = Some z" and "same_scores z" and "map_of z (md5 @ filename) = None"
    and "\<not> has_entry user md5 filename (ab e)" and "find (count_of user) (t_user_file_count (w_tables (ab e))) = Some c"
    and "stored md5 (ab e) = Some f" and "f_count f = 1"
  shows "returns (del_file sv g user md5 filename e) (\<lambda>(ret, out, e').
      stored md5 (ab e') = None \<and> w_shell (ab e') = w_shell (ab e) @ [delete_cmd cfg (f_file_id f)]
      \<and> t_user_file_list (w_tables (ab e')) = t_user_file_list (w_tables (ab e))
      \<and> t_user_file_count (w_tables (ab e')) = drop_count user c (t_user_file_count (w_tables (ab e))))"
proof -
  have kept: "remove (entry_of user md5 filename) (t_user_file_list (w_tables (ab e))) = t_user_file_list (w_tables (ab e))"
    using assms(8) by (auto simp: has_entry_def remove_def filter_id_conv)
  have gone: "find (file_of md5) (remove (file_of md5) fs) = None" for fs
    by (auto simp: find_None_iff remove_def)
  have "not_shared user md5 filename (ab e)" using assms(8) by (auto simp: has_entry_def not_shared_def)
  then show ?thesis
    using assms(9,11) kept gone stored_md5 [OF assms(10)]
    by (intro disk_world_up.del_file_up [OF assms(1,3,4) up_port [OF assms(1,2)] assms(5-7) _ _ assms(10)])
      (auto simp: deleted_def stored_def drop_file_def)
qed


definition tables2 :: tables where
  "tables2 = tables1 1 \<lparr>t_user_file_count := [\<lparr>c_user = ''ann'', c_count = 1\<rparr>, \<lparr>c_user = ''bob'', c_count = 3\<rparr>]\<rparr>"

theorem del_file_of_another_user_witness:
  "returns (del_file ref_up globals0 ''bob'' ''0a'' ''a.txt'' (disk0 \<lparr>w_tables := tables2\<rparr>)) (\<lambda>(ret, out, e').
      stored ''0a'' e' = None \<and> w_shell e' = [delete_cmd cfg0 ''g1'']
      \<and> t_user_file_list (w_tables e') = t_user_file_list (tables1 1))"
proof -
  have ok: "bounded 0 tables2" "\<not> has_entry ''bob'' ''0a'' ''a.txt'' (disk0 \<lparr>w_tables := tables2\<rparr>)"
    "find (count_of ''bob'') (t_user_file_count tables2) = Some \<lparr>c_user = ''bob'', c_count = 3\<rparr>"
    "stored ''0a'' (disk0 \<lparr>w_tables := tables2\<rparr>) = Some (hd (t_file_info tables2))" "f_count (hd (t_file_info tables2)) = 1"
    "f_file_id (hd (t_file_info tables2)) = ''g1''" "w_shell disk0 = []" "t_user_file_list tables2 = t_user_file_list (tables1 1)"
    by (simp_all add: bounded_def in_defs in_limit_def tables2_def tables1_def has_entry_def entry_of_def count_of_def stored_def
        file_of_def disk0_def)
  show ?thesis
    by (rule returns_mono [OF del_file_of_another_user [OF ref_up.disk_world_up_axioms globals0_read(2), of "disk0 \<lparr>w_tables := tables2\<rparr>"
          "''bob''" "''0a''" "''a.txt''" "[]" "\<lparr>c_user = ''bob'', c_count = 3\<rparr>" "hd (t_file_info tables2)"]])
      (use ok op_ok_examples in \<open>auto simp: disk0_redis\<close>)
qed


definition disk3 :: disk where
  "disk3 = disk0 \<lparr>w_tables := tables1 2
       \<lparr>t_user_file_count := [\<lparr>c_user = ''ann'', c_count = 1\<rparr>, \<lparr>c_user = ''bob'', c_count = 1\<rparr>, \<lparr>c_user = share_user, c_count = 1\<rparr>],
        t_share_file_list := [\<lparr>s_user = ''ann'', s_md5 = ''0a'', s_createtime = [], s_filename = ''a.txt'', s_pv = 0\<rparr>]\<rparr>,
     w_redis := [FILE_PUBLIC_ZSET \<mapsto> R_Zset [(''0aa.txt'', 0)], FILE_NAME_HASH \<mapsto> R_Hash [(''0aa.txt'', ''a.txt'')]]\<rparr>"

lemma disk3_ok:
  "bounded 0 (w_tables disk3)" "public disk3 = Some [(''0aa.txt'', 0)]" "names disk3 = Some [(''0aa.txt'', ''a.txt'')]"
  "same_scores [(''0aa.txt'', 0)]" "find (count_of share_user) (t_user_file_count (w_tables disk3)) = Some \<lparr>c_user = share_user, c_count = 1\<rparr>"
  "find (count_of ''bob'') (t_user_file_count (w_tables disk3)) = Some \<lparr>c_user = ''bob'', c_count = 1\<rparr>"
  "stored ''0a'' disk3 = Some (hd (t_file_info (w_tables disk3)))" "''bob'' \<noteq> share_user"
  "find (share_of ''0a'' ''a.txt'') (t_share_file_list (w_tables disk3)) = Some (hd (t_share_file_list (w_tables disk3)))"
  "\<forall>r \<in> set (t_share_file_list (w_tables disk3)). s_user r \<noteq> ''bob''" "args_ok [] ''0a'' ''a.txt''" "args_ok ''bob'' ''0a'' ''a.txt''"
  by (simp_all add: disk3_def bounded_def in_defs in_limit_def tables1_def public_def names_def same_scores_def share_user_def count_of_def
      stored_def file_of_def share_of_def args_ok_def plain_def sq_def)





end
