(* ===== verification/Disk_Session.thy ===== *)
theory Disk_Session
  imports Disk_Effects Cgi_Login Cgi_Register
begin

text \<open>
  Users: registration, the password check and the token that a login hands out, with servers that are up.
\<close>

section \<open>The token\<close>

text \<open>The token of a user and four random numbers: DES, Base64, MD5, hexadecimal.\<close>

definition token_of :: "string \<Rightarrow> nat list \<Rightarrow> string" where
  "token_of user rand_num =
     concat (map hex2 (md5_reference (map byte_of_char
       (base64_encode (des_seal (map byte_of_char (user @ concat (map show_nat rand_num))))))))"

text \<open>
  Enciphering and Base64 together lose nothing: the texts that are hashed for two logins are equal only if the
  user names followed by the random numbers are.
\<close>

interpretation sealed: codec_chain des_seal des_open base64_encode base64_decode ..

lemma hashed_text_eq:
  "base64_encode (des_seal (map byte_of_char s)) = base64_encode (des_seal (map byte_of_char s')) \<longleftrightarrow> s = s'"
  using sealed.chain.encode_eq_iff [of "map byte_of_char s" "map byte_of_char s'"] inj_map_eq_map [of byte_of_char s s'] by (simp add: inj_def)

lemma length_hex: "length (concat (map hex2 bs)) = 2 * length bs"
  by (induction bs) (auto simp: hex2_def)

lemma length_token: "length (token_of user rs) = 32"
  by (simp add: token_of_def length_hex)

lemma hex_digit_char: "d < 16 \<Longrightarrow> 47 < ord (hex_digit d) \<and> ord (hex_digit d) < 103 \<and> hex_digit d \<noteq> backslash"
  using ord_hex_digit [of d] by (auto simp: backslash_def split: if_splits)

lemma token_chars: "c \<in> set (token_of user rs) \<Longrightarrow> 47 < ord c \<and> ord c < 103 \<and> c \<noteq> backslash"
proof -
  have "unat b div 16 < 16" "unat b mod 16 < 16" for b :: byte
    using unat_byte_less [of b] by (simp_all add: less_mult_imp_div_less)
  then show "c \<in> set (token_of user rs) \<Longrightarrow> ?thesis" using hex_digit_char by (auto simp: token_of_def hex2_def)
qed

lemma token_no_nul: "CHR 0x00 \<notin> set (token_of user rs)"
  using token_chars [of "CHR 0x00" user rs] by auto

lemma make_token_eq:
  assumes "length (ctx_buffer ctx) = 64" and "length user < 512" and "length rs = 4" and "\<And>r. r \<in> set rs \<Longrightarrow> r < 1000"
  shows "make_token TYPE(32) ctx user rs = Some (Some (token_of user rs))"
proof -
  have "length (show_nat r) \<le> 3" if "r \<in> set rs" for r
    using show_nat_length [of r 3] assms(4) [OF that] by simp
  then have "length (concat (map show_nat rs)) \<le> 3 * length rs"
    by (induction rs) (auto simp: add_mono)
  then have len: "length (user @ concat (map show_nat rs)) < 524" using assms(2,3) by simp
  let ?enc = "des_seal (map byte_of_char (user @ concat (map show_nat rs)))"
  have enc: "length ?enc \<le> 528" using len unfolding length_des_seal length_map by simp
  then have b64: "length (base64_encode ?enc) < 3072" unfolding length_base64_encode by simp
  have "md5_rep (MD5Update (MD5Init ctx) (map byte_of_char (base64_encode ?enc))) ([] @ map byte_of_char (base64_encode ?enc))"
    by (rule md5_rep_Update [OF md5_rep_Init [OF assms(1)]]) (use b64 in simp)
  then have "fst (MD5Final (MD5Update (MD5Init ctx) (map byte_of_char (base64_encode ?enc))))
      = md5_reference (map byte_of_char (base64_encode ?enc))"
    using MD5Final_correct by fastforce
  then show ?thesis
    using len enc b64 by (simp add: make_token_def store_def DesEnc_seal token_of_def Let_def)
qed


context disk_world
begin

lemma rand_nums_up:
  "rand_nums sv n e = (rs, e') \<Longrightarrow> length rs = n \<and> (\<forall>r \<in> set rs. r < 1000) \<and> ab e' = ab e"
proof (induction n arbitrary: e rs e')
  case (Suc n)
  obtain r e1 where r: "c_rand sv e = (r, e1)" by fastforce
  obtain rs' e2 where rs': "rand_nums sv n e1 = (rs', e2)" by fastforce
  have "ab e1 = ab e" using rand_law [of e] r by simp
  with Suc.IH [OF rs'] Suc.prems r rs' show ?case by auto
qed simp

lemma get_mysql_info_up: "\<exists>u p d. get_mysql_info sv e = Some (0, u, p, d)"
proof -
  obtain content where "read_file sv CFG_PATH e = Some content" "cJSON_Parse (c_str content) = Ok cfg" using cfg_law by blast
  moreover have "cfg_entry cfg ''mysql'' ''user'' 256" "cfg_entry cfg ''mysql'' ''password'' 256" "cfg_entry cfg ''mysql'' ''database'' 256"
    using cfg_valid by (auto simp: cfg_ok_def cfg_entry_def split: option.splits)
  ultimately show ?thesis by (simp add: get_mysql_info_def cfg_value_read)
qed

end

context disk_world_up
begin

lemma verify_token_up:
  assumes "w_redis (ab e) user = Some (R_String tok)" and "length tok < 128" and "CHR 0x00 \<notin> set tok"
    and "\<And>e'. ab e' = ab e \<Longrightarrow> Q (if token = tok then 0 else - 1, e')"
  shows "returns (verify_token sv user token e) Q"
proof -
  have get: "returns (rop_get_string sv user 128 [] e') Q'" if "ab e' = ab e" "\<And>e''. ab e'' = ab e \<Longrightarrow> Q' (0, tok, e'')" for e' Q'
  proof -
    have "redis_exec [''get'', user] (w_redis (ab e')) = Some (REPLY_STRING tok, w_redis (ab e'))"
      using assms(1) that(1) by (simp add: redis_exec_def exec_get_def)
    then show ?thesis
      by (rule redis_exact) (use assms(2,3) that in \<open>auto simp: rop_get_string_def store_def\<close>)
  qed
  show ?thesis
    unfolding verify_token_def using assms(4)
    by (auto simp: ret_simps cfg_values intro!: connectdb_up [OF cfg_port] get)
qed

lemma set_token_up:
  assumes "length (ctx_buffer ctx) = 64" and "length user < 512"
    and "\<And>rs e'. length rs = 4 \<Longrightarrow> \<forall>r \<in> set rs. r < 1000 \<Longrightarrow>
      ab e' = ab e \<lparr>w_redis := (w_redis (ab e)) (user \<mapsto> R_String (token_of user rs))\<rparr> \<Longrightarrow> Q (0, token_of user rs, e')"
  shows "returns (set_token TYPE(32) ctx sv user [] e) Q"
proof -
  have setex: "returns (rop_setex_string sv user 86400 v e') Q'"
    if "\<And>e''. ab e'' = ab e' \<lparr>w_redis := (w_redis (ab e')) (user \<mapsto> R_String v)\<rparr> \<Longrightarrow> Q' (0, e'')" for v e' Q'
  proof -
    have "redis_exec [''setex'', user, show_nat (unat (86400 :: u32)), v] (w_redis (ab e'))
        = Some (REPLY_STATUS ''OK'', (w_redis (ab e')) (user \<mapsto> R_String v))"
      by (simp add: redis_exec_def exec_setex_def)
    then show ?thesis by (rule redis_exact) (use that in \<open>auto simp: rop_setex_string_def reply_ok_def\<close>)
  qed
  have rand: "returns (case rand_nums sv 4 e' of (rs, e'') \<Rightarrow> f rs e'') Q'"
    if "\<And>rs e''. length rs = 4 \<Longrightarrow> \<forall>r \<in> set rs. r < 1000 \<Longrightarrow> ab e'' = ab e' \<Longrightarrow> returns (f rs e'') Q'" for e' f Q'
    by (rule returns_pair) (use rand_nums_up that in blast)
  show ?thesis
    unfolding set_token_def using assms
    by (auto simp: ret_simps cfg_values make_token_eq length_token srand_law intro!: connectdb_up [OF cfg_port] rand setex)
qed

end

text \<open>
  C8: with a four-byte \<open>unsigned long\<close>, a login stores a token of 32 characters for the user, the hexadecimal MD5 sum of the
  Base64 text of the enciphered user name and random numbers; as long as the token of the user in Redis stays (in every
  later state with the same entry), \<open>verify_token\<close> accepts this token for the user and no other, and does not change
  anything.
\<close>

theorem login_token:
  assumes "disk_world_up sv ab cfg" and "length (ctx_buffer ctx) = 64" and "length user < 512"
  shows "returns (set_token TYPE(32) ctx sv user [] e) (\<lambda>(ret, token, e').
      ret = 0 \<and> length token = 32 \<and> (\<exists>rs. length rs = 4 \<and> (\<forall>r \<in> set rs. r < 1000) \<and> token = token_of user rs)
      \<and> (\<forall>e2 tok. w_redis (ab e2) user = w_redis (ab e') user \<longrightarrow>
          returns (verify_token sv user tok e2) (\<lambda>(ret, e3). ret = (if tok = token then 0 else - 1) \<and> ab e3 = ab e2)))"
proof (rule disk_world_up.set_token_up [OF assms])
  fix rs e'
  assume rs: "length rs = 4" "\<forall>r \<in> set rs. r < 1000"
    and e': "ab e' = ab e \<lparr>w_redis := (w_redis (ab e)) (user \<mapsto> R_String (token_of user rs))\<rparr>"
  have "returns (verify_token sv user tok e2) (\<lambda>(ret, e3). ret = (if tok = token_of user rs then 0 else - 1) \<and> ab e3 = ab e2)"
    if "w_redis (ab e2) user = w_redis (ab e') user" for e2 tok
    using that by (intro disk_world_up.verify_token_up [OF assms(1), where tok = "token_of user rs"]) (auto simp: e' length_token token_no_nul)
  then show "case (0, token_of user rs, e') of (ret, token, e') \<Rightarrow>
      ret = 0 \<and> length token = 32 \<and> (\<exists>rs. length rs = 4 \<and> (\<forall>r \<in> set rs. r < 1000) \<and> token = token_of user rs)
      \<and> (\<forall>e2 tok. w_redis (ab e2) user = w_redis (ab e') user \<longrightarrow>
          returns (verify_token sv user tok e2) (\<lambda>(ret, e3). ret = (if tok = token then 0 else - 1) \<and> ab e3 = ab e2))"
    using rs by (auto simp: length_token)
qed

theorem login_token_witness:
  "\<exists>token e'. set_token TYPE(32) md5_ctx0 ref_up ''ann'' [] disk0 = Some (0, token, e')
      \<and> returns (verify_token ref_up ''ann'' token e') (\<lambda>(ret, e''). ret = 0)
      \<and> returns (verify_token ref_up ''ann'' [] e') (\<lambda>(ret, e''). ret = - 1)"
proof -
  have ctx: "length (ctx_buffer md5_ctx0) = 64" by (simp add: md5_ctx0_def)
  obtain ret token e' where run: "set_token TYPE(32) md5_ctx0 ref_up ''ann'' [] disk0 = Some (ret, token, e')"
    and ret: "ret = 0" "length token = 32"
    and later: "\<And>e2 tok. w_redis (id e2) ''ann'' = w_redis (id e') ''ann'' \<Longrightarrow>
      returns (verify_token ref_up ''ann'' tok e2) (\<lambda>(ret, e3). ret = (if tok = token then 0 else - 1) \<and> id e3 = id e2)"
    using login_token [OF ref_up.disk_world_up_axioms ctx, of "''ann''" disk0] unfolding returns_iff [of "set_token TYPE(32) md5_ctx0 ref_up ''ann'' [] disk0"] by auto
  note verify = later [OF refl]
  have "returns (verify_token ref_up ''ann'' token e') (\<lambda>(ret, e''). ret = 0)"
    by (rule returns_mono [OF verify [of token]]) auto
  moreover have "returns (verify_token ref_up ''ann'' [] e') (\<lambda>(ret, e''). ret = - 1)"
    by (rule returns_mono [OF verify [of "[]"]]) (use ret(2) in auto)
  ultimately show ?thesis using run ret(1) by blast
qed

section \<open>The password\<close>

definition passwords_in :: "tables \<Rightarrow> bool" where
  "passwords_in t \<longleftrightarrow> (\<forall>u \<in> set (t_user t). length (u_password u) < PWD_LEN)"

context disk_world_up
begin

lemma check_user_pwd_up:
  assumes "list_all (plain dq) user" and "length user \<le> 300" and "passwords_in (w_tables (ab e))"
    and "\<And>e'. ab e' = ab e \<Longrightarrow>
      Q (if pwd \<noteq> [] \<and> map_option u_password (find (\<lambda>u. u_name u = user) (t_user (w_tables (ab e)))) = Some pwd then 0 else - 1, e')"
  shows "returns (check_user_pwd sv user pwd e) Q"
proof -
  obtain u p d where info: "get_mysql_info sv e = Some (0, u, p, d)" using get_mysql_info_up by blast
  have sel: "returns (select_one sv Sel_Password [S user] (Some (PWD_LEN, [])) e') Q'"
    if "ab e' = ab e" "\<And>e''. ab e'' = ab e \<Longrightarrow> find (\<lambda>u. u_name u = user) (t_user (w_tables (ab e))) = None \<Longrightarrow> Q' (1, [], e'')"
      "\<And>e'' u. ab e'' = ab e \<Longrightarrow> find (\<lambda>u. u_name u = user) (t_user (w_tables (ab e))) = Some u \<Longrightarrow> Q' (0, u_password u, e'')" for e' Q'
    by (rule select_text_up [where P = "\<lambda>u. u_name u = user" and g = u_password and rs = "t_user (w_tables (ab e))"])
      (use assms(1-3) that in \<open>auto simp: short_args_def piece_defs passwords_in_def\<close>)
  show ?thesis
    unfolding check_user_pwd_def info using assms(4)
    by (auto simp: ret_simps close_law intro!: conn_up sel)
qed

end

text \<open>
  C14: \<open>check_user_pwd\<close> accepts exactly the password stored for the user and never an empty one, and changes
  nothing.
\<close>

theorem check_user_pwd_exact:
  assumes "disk_world_up sv ab cfg" and "list_all (plain dq) user" and "length user \<le> 300" and "passwords_in (w_tables (ab e))"
  shows "returns (check_user_pwd sv user pwd e) (\<lambda>(ret, e'). ab e' = ab e \<and> ret \<in> {0, - 1}
      \<and> (ret = 0 \<longleftrightarrow> pwd \<noteq> [] \<and> map_option u_password (find (\<lambda>u. u_name u = user) (t_user (w_tables (ab e)))) = Some pwd))"
  by (rule disk_world_up.check_user_pwd_up [OF assms]) auto

definition disk4 :: disk where
  "disk4 = disk0 \<lparr>w_tables := (w_tables disk0) \<lparr>t_user :=
     [\<lparr>u_name = ''ann'', u_nickname = ''Ann'', u_password = ''secret'', u_phone = ''1'', u_createtime = [], u_email = ''a@b''\<rparr>]\<rparr>\<rparr>"

theorem check_user_pwd_exact_witness:
  "returns (check_user_pwd ref_up ''ann'' ''secret'' disk4) (\<lambda>(ret, e'). ret = 0)
   \<and> returns (check_user_pwd ref_up ''ann'' ''Secret'' disk4) (\<lambda>(ret, e'). ret = - 1)"
proof -
  have user: "list_all (plain dq) ''ann''" "length ''ann'' \<le> 300" "passwords_in (w_tables (id disk4))"
    by (simp_all add: plain_def dq_def passwords_in_def disk4_def PWD_LEN_def)
  note exact = check_user_pwd_exact [OF ref_up.disk_world_up_axioms user]
  have "find (\<lambda>u. u_name u = ''ann'') (t_user (w_tables (id disk4))) = Some (hd (t_user (w_tables disk4)))"
    "u_password (hd (t_user (w_tables disk4))) = ''secret''"
    by (simp_all add: disk4_def)
  then show ?thesis
    by (auto intro!: returns_mono [OF exact [of "''secret''"]] returns_mono [OF exact [of "''Secret''"]])
qed

end
