(* ===== verification/Disk_Account.thy ===== *)
theory Disk_Account
  imports Disk_Session CJson_Safe
begin

text \<open>
  Whole requests of the programs \<open>register\<close> and \<open>login\<close>: the JSON text of a form is read by the FastCGI loop, taken
  apart by cJSON, and acted upon in the tables and in Redis.
\<close>

section \<open>Forms\<close>

text \<open>An object with string members (the fields of a form), and the request that posts a text.\<close>

definition form :: "(string \<times> string) list \<Rightarrow> cJSON" where
  "form fs = cJSON_Object (map (\<lambda>(k, v). (k, cJSON_String v)) fs)"

definition post :: "string \<Rightarrow> request" where
  "post body = \<lparr>content_length = Some (show_int (int (length body))), query_string = None, stdin = body\<rparr>"

definition form_text :: "(string \<times> string) list \<Rightarrow> string" where
  "form_text fs = json_text False 0 (form fs)"

lemma escape_no_nul: "CHR 0x00 \<notin> set (escape s)"
proof (induction s)
  case (Cons c s)
  have "hex_digit d \<noteq> CHR 0x00" if "d < 16" for d using hex_digit_char [OF that] by auto
  then have "CHR 0x00 \<notin> set (escape_char c)"
    by (auto simp: escape_char_def u04x_def backslash_def quote_char_def eq_commute [of "CHR 0x00"])
  with Cons show ?case by (simp add: escape_def)
qed (simp add: escape_def)

lemma form_text_no_nul: "CHR 0x00 \<notin> set (form_text fs)"
proof -
  have "CHR 0x00 \<notin> set (json_members False d (map (\<lambda>(k, v). (k, cJSON_String v)) fs))" for d
    by (induction fs) (auto simp: escape_no_nul quote_char_def split: if_splits)
  then show ?thesis by (simp add: form_text_def form_def)
qed

lemma fcgi_input_post:
  assumes "body \<noteq> []" and "length body < 4096" and "CHR 0x00 \<notin> set body"
  shows "fcgi_input (post body) = Some (Body body)"
  using assms by (simp add: fcgi_input_def post_def c_atoi_show_int in_int_def)

lemma fcgi_input_form: "length (form_text fs) < 4096 \<Longrightarrow> fcgi_input (post (form_text fs)) = Some (Body (form_text fs))"
  by (intro fcgi_input_post form_text_no_nul) (simp_all add: form_text_def form_def)

definition no_nuls :: "(string \<times> string) list \<Rightarrow> bool" where
  "no_nuls fs \<longleftrightarrow> (\<forall>(k, v) \<in> set fs. CHR 0x00 \<notin> set k \<and> CHR 0x00 \<notin> set v)"

lemma cJSON_Parse_form: "no_nuls fs \<Longrightarrow> cJSON_Parse (form_text fs) = Ok (form fs)"
proof -
  assume "no_nuls fs"
  moreover have "nesting (form fs) \<le> CJSON_NESTING_LIMIT"
    by (auto simp: form_def CJSON_NESTING_LIMIT_def fold_max_le)
  ultimately show ?thesis unfolding form_text_def
    by (intro cJSON_Parse_text) (auto simp: form_def no_nuls_def list_all_iff)
qed

text \<open>Names of fields that differ in more than upper and lower case.\<close>

definition names_apart :: "(string \<times> string) list \<Rightarrow> bool" where
  "names_apart fs \<longleftrightarrow> distinct (map (\<lambda>(k, v). map c_tolower k) fs)"

lemma find_field:
  "names_apart fs \<Longrightarrow> (k, v) \<in> set fs \<Longrightarrow>
     find (\<lambda>(k', v). same_name False k k') (map (\<lambda>(k, v). (k, cJSON_String v)) fs) = Some (k, cJSON_String v)"
  by (induction fs) (force simp: names_apart_def same_name_def)+

lemma copy_field_form:
  assumes "no_nuls fs" and "names_apart fs" and "(name, v) \<in> set fs" and "length v < n"
  shows "copy_field (form fs) name n = Some (Some v)"
proof -
  have "CHR 0x00 \<notin> set name" "CHR 0x00 \<notin> set v" "\<forall>(k, x) \<in> set (map (\<lambda>(k, v). (k, cJSON_String v)) fs). CHR 0x00 \<notin> set k"
    using assms(1,3) by (auto simp: no_nuls_def)
  then show ?thesis
    using find_field [OF assms(2,3)] assms(4)
    by (simp add: copy_field_def cJSON_GetObjectItem_def get_object_item_def form_def get_object_loop_find store_def del: map_map)
qed

section \<open>Registration\<close>

definition reg_form :: "string \<Rightarrow> string \<Rightarrow> string \<Rightarrow> string \<Rightarrow> string \<Rightarrow> (string \<times> string) list" where
  "reg_form user nick pwd tel email =
     [(''userName'', user), (''nickName'', nick), (''firstPwd'', pwd), (''phone'', tel), (''email'', email)]"

definition login_form :: "string \<Rightarrow> string \<Rightarrow> (string \<times> string) list" where
  "login_form user pwd = [(''user'', user), (''pwd'', pwd)]"

text \<open>A text that neither ends a C string nor an SQL literal.\<close>

definition clean :: "string \<Rightarrow> bool" where
  "clean s \<longleftrightarrow> list_all (\<lambda>c. c \<noteq> CHR 0x00 \<and> plain sq c \<and> plain dq c) s"

lemma cleanD: "clean s \<Longrightarrow> CHR 0x00 \<notin> set s \<and> list_all (plain sq) s \<and> list_all (plain dq) s"
  by (auto simp: clean_def list_all_iff)

lemma names_apart_forms: "names_apart (reg_form user nick pwd tel email)" "names_apart (login_form user pwd)"
  by (simp_all add: names_apart_def reg_form_def login_form_def c_tolower_def)

lemma get_reg_info_form:
  assumes "list_all (\<lambda>s. clean s \<and> length s < 128) [user, nick, pwd, tel, email]"
  shows "get_reg_info (form_text (reg_form user nick pwd tel email)) arrays = Some (0, [user, nick, pwd, tel, email])"
proof -
  let ?fs = "reg_form user nick pwd tel email"
  have "no_nuls ?fs" using assms by (simp add: no_nuls_def reg_form_def cleanD)
  then show ?thesis
    using assms copy_field_form [OF _ names_apart_forms(1), of user nick pwd tel email]
    by (simp add: get_reg_info_def request_fields_def cJSON_Parse_form) (simp add: reg_form_def)
qed

lemma get_login_info_form:
  assumes "list_all (\<lambda>s. clean s \<and> length s < 512) [user, pwd]"
  shows "get_login_info (form_text (login_form user pwd)) u p = Some (0, [user, pwd])"
proof -
  let ?fs = "login_form user pwd"
  have "no_nuls ?fs" using assms by (simp add: no_nuls_def login_form_def cleanD)
  then show ?thesis
    using assms copy_field_form [OF _ names_apart_forms(2), of user pwd]
    by (simp add: get_login_info_def request_fields_def cJSON_Parse_form) (simp add: login_form_def)
qed

text \<open>The row of a new user.\<close>

definition new_user :: "string \<Rightarrow> string \<Rightarrow> string \<Rightarrow> string \<Rightarrow> string \<Rightarrow> string \<Rightarrow> user_row" where
  "new_user user nick pwd tel time email =
     \<lparr>u_name = user, u_nickname = nick, u_password = pwd, u_phone = tel, u_createtime = time, u_email = email\<rparr>"

definition name_taken :: "string \<Rightarrow> disk \<Rightarrow> bool" where
  "name_taken user d \<longleftrightarrow> user \<in> u_name ` set (t_user (w_tables d))"

definition enter_user :: "user_row \<Rightarrow> disk \<Rightarrow> disk" where
  "enter_user u d = d \<lparr>w_tables := w_tables d \<lparr>t_user := t_user (w_tables d) @ [u]\<rparr>\<rparr>"

context disk_world_up
begin

lemma sel_user_up:
  assumes "list_all (plain sq) user" and "length user \<le> 300"
    and "\<And>e'. ab e' = ab e \<Longrightarrow> \<not> name_taken user (ab e) \<Longrightarrow> Q (1, [], e')"
    and "\<And>e'. ab e' = ab e \<Longrightarrow> name_taken user (ab e) \<Longrightarrow> Q (2, [], e')"
  shows "returns (select_one sv Sel_User [S user] None e) Q"
  by (rule select_any_up [where P = "\<lambda>u. u_name u = user" and cols = user_cols and rs = "t_user (w_tables (ab e))"])
    (use assms in \<open>auto simp: short_args_def piece_defs name_taken_def image_iff\<close>)

lemma register_user_up:
  assumes "list_all (list_all (plain sq)) [user, nick, pwd, tel, email]"
    and "length user + length nick + length pwd + length tel + length email \<le> 281"
    and "\<And>e'. ab e' = ab e \<Longrightarrow> name_taken user (ab e) \<Longrightarrow> Q (- 2, e')"
    and "\<And>e' t. valid_tm t \<Longrightarrow> ab e' = enter_user (new_user user nick pwd tel (time_text t) email) (ab e) \<Longrightarrow>
      \<not> name_taken user (ab e) \<Longrightarrow> Q (0, e')"
  shows "returns (register_user sv user nick pwd tel email e) Q"
  unfolding register_user_def using assms
  by (auto simp: ret_simps stmt_simps enter_user_def new_user_def intro!: sel_user_up clock_wp run_sql_up)

lemma user_register_up:
  assumes "list_all (\<lambda>s. clean s \<and> length s < 128) [user, nick, pwd, tel, email]"
    and "length user + length nick + length pwd + length tel + length email \<le> 281"
    and "\<And>e'. ab e' = ab e \<Longrightarrow> name_taken user (ab e) \<Longrightarrow> Q (- 2, e')"
    and "\<And>e' t. valid_tm t \<Longrightarrow> ab e' = enter_user (new_user user nick pwd tel (time_text t) email) (ab e) \<Longrightarrow>
      \<not> name_taken user (ab e) \<Longrightarrow> Q (0, e')"
  shows "returns (user_register sv (form_text (reg_form user nick pwd tel email)) e) Q"
proof -
  obtain u p d where info: "get_mysql_info sv e = Some (0, u, p, d)" using get_mysql_info_up by blast
  show ?thesis
    unfolding user_register_def info get_reg_info_form [OF assms(1)] using assms
    by (auto simp: ret_simps close_law cleanD intro!: conn_up register_user_up)
qed

end

section \<open>The answer of a login\<close>

definition login_text :: "string \<Rightarrow> string \<Rightarrow> string" where
  "login_text code token = json_text True 0 (form [(''code'', code), (''token'', token)])"

lemma return_login_status_text:
  assumes "\<forall>c \<in> set code \<union> set token. ord c > 31 \<and> c \<noteq> quote_char \<and> c \<noteq> backslash \<and> c \<noteq> CHR ''%''"
    and "length code + length token \<le> 1000"
  shows "return_login_status code token = Some (login_text code token)"
proof -
  have esc: "escape s = s" if "set s \<subseteq> set code \<union> set token" for s
    using that assms(1) by (induction s) (auto simp: escape_def escape_char_def)
  have names: "escape ''token'' = ''token''" by (simp add: escape_def escape_char_def quote_char_def backslash_def)
  have "ord c > 31 \<and> c \<noteq> CHR ''%''" if "c \<in> set code \<union> set token" for c using assms(1) that by blast
  from this [of "CHR 0x00"] this [of "CHR ''%''"]
  have nul: "CHR 0x00 \<notin> set code" "CHR 0x00 \<notin> set token" "CHR ''%'' \<notin> set code" "CHR ''%'' \<notin> set token" by auto
  have "canonical (form [(''code'', code), (''token'', token)])" using nul by (simp add: form_def)
  moreover have "length (json_text True 0 (form [(''code'', code), (''token'', token)])) + 2 \<le> INT_MAX"
    using assms(2) by (simp add: form_def esc escape_code names INT_MAX_def)
  moreover have "CHR ''%'' \<notin> set (json_text True 0 (form [(''code'', code), (''token'', token)]))"
    using nul by (simp add: form_def esc escape_code names quote_char_def)
  ultimately have "print_answer (form [(''code'', code), (''token'', token)]) = Some (login_text code token)"
    unfolding login_text_def by (rule print_answer_Object)
  then show ?thesis
    by (simp add: return_login_status_def add_string_def cJSON_AddStringToObject_def cJSON_CreateString_def cJSON_CreateObject_def form_def)
qed

lemma login_answers:
  "return_login_status ''000'' (token_of user rs) = Some (login_text ''000'' (token_of user rs))"
  "return_login_status ''001'' ''fail'' = Some (login_text ''001'' ''fail'')"
proof -
  show "return_login_status ''000'' (token_of user rs) = Some (login_text ''000'' (token_of user rs))"
    by (rule return_login_status_text) (auto simp: length_token quote_char_def backslash_def dest!: token_chars)
  show "return_login_status ''001'' ''fail'' = Some (login_text ''001'' ''fail'')"
    by (rule return_login_status_text) (auto simp: quote_char_def backslash_def)
qed

definition password_of :: "string \<Rightarrow> disk \<Rightarrow> string option" where
  "password_of user d = map_option u_password (find (\<lambda>u. u_name u = user) (t_user (w_tables d)))"

lemma password_of_new:
  assumes "\<not> name_taken user d"
  shows "password_of user (enter_user (new_user user nick pwd tel time email) d) = Some pwd"
proof -
  have "find (\<lambda>u. u_name u = user) (t_user (w_tables d)) = None"
    using assms by (auto simp: find_None_iff name_taken_def)
  then have "find (\<lambda>u. u_name u = user) (t_user (w_tables d) @ us) = find (\<lambda>u. u_name u = user) us" for us
    by (induction "t_user (w_tables d)") (auto simp: find_filter filter_empty_conv split: list.splits)
  then show ?thesis by (simp add: password_of_def enter_user_def new_user_def)
qed

lemma passwords_in_new:
  "passwords_in (w_tables d) \<Longrightarrow> length pwd < 128 \<Longrightarrow> passwords_in (w_tables (enter_user (new_user user nick pwd tel time email) d))"
  by (auto simp: passwords_in_def enter_user_def new_user_def PWD_LEN_def)

context disk_world_up
begin

lemma login_request_up:
  assumes "list_all (\<lambda>s. clean s \<and> length s < 512) [user, pwd]" and "length user \<le> 300"
    and "length (form_text (login_form user pwd)) < 4096" and "length (ctx_buffer ctx) = 64" and "passwords_in (w_tables (ab e))"
    and "\<And>e' rs. pwd \<noteq> [] \<Longrightarrow> password_of user (ab e) = Some pwd \<Longrightarrow> length rs = 4 \<Longrightarrow>
      ab e' = ab e \<lparr>w_redis := (w_redis (ab e)) (user \<mapsto> R_String (token_of user rs))\<rparr> \<Longrightarrow>
      Q (http_header @ login_text ''000'' (token_of user rs), e')"
    and "\<And>e'. pwd = [] \<or> password_of user (ab e) \<noteq> Some pwd \<Longrightarrow> ab e' = ab e \<Longrightarrow>
      Q (http_header @ login_text ''001'' ''fail'', e')"
  shows "returns (login_request TYPE(32) ctx sv (post (form_text (login_form user pwd))) e) Q"
  unfolding login_request_def fcgi_input_form [OF assms(3)] 
  using assms(1,2,4-7) get_login_info_form [OF assms(1)]
  by (auto simp: ret_simps cleanD login_answers password_of_def intro!: check_user_pwd_up set_token_up)

lemma register_request_up:
  assumes "list_all (\<lambda>s. clean s \<and> length s < 128) [user, nick, pwd, tel, email]"
    and "length user + length nick + length pwd + length tel + length email \<le> 281"
    and "length (form_text (reg_form user nick pwd tel email)) < 4096"
    and "\<And>e'. ab e' = ab e \<Longrightarrow> name_taken user (ab e) \<Longrightarrow> Q (http_header @ status_text ''003'', e')"
    and "\<And>e' t. valid_tm t \<Longrightarrow> ab e' = enter_user (new_user user nick pwd tel (time_text t) email) (ab e) \<Longrightarrow>
      \<not> name_taken user (ab e) \<Longrightarrow> Q (http_header @ status_text ''002'', e')"
  shows "returns (register_request sv (post (form_text (reg_form user nick pwd tel email))) e) Q"
  unfolding register_request_def fcgi_input_form [OF assms(3)] using assms(1,2,4,5)
  by (auto simp: ret_simps intro!: user_register_up)

lemma login_accepted:
  assumes "clean user" and "clean pwd" and "length user < 128" and "length pwd < 128" and "length (form_text (login_form user pwd)) < 4096"
    and "length (ctx_buffer ctx) = 64" and "passwords_in (w_tables (ab e))" and "password_of user (ab e) = Some pwd" and "pwd \<noteq> []"
  shows "returns (login_request TYPE(32) ctx sv (post (form_text (login_form user pwd))) e) (\<lambda>(out, e2).
      \<exists>rs. out = http_header @ login_text ''000'' (token_of user rs)
        \<and> (\<forall>e3. w_redis (ab e3) user = w_redis (ab e2) user \<longrightarrow> returns (verify_token sv user (token_of user rs) e3) (\<lambda>(ret, e4). ret = 0)))"
proof (rule login_request_up [OF _ _ assms(5,6,7)])
  fix e2 rs
  assume e2: "ab e2 = ab e \<lparr>w_redis := (w_redis (ab e)) (user \<mapsto> R_String (token_of user rs))\<rparr>"
  have "returns (verify_token sv user (token_of user rs) e3) (\<lambda>(ret, e4). ret = 0)" if "w_redis (ab e3) user = w_redis (ab e2) user" for e3
    using that e2 by (intro verify_token_up) (simp_all add: length_token token_no_nul)
  then show "case (http_header @ login_text ''000'' (token_of user rs), e2) of (out, e2) \<Rightarrow>
      \<exists>rs. out = http_header @ login_text ''000'' (token_of user rs)
        \<and> (\<forall>e3. w_redis (ab e3) user = w_redis (ab e2) user \<longrightarrow> returns (verify_token sv user (token_of user rs) e3) (\<lambda>(ret, e4). ret = 0))" by auto
qed (use assms in auto)

lemma login_refused:
  assumes "clean user" and "clean pwd'" and "length user < 128" and "length pwd' < 512" and "length (form_text (login_form user pwd')) < 4096"
    and "length (ctx_buffer ctx) = 64" and "passwords_in (w_tables (ab e))" and "password_of user (ab e) \<noteq> Some pwd'"
  shows "returns (login_request TYPE(32) ctx sv (post (form_text (login_form user pwd'))) e) (\<lambda>(out, e2).
      out = http_header @ login_text ''001'' ''fail'' \<and> ab e2 = ab e)"
  by (rule login_request_up [OF _ _ assms(5,6,7)]) (use assms in auto)

end



section \<open>The buffer of a statement\<close>

text \<open>A decimal has at least \<open>Suc k\<close> digits from \<open>10 ^ k\<close> on, so the time has 19 characters from the year 1000 on.\<close>

lemma show_nat_longer: "10 ^ k \<le> n \<Longrightarrow> k < length (show_nat n)"
proof (induction k arbitrary: n)
  case (Suc k)
  then have "10 ^ k \<le> n div 10" by (simp add: less_eq_div_iff_mult_less_eq mult.commute)
  moreover have "\<not> n < 10" using Suc.prems one_le_power [of "10 :: nat" k] unfolding power_Suc by linarith
  ultimately show ?case using Suc.IH [of "n div 10"] by (simp add: show_nat.simps [of n])
qed simp

lemma length_time_text_year:
  assumes "valid_tm t" and "- 900 \<le> tm_year t"
  shows "length (time_text t) = 19"
proof -
  have two: "length (pad2 i) = 2" if i: "0 \<le> i" "i < 100" for i
  proof (cases "i < 10")
    case True
    then show ?thesis using i(1) by (simp add: pad2_def show_int_def show_nat.simps [of "nat i"])
  next
    case False
    then show ?thesis using i show_nat_length [of "nat i" 2] show_nat_longer [of 1 "nat i"]
      by (simp add: pad2_def show_int_def nat_less_iff le_nat_iff)
  qed
  have "length (show_int (tm_year t + 1900)) = 4"
    using assms show_nat_length [of "nat (tm_year t + 1900)" 4] show_nat_longer [of 3 "nat (tm_year t + 1900)"]
    by (simp add: valid_tm_def show_int_def nat_less_iff le_nat_iff)
  then show ?thesis using assms(1) by (simp add: valid_tm_def time_text_def two)
qed

definition entered :: "string \<Rightarrow> string \<Rightarrow> string \<Rightarrow> string \<Rightarrow> string \<Rightarrow> disk \<Rightarrow> disk \<Rightarrow> bool" where
  "entered user nick pwd tel email d d' \<longleftrightarrow> (\<exists>time. d' = enter_user (new_user user nick pwd tel time email) d)"

lemma length_insert_user:
  "length (sql_text Ins_User [S a, S b, S c, S d, S t, S f]) = 101 + length a + length b + length c + length d + length t + length f"
  by (simp add: sql_text_def piece_defs)

context disk_world_up
begin

lemma run_sql_fits:
  assumes "fits (sql_tail k) args"
  shows "if length (sql_text k args) < 512
    then returns (run_sql sv k args e) (\<lambda>(ok, e'). ok = (fst (sql_exec k args (w_tables (ab e))) \<noteq> Q_Err)
      \<and> ab e' = ab e \<lparr>w_tables := snd (sql_exec k args (w_tables (ab e)))\<rparr>)
    else run_sql sv k args e = None"
proof -
  obtain r e' where q: "mysql_query sv (sql_text k args) e = (r, e')" by fastforce
  then show ?thesis
    using query_exact [OF assms q] by (auto simp: run_sql_def sprintf_sql_def SQL_MAX_LEN_def store_def)
qed

lemma register_user_fits:
  assumes "list_all (list_all (plain sq)) [user, nick, pwd, tel, email]" and "length user < 128"
    and "\<And>e. - 900 \<le> tm_year (fst (localtime sv e))" and "\<not> name_taken user (ab e)"
  shows "if length user + length nick + length pwd + length tel + length email < 392
    then returns (register_user sv user nick pwd tel email e) (\<lambda>(ret, e'). ret = 0
      \<and> entered user nick pwd tel email (ab e) (ab e'))
    else register_user sv user nick pwd tel email e = None"
proof -
  have "returns (select_one sv Sel_User [S user] None e) (\<lambda>(ret, v, e'). ret = 1 \<and> ab e' = ab e)"
    by (rule sel_user_up) (use assms in auto)
  then obtain v e1 where e1: "select_one sv Sel_User [S user] None e = Some (1, v, e1)" "ab e1 = ab e"
    by (auto simp: returns_iff)
  obtain t e2 where t: "localtime sv e1 = (t, e2)" by fastforce
  then have "valid_tm t" "ab e2 = ab e" "length (time_text t) = 19"
    using time_law [OF t] e1(2) assms(3) [of e1] length_time_text_year [of t] by simp_all
  then show ?thesis
    using run_sql_fits [of Ins_User "[S user, S nick, S pwd, S tel, S (time_text t), S email]" e2] assms(1)
    by (auto simp: register_user_def e1(1) t strftime_def store_def length_insert_user stmt_simps returns_bind entered_def enter_user_def new_user_def
        elim!: returns_mono intro!: exI [of _ "time_text t"])
qed

lemma user_register_fits:
  assumes "list_all (\<lambda>s. clean s \<and> length s < 128) [user, nick, pwd, tel, email]"
    and "\<And>e. - 900 \<le> tm_year (fst (localtime sv e))" and "\<not> name_taken user (ab e)"
  shows "if length user + length nick + length pwd + length tel + length email < 392
    then returns (user_register sv (form_text (reg_form user nick pwd tel email)) e) (\<lambda>(ret, e'). ret = 0
      \<and> entered user nick pwd tel email (ab e) (ab e'))
    else user_register sv (form_text (reg_form user nick pwd tel email)) e = None"
proof -
  obtain u p d where info: "get_mysql_info sv e = Some (0, u, p, d)" using get_mysql_info_up by blast
  obtain conn e1 where conn: "msql_conn sv u p d e = (conn, e1)" by fastforce
  then have e1: "msql_conn sv u p d e = (True, e1)" "ab e1 = ab e" using msql_conn_up [OF conn] ab_msql_conn [OF conn] by simp_all
  show ?thesis
    using register_user_fits [of user nick pwd tel email "set_names sv e1"] assms(1,2,3) e1(2)
    by (auto simp: user_register_def info get_reg_info_form [OF assms(1)] e1(1) cleanD returns_bind close_law elim!: returns_mono)
qed

end

text \<open>
  C23: the statement that enters a user is written into 512 bytes. For five fields that each fit their array of 128
  bytes and a clock between the years 1000 and 9999, registering a free name is free of undefined behaviour exactly
  if the fields have at most 391 bytes together: 392 bytes overrun the array on the stack.
\<close>

theorem register_bounds:
  assumes "disk_world_up sv ab cfg" and "\<And>e. - 900 \<le> tm_year (fst (localtime sv e))"
    and "list_all (\<lambda>s. clean s \<and> length s < 128) [user, nick, pwd, tel, email]" and "\<not> name_taken user (ab e)"
  shows "user_register sv (form_text (reg_form user nick pwd tel email)) e \<noteq> None
    \<longleftrightarrow> length user + length nick + length pwd + length tel + length email \<le> 391"
  using disk_world_up.user_register_fits [OF assms(1,3,2,4)] by (auto simp: returns_iff split: if_splits)

theorem register_bounds_witness:
  "user_register ref_up (form_text (reg_form (replicate 127 CHR ''u'') (replicate 127 CHR ''n'') (replicate 127 CHR ''p'') ''1'' ''a@b.org''))
     disk0 \<noteq> None
   \<and> user_register ref_up (form_text (reg_form (replicate 127 CHR ''u'') (replicate 127 CHR ''n'') (replicate 127 CHR ''p'') ''1234'' ''a@b.orga''))
     disk0 = None"
proof -
  have clock: "- 900 \<le> tm_year (fst (localtime ref_up e))" for e by (simp add: ref_up_def tm0_def)
  have clean: "clean (replicate n CHR ''u'')" "clean (replicate n CHR ''n'')" "clean (replicate n CHR ''p'')"
    "clean ''1''" "clean ''a@b.org''" "clean ''1234''" "clean ''a@b.orga''" for n
    by (simp_all add: clean_def plain_def sq_def dq_def list_all_iff)
  note bounds = register_bounds [OF ref_up.disk_world_up_axioms clock, of "replicate 127 CHR ''u''" "replicate 127 CHR ''n''" "replicate 127 CHR ''p''"]
  have "\<not> name_taken user (id disk0)" for user by (simp add: name_taken_def disk0_def)
  then show ?thesis
    using bounds [of "''1''" "''a@b.org''" disk0] bounds [of "''1234''" "''a@b.orga''" disk0] clean
    by (simp del: not_None_eq)
qed

section \<open>The loop of the login program\<close>

text \<open>
  Requests of fewer than 4096 bytes whose members \<open>user\<close> and \<open>pwd\<close>, if the text is JSON and has them, are strings
  that fit; the text is arbitrary otherwise. \<open>login_answer\<close> are the answers the program gives.
\<close>

definition field_ok :: "cJSON \<Rightarrow> string \<Rightarrow> nat \<Rightarrow> bool" where
  "field_ok root name n \<longleftrightarrow>
     (case cJSON_GetObjectItem (Some root) name of
        None \<Rightarrow> True
      | Some child \<Rightarrow> (case valuestring child of None \<Rightarrow> False | Some s \<Rightarrow> length (c_str s) < n \<and> list_all (plain dq) (c_str s)))"

definition login_ok :: "request \<Rightarrow> bool" where
  "login_ok rq \<longleftrightarrow>
     (case fcgi_input rq of
        None \<Rightarrow> False
      | Some (Body buf) \<Rightarrow> (case cJSON_Parse buf of Ok root \<Rightarrow> field_ok root ''user'' 301 \<and> field_ok root ''pwd'' 512 | _ \<Rightarrow> True)
      | Some _ \<Rightarrow> True)"

definition login_answer :: "string \<Rightarrow> bool" where
  "login_answer out \<longleftrightarrow> out \<in> {http_header, http_header @ no_data, http_header @ login_text ''001'' ''fail''}
     \<or> (\<exists>user rs. out = http_header @ login_text ''000'' (token_of user rs))"

lemma login_answer_cases:
  "login_answer http_header" "login_answer (http_header @ no_data)" "login_answer (http_header @ login_text ''001'' ''fail'')"
  "login_answer (http_header @ login_text ''000'' (token_of user rs))"
  by (auto simp: login_answer_def)

lemma serve_total:
  assumes "\<And>rq st. rq \<in> set rqs \<Longrightarrow> keeps st \<Longrightarrow> returns (handle rq st) (\<lambda>(out, st'). good out \<and> keeps st')" and "keeps st"
  shows "returns (serve handle rqs st) (\<lambda>(outs, st'). length outs = length rqs \<and> list_all good outs \<and> keeps st')"
  using assms
proof (induction rqs arbitrary: st)
  case (Cons rq rqs)
  have "returns (handle rq st) (\<lambda>(out, st'). good out \<and> keeps st')" using Cons.prems by simp
  moreover have "returns (serve handle rqs st') (\<lambda>(outs, st'). length outs = length rqs \<and> list_all good outs \<and> keeps st')" if "keeps st'" for st'
    using Cons that by simp
  ultimately show ?case by (fastforce simp: returns_bind elim!: returns_mono)
qed simp

lemma copy_field_ok:
  assumes "field_ok root name n" and "n \<le> m"
  shows "returns (copy_field root name m) (\<lambda>r. case r of None \<Rightarrow> True | Some s \<Rightarrow> length s < n \<and> list_all (plain dq) s)"
  using assms by (auto simp: field_ok_def copy_field_def store_def returns_bind split: option.splits)

lemma get_login_info_ok:
  assumes "fcgi_input rq = Some (Body buf)" and "login_ok rq"
  shows "returns (get_login_info buf [] []) (\<lambda>(ret, fs). \<exists>user pwd. fs = [user, pwd] \<and> length user < 301 \<and> list_all (plain dq) user)"
proof (cases "cJSON_Parse buf")
  case (Ok root)
  then have "field_ok root ''user'' 301" "field_ok root ''pwd'' 512" using assms by (simp_all add: login_ok_def)
  from copy_field_ok [OF this(1), of 512] copy_field_ok [OF this(2), of 512] show ?thesis
    by (auto simp: get_login_info_def request_fields_def Ok returns_bind elim!: returns_mono split: option.splits)
next
  case UB
  then show ?thesis using parse_no_UB by blast
qed (simp add: get_login_info_def request_fields_def)

context disk_world
begin

lemma check_user_pwd_wp:
  assumes "list_all (plain dq) user" and "length user \<le> 300" and "passwords_in (w_tables (ab e))"
    and "\<And>ret e'. ab e' = ab e \<Longrightarrow> Q (ret, e')"
  shows "returns (check_user_pwd sv user pwd e) Q"
proof -
  obtain u p d where info: "get_mysql_info sv e = Some (0, u, p, d)" using get_mysql_info_up by blast
  have sel: "returns (select_one sv Sel_Password [S user] (Some (PWD_LEN, [])) e') Q'"
    if "ab e' = ab e" "\<And>ret v e''. ab e'' = ab e \<Longrightarrow> Q' (ret, v, e'')" for e' Q'
    by (rule select_text_wp [where P = "\<lambda>u. u_name u = user" and g = u_password and rs = "t_user (w_tables (ab e))"])
      (use assms(1-3) that in \<open>auto simp: short_args_def piece_defs passwords_in_def\<close>)
  show ?thesis
    unfolding check_user_pwd_def info using assms(4)
    by (auto simp: ret_simps close_law intro!: conn_wp sel)
qed

lemma set_token_wp:
  assumes "length (ctx_buffer ctx) = 64" and "length user < 512"
    and "\<And>e'. ab e' = ab e \<Longrightarrow> Q (- 1, [], e')"
    and "\<And>rs ret e' db. ab e' = ab e \<lparr>w_redis := db\<rparr> \<Longrightarrow> Q (ret, token_of user rs, e')"
  shows "returns (set_token TYPE(32) ctx sv user [] e) Q"
proof -
  have rand: "returns (case rand_nums sv 4 e' of (rs, e'') \<Rightarrow> f rs e'') Q'"
    if "\<And>rs e''. length rs = 4 \<Longrightarrow> \<forall>r \<in> set rs. r < 1000 \<Longrightarrow> ab e'' = ab e' \<Longrightarrow> returns (f rs e'') Q'" for e' f Q'
    by (rule returns_pair) (use rand_nums_up that in blast)
  show ?thesis
    unfolding set_token_def using assms
    by (auto simp: ret_simps cfg_values make_token_eq length_token srand_law intro!: connectdb_wp [OF cfg_port] rand setex_wp)
qed

lemma login_request_wp:
  assumes "login_ok rq" and "length (ctx_buffer ctx) = 64" and "passwords_in (w_tables (ab e))"
  shows "returns (login_request TYPE(32) ctx sv rq e) (\<lambda>(out, e'). login_answer out \<and> w_tables (ab e') = w_tables (ab e))"
proof (cases "fcgi_input rq")
  case (Some input)
  show ?thesis
  proof (cases input)
    case (Body buf)
    from get_login_info_ok [OF Some [unfolded Body] assms(1)]
    obtain ret user pwd where "get_login_info buf [] [] = Some (ret, [user, pwd])" "length user \<le> 300" "list_all (plain dq) user"
      by (auto simp: returns_iff)
    then show ?thesis
      unfolding login_request_def Some Body using assms(2,3)
      by (auto simp: ret_simps login_answers login_answer_cases intro!: check_user_pwd_wp set_token_wp)
  qed (simp_all add: login_request_def Some login_answer_cases)
qed (use assms(1) in \<open>simp add: login_ok_def\<close>)

end

text \<open>
  C13: with a four-byte \<open>unsigned long\<close>, the login program answers every sequence of requests whose user and password are
  strings that fit (or whose text is no JSON, or empty): one answer per request, each a refusal, a token, or the notice that
  there is no data. It does so also when MySQL cannot be reached or refuses statements, and when Redis cannot be
  reached or answers with an error, as long as Redis answers; the tables stay as they are.
\<close>

theorem login_main_answers:
  assumes "disk_world sv ab cfg" and "list_all login_ok rqs" and "length (ctx_buffer ctx) = 64" and "passwords_in (w_tables (ab e))"
  shows "\<exists>outs e'. login_main TYPE(32) ctx sv rqs e = Some (outs, e') \<and> length outs = length rqs \<and> list_all login_answer outs
      \<and> w_tables (ab e') = w_tables (ab e)"
proof -
  have "returns (serve (login_request TYPE(32) ctx sv) rqs e) (\<lambda>(outs, e').
      length outs = length rqs \<and> list_all login_answer outs \<and> w_tables (ab e') = w_tables (ab e))"
  proof (rule serve_total)
    fix rq e' assume "rq \<in> set rqs" and e': "w_tables (ab e') = w_tables (ab e)"
    then have "login_ok rq" "passwords_in (w_tables (ab e'))" using assms(2,4) by (auto simp: list_all_iff)
    from disk_world.login_request_wp [OF assms(1) this(1) assms(3) this(2)]
    show "returns (login_request TYPE(32) ctx sv rq e') (\<lambda>(out, e''). login_answer out \<and> w_tables (ab e'') = w_tables (ab e))"
      by (simp add: e')
  qed simp
  then show ?thesis by (auto simp: login_main_def returns_iff)
qed

theorem login_main_answers_witness:
  "\<exists>outs e'. login_main TYPE(32) md5_ctx0 ref_faulty [post (form_text (login_form ''ann'' ''secret'')), post []]
      (disk4, [False, True]) = Some (outs, e') \<and> length outs = 2"
proof -
  have ctx: "length (ctx_buffer md5_ctx0) = 64" by (simp add: md5_ctx0_def)
  have "length (form_text (login_form ''ann'' ''secret'')) < 4096" "no_nuls (login_form ''ann'' ''secret'')"
    by (simp_all add: no_nuls_def form_text_def form_def login_form_def escape_def escape_char_def quote_char_def backslash_def)
  moreover have "field_ok (form (login_form ''ann'' ''secret'')) ''user'' 301" "field_ok (form (login_form ''ann'' ''secret'')) ''pwd'' 512"
    by code_simp+
  ultimately have "login_ok (post (form_text (login_form ''ann'' ''secret'')))"
    by (simp add: login_ok_def fcgi_input_form cJSON_Parse_form)
  moreover have "login_ok (post [])" by (simp add: login_ok_def fcgi_input_def post_def c_atoi_show_int in_int_def)
  moreover have "passwords_in (w_tables (fst (disk4, [False, True])))" by (simp add: passwords_in_def disk4_def PWD_LEN_def)
  ultimately show ?thesis
    using login_main_answers [OF ref_faulty.disk_world_axioms _ ctx, of "[post (form_text (login_form ''ann'' ''secret'')), post []]"
        "(disk4, [False, True])"] by auto
qed

section \<open>A lost connection\<close>

text \<open>The servers with Redis gone after the connection was made: \<open>redisCommand\<close> returns \<open>NULL\<close>.\<close>

lemma lost_services:
  "mysql_init (sv \<lparr>redisCommand := lost\<rparr>) = mysql_init sv" "mysql_real_connect (sv \<lparr>redisCommand := lost\<rparr>) = mysql_real_connect sv"
  "mysql_query (sv \<lparr>redisCommand := lost\<rparr>) = mysql_query sv" "mysql_close (sv \<lparr>redisCommand := lost\<rparr>) = mysql_close sv"
  "read_file (sv \<lparr>redisCommand := lost\<rparr>) = read_file sv" "redisConnect (sv \<lparr>redisCommand := lost\<rparr>) = redisConnect sv"
  "redisFree (sv \<lparr>redisCommand := lost\<rparr>) = redisFree sv" "c_srand (sv \<lparr>redisCommand := lost\<rparr>) = c_srand sv"
  "c_rand (sv \<lparr>redisCommand := lost\<rparr>) = c_rand sv"
  by simp_all

lemma rand_nums_lost: "rand_nums (sv \<lparr>redisCommand := lost\<rparr>) n e = rand_nums sv n e"
  by (induction n arbitrary: e) (simp_all add: split_beta)

lemma cfg_value_lost: "cfg_value (sv \<lparr>redisCommand := lost\<rparr>) = cfg_value sv"
  unfolding cfg_value_def get_cfg_value_def lost_services by simp

lemma check_user_pwd_lost: "check_user_pwd (sv \<lparr>redisCommand := lost\<rparr>) user pwd e = check_user_pwd sv user pwd e"
  unfolding check_user_pwd_def get_mysql_info_def cfg_value_lost msql_conn_def set_names_def select_one_def process_result_one_def lost_services
  by simp

lemma connectdb_lost: "rop_connectdb_nopwd (sv \<lparr>redisCommand := lost\<rparr>) = rop_connectdb_nopwd sv"
  unfolding rop_connectdb_nopwd_def opened_def lost_services by simp

lemma setex_lost: "(\<And>cmd e. fst (lost cmd e) = None) \<Longrightarrow> rop_setex_string (sv \<lparr>redisCommand := lost\<rparr>) key n v e = None"
  by (simp add: rop_setex_string_def reply_ok_def split_beta)

lemma set_token_lost:
  assumes "disk_world_up sv ab cfg" and "length (ctx_buffer ctx) = 64" and "length user < 512" and "\<And>cmd e. fst (lost cmd e) = None"
  shows "set_token TYPE(32) ctx (sv \<lparr>redisCommand := lost\<rparr>) user [] e = None"
proof -
  note dw = disk_world_up.axioms(1) [OF assms(1)]
  have "returns (rop_connectdb_nopwd sv (cfg_at cfg ''redis'' ''ip'') (cfg_at cfg ''redis'' ''port'') e) (\<lambda>(conn, e'). conn)"
    by (rule disk_world_up.connectdb_up [OF assms(1) disk_world.cfg_port [OF dw]]) simp
  then obtain e1 where conn: "rop_connectdb_nopwd sv (cfg_at cfg ''redis'' ''ip'') (cfg_at cfg ''redis'' ''port'') e = Some (True, e1)"
    by (auto simp: returns_iff)
  obtain rs e2 where rs: "rand_nums sv 4 (c_srand sv e1) = (rs, e2)" by fastforce
  have "length rs = 4 \<and> (\<forall>r \<in> set rs. r < 1000)" using disk_world.rand_nums_up [OF dw rs] by simp
  then have "make_token TYPE(32) ctx user rs = Some (Some (token_of user rs))" by (intro make_token_eq [OF assms(2,3)]) auto
  then show ?thesis
    by (simp add: set_token_def cfg_value_lost disk_world.cfg_values [OF dw] connectdb_lost conn rand_nums_lost rs setex_lost [OF assms(4)]
        store_def length_token)
qed

text \<open>
  C37: a login with the right password while Redis is lost behind the connection, so that \<open>redisCommand\<close> returns \<open>NULL\<close>, is
  undefined behaviour: \<open>rop_setex_string\<close> follows the reply without a test.
\<close>

theorem login_redis_lost:
  assumes "disk_world_up sv ab cfg" and "length (ctx_buffer ctx) = 64" and "passwords_in (w_tables (ab e))"
    and "list_all (\<lambda>s. clean s \<and> length s < 512) [user, pwd]" and "length user \<le> 300" and "length (form_text (login_form user pwd)) < 4096"
    and "password_of user (ab e) = Some pwd" and "pwd \<noteq> []" and "\<And>cmd e. fst (lost cmd e) = None"
  shows "login_request TYPE(32) ctx (sv \<lparr>redisCommand := lost\<rparr>) (post (form_text (login_form user pwd))) e = None"
proof -
  have "returns (check_user_pwd sv user pwd e) (\<lambda>(ret, e'). ret = 0)"
    using assms(3-5,7,8) by (intro disk_world_up.check_user_pwd_up [OF assms(1)]) (auto simp: cleanD password_of_def)
  then obtain e1 where "check_user_pwd sv user pwd e = Some (0, e1)" by (auto simp: returns_iff)
  then show ?thesis
    using assms(4) get_login_info_form [OF assms(4)] set_token_lost [OF assms(1,2) _ assms(9)]
    by (simp add: login_request_def fcgi_input_form [OF assms(6)] check_user_pwd_lost)
qed

theorem login_redis_lost_witness:
  "login_request TYPE(32) md5_ctx0 (ref_up \<lparr>redisCommand := \<lambda>cmd. Pair None\<rparr>) (post (form_text (login_form ''ann'' ''secret''))) disk4 = None"
proof -
  have ctx: "length (ctx_buffer md5_ctx0) = 64" by (simp add: md5_ctx0_def)
  have fields: "list_all (\<lambda>s. clean s \<and> length s < 512) [''ann'', ''secret'']" "length ''ann'' \<le> 300"
    by (simp_all add: clean_def plain_def sq_def dq_def)
  have len: "length (form_text (login_form ''ann'' ''secret'')) < 4096"
    by (simp add: form_text_def form_def login_form_def escape_def escape_char_def quote_char_def backslash_def)
  have "passwords_in (w_tables (id disk4))" "password_of ''ann'' (id disk4) = Some ''secret''"
    by (simp_all add: passwords_in_def password_of_def disk4_def PWD_LEN_def)
  then show ?thesis by (intro login_redis_lost [OF ref_up.disk_world_up_axioms ctx _ fields len]) simp_all
qed

end
