(* ===== verification/Disk_Listing.thy ===== *)
theory Disk_Listing
  imports Disk_Effects Cgi_Sharefiles
begin

text \<open>
  The lists of files that the programs \<open>myfiles\<close> and \<open>sharefiles\<close> answer with, as JSON values: one item for each
  row of the join of the list with the stored files.
\<close>

section \<open>Rows as JSON objects\<close>

definition number :: "int \<Rightarrow> cJSON" where
  "number i = cJSON_Number (dbl_of_int i) i"

definition file_item :: "string \<Rightarrow> string \<Rightarrow> string \<Rightarrow> string \<Rightarrow> int \<Rightarrow> int \<Rightarrow> file_row \<Rightarrow> cJSON" where
  "file_item user md5 time filename shared pv f =
     cJSON_Object
       [(''user'', cJSON_String user), (''md5'', cJSON_String md5), (''time'', cJSON_String time),
        (''filename'', cJSON_String filename), (''share_status'', number shared), (''pv'', number pv),
        (''url'', cJSON_String (f_url f)), (''size'', number (read_int (f_size f))), (''type'', cJSON_String (f_type f))]"

definition user_item :: "list_row \<Rightarrow> file_row \<Rightarrow> cJSON" where
  "user_item r f = file_item (l_user r) (l_md5 r) (l_createtime r) (l_filename r) (l_shared r) (l_pv r) f"

definition share_item :: "share_row \<Rightarrow> file_row \<Rightarrow> cJSON" where
  "share_item r f = file_item (s_user r) (s_md5 r) (s_createtime r) (s_filename r) 1 (s_pv r) f"

lemma add_string_Object: "add_string name s (cJSON_Object ms) = cJSON_Object (ms @ [(name, cJSON_String s)])"
  by (simp add: add_string_def cJSON_AddStringToObject_def cJSON_CreateString_def)

lemma add_number_Object: "in_int i \<Longrightarrow> add_number name i (cJSON_Object ms) = cJSON_Object (ms @ [(name, number i)])"
  using valueint_of_int [of i]
  by (simp add: add_number_def cJSON_AddNumberToObject_def cJSON_CreateNumber_def number_def in_int_def INT_MIN_def INT_MAX_def)

lemma atol_in_int: "in_int (read_int s) \<Longrightarrow> c_atol s = Some (read_int s)" "in_int (read_int s) \<Longrightarrow> c_atoi s = Some (read_int s)"
  by (simp_all add: c_atol_def c_atoi_def in_int_def)

lemmas item_simps = add_string_Object add_number_Object atol_in_int num_col_def cJSON_CreateObject_def info_cols_def in_int_consts

lemma add_columns_user:
  assumes "in_int (l_shared r)" and "in_int (l_pv r)" and "in_int (read_int (f_size f))"
  shows "add_columns (list_cols r @ info_cols f) 0 user_file_columns cJSON_CreateObject = Some (user_item r f)"
  using assms by (simp add: user_file_columns_def list_cols_def user_item_def file_item_def item_simps)

lemma add_columns_share:
  assumes "in_int (s_pv r)" and "in_int (read_int (f_size f))"
  shows "add_columns (share_cols r @ info_cols f) 0 share_file_columns cJSON_CreateObject = Some (share_item r f)"
  using assms by (simp add: share_file_columns_def share_cols_def share_item_def file_item_def item_simps)

lemma add_rows_map:
  assumes "\<And>x. x \<in> set xs \<Longrightarrow> add_columns (row x) 0 cols cJSON_CreateObject = Some (item x)"
  shows "add_rows cols (map row xs) (cJSON_Array items) = Some (cJSON_Array (items @ map item xs))"
  using assms by (induction xs arbitrary: items) simp_all

text \<open>The pairs of a row and a stored file that a join puts together.\<close>

definition joined :: "('r \<Rightarrow> string) \<Rightarrow> file_row list \<Rightarrow> 'r list \<Rightarrow> ('r \<times> file_row) list" where
  "joined md5_of files rs = concat (map (\<lambda>r. map (Pair r) (filter (file_of (md5_of r)) files)) rs)"

lemma join_info_joined: "join_info md5_of cols files rs = map (\<lambda>(r, f). cols r @ info_cols f) (joined md5_of files rs)"
  by (simp add: join_info_def joined_def map_concat comp_def)

lemma joined_set: "(r, f) \<in> set (joined md5_of files rs) \<longleftrightarrow> r \<in> set rs \<and> f \<in> set files \<and> f_md5 f = md5_of r"
  by (auto simp: joined_def file_of_def)

section \<open>The text of a list\<close>

definition files_answer :: "cJSON list \<Rightarrow> cJSON" where
  "files_answer items = cJSON_Object [(''files'', cJSON_Array items)]"

definition texts_ok :: "file_row list \<Rightarrow> list_row list \<Rightarrow> share_row list \<Rightarrow> bool" where
  "texts_ok files es ss \<longleftrightarrow>
     (\<forall>f \<in> set files. CHR 0x00 \<notin> set (f_url f) \<and> CHR 0x00 \<notin> set (f_type f) \<and> in_int (read_int (f_size f)))
     \<and> (\<forall>r \<in> set es. CHR 0x00 \<notin> set (l_user r @ l_md5 r @ l_createtime r @ l_filename r) \<and> in_int (l_shared r) \<and> in_int (l_pv r))
     \<and> (\<forall>r \<in> set ss. CHR 0x00 \<notin> set (s_user r @ s_md5 r @ s_createtime r @ s_filename r) \<and> in_int (s_pv r))"

lemma canonical_number: "in_int i \<Longrightarrow> canonical (number i)"
  by (simp add: number_def in_int_def INT_MIN_def INT_MAX_def)

lemma canonical_items:
  "texts_ok files es ss \<Longrightarrow> r \<in> set es \<Longrightarrow> f \<in> set files \<Longrightarrow> canonical (user_item r f)"
  "texts_ok files es ss \<Longrightarrow> s \<in> set ss \<Longrightarrow> f \<in> set files \<Longrightarrow> canonical (share_item s f)"
  by (auto simp: texts_ok_def user_item_def share_item_def file_item_def canonical_number in_int_consts)

lemma nesting_items: "nesting (user_item r f) = 1" "nesting (share_item s f) = 1"
  by (simp_all add: user_item_def share_item_def file_item_def number_def)

lemma print_files_answer:
  assumes "list_all canonical items" and "list_all (\<lambda>v. nesting v \<le> 1) items"
    and "length (json_text True 0 (files_answer items)) + 2 \<le> INT_MAX"
  shows "print_files (cJSON_Array items) = Some (json_text True 0 (files_answer items))"
    and "cJSON_Parse (json_text True 0 (files_answer items)) = Ok (files_answer items)"
proof -
  have can: "canonical (files_answer items)" using assms(1) by (simp add: files_answer_def)
  then show "print_files (cJSON_Array items) = Some (json_text True 0 (files_answer items))"
    using print_ok [OF canonical_printable [OF can] assms(3)]
    by (simp add: print_files_def files_object_def cJSON_CreateObject_def cJSON_Print_def files_answer_def)
  have "fold max (map nesting items) 0 \<le> 1" using assms(2) by (simp add: fold_max_le list_all_iff)
  then show "cJSON_Parse (json_text True 0 (files_answer items)) = Ok (files_answer items)"
    by (intro cJSON_Parse_text can) (simp add: files_answer_def CJSON_NESTING_LIMIT_def)
qed

section \<open>The handlers\<close>

definition tables_texts :: "tables \<Rightarrow> bool" where
  "tables_texts t \<longleftrightarrow> texts_ok (t_file_info t) (t_user_file_list t) (t_share_file_list t)"

definition user_files :: "string \<Rightarrow> tables \<Rightarrow> cJSON list" where
  "user_files user t = map (\<lambda>(r, f). user_item r f) (joined l_md5 (t_file_info t) (filter (\<lambda>r. l_user r = user) (t_user_file_list t)))"

definition share_page :: "int \<Rightarrow> int \<Rightarrow> tables \<Rightarrow> cJSON list" where
  "share_page start count t =
     map (\<lambda>(r, f). share_item r f) (take (nat count) (drop (nat start) (joined s_md5 (t_file_info t) (t_share_file_list t))))"

definition list_answer :: "cJSON list \<Rightarrow> int \<times> string" where
  "list_answer items = (if items = [] then (- 1, status_text ''015'') else (0, json_text True 0 (files_answer items)))"

text \<open>The value that the answer of a list stands for.\<close>

definition list_value :: "cJSON list \<Rightarrow> cJSON" where
  "list_value items = (if items = [] then cJSON_Object [(''code'', cJSON_String ''015'')] else files_answer items)"

lemma parse_status_text: "cJSON_Parse (status_text ''015'') = Ok (cJSON_Object [(''code'', cJSON_String ''015'')])"
  unfolding status_text_def by (rule cJSON_Parse_text) (simp_all add: CJSON_NESTING_LIMIT_def)

lemma parse_list_answer:
  assumes "list_all canonical items \<and> list_all (\<lambda>v. nesting v \<le> 1) items"
    and "length (json_text True 0 (files_answer items)) + 2 \<le> INT_MAX" and "(ret, out) = list_answer items"
  shows "ret = (if items = [] then - 1 else 0)" and "cJSON_Parse out = Ok (list_value items)"
  using assms print_files_answer(2) [of items] parse_status_text by (auto simp: list_answer_def list_value_def split: if_splits)

lemma joined_take: "x \<in> set (take n (drop m (joined md5_of files rs))) \<Longrightarrow> x \<in> set (joined md5_of files rs)"
  by (meson in_set_dropD in_set_takeD)

lemma items_ok:
  assumes "tables_texts t"
  shows "list_all canonical (user_files user t) \<and> list_all (\<lambda>v. nesting v \<le> 1) (user_files user t)"
    and "list_all canonical (share_page start count t) \<and> list_all (\<lambda>v. nesting v \<le> 1) (share_page start count t)"
  using assms
  by (auto simp: tables_texts_def user_files_def share_page_def list_all_iff nesting_items joined_set canonical_items dest!: joined_take)

lemma add_rows_user:
  assumes "tables_texts t"
  shows "add_rows user_file_columns (join_info l_md5 list_cols (t_file_info t) (filter (\<lambda>r. l_user r = user) (t_user_file_list t))) cJSON_CreateArray
    = Some (cJSON_Array (user_files user t))"
  using assms add_rows_map [of "joined l_md5 (t_file_info t) (filter (\<lambda>r. l_user r = user) (t_user_file_list t))"
      "\<lambda>(r, f). list_cols r @ info_cols f" user_file_columns "\<lambda>(r, f). user_item r f" "[]"]
  by (auto simp: join_info_joined cJSON_CreateArray_def user_files_def tables_texts_def texts_ok_def joined_set add_columns_user)

lemma add_rows_share:
  assumes "tables_texts t"
  shows "add_rows share_file_columns (take (nat count) (drop (nat start) (join_info s_md5 share_cols (t_file_info t) (t_share_file_list t)))) cJSON_CreateArray
    = Some (cJSON_Array (share_page start count t))"
proof -
  let ?page = "take (nat count) (drop (nat start) (joined s_md5 (t_file_info t) (t_share_file_list t)))"
  have "add_columns (share_cols r @ info_cols f) 0 share_file_columns cJSON_CreateObject = Some (share_item r f)" if "(r, f) \<in> set ?page" for r f
    using assms joined_take [OF that] by (intro add_columns_share) (auto simp: tables_texts_def texts_ok_def joined_set)
  then show ?thesis
    using add_rows_map [of ?page "\<lambda>(r, f). share_cols r @ info_cols f" share_file_columns "\<lambda>(r, f). share_item r f" "[]"]
    by (auto simp: join_info_joined cJSON_CreateArray_def share_page_def take_map drop_map)
qed

context disk_world_up
begin

lemma select_list_up:
  assumes "fits (sql_tail k) args" and "sql_exec k args (w_tables (ab e)) = (Q_Ok (Some rows), w_tables (ab e))"
    and "\<And>e'. ab e' = ab e \<Longrightarrow> returns (f (if rows = [] then None else Some rows) e') Q"
  shows "returns (case select_rows_of sv (sql_text k args) e of (rows, e') \<Rightarrow> f rows e') Q"
proof -
  obtain r e' where q: "mysql_query sv (sql_text k args) e = (r, e')" by fastforce
  then show ?thesis using query_exact [OF assms(1) q] assms(2,3) by (simp add: select_rows_of_def)
qed

lemma user_filelist_up:
  assumes "list_all (plain sq) user" and "length user < 128" and "tables_texts (w_tables (ab e))"
    and "length (json_text True 0 (files_answer (user_files user (w_tables (ab e))))) + 2 \<le> INT_MAX"
    and "\<And>e' ret out. ab e' = ab e \<Longrightarrow> (ret, out) = list_answer (user_files user (w_tables (ab e))) \<Longrightarrow> Q (ret, out, e')"
  shows "returns (get_user_filelist sv g user e) Q"
proof -
  let ?t = "w_tables (ab e)"
  let ?rows = "join_info l_md5 list_cols (t_file_info ?t) (filter (\<lambda>r. l_user r = user) (t_user_file_list ?t))"
  have sql: "sprintf_sql Sel_User_Files [S user] = Some (sql_text Sel_User_Files [S user])"
    using sql_text_short [of "[S user]" Sel_User_Files] assms(2) by (simp add: sprintf_sql_def SQL_MAX_LEN_def store_def)
  have empty: "?rows = [] \<longleftrightarrow> user_files user ?t = []" by (simp add: join_info_joined user_files_def)
  note select = select_list_up [where k = Sel_User_Files and args = "[S user]" and rows = ?rows]
  note items = items_ok(1) [OF assms(3), of user]
  show ?thesis
    unfolding get_user_filelist_def
    using assms(1,5) print_files_answer(1) [OF conjunct1 [OF items] conjunct2 [OF items] assms(4)]
    by (auto simp: ret_simps sql empty add_rows_user [OF assms(3)] list_answer_def piece_defs intro!: conn_up select)
qed

lemma share_filelist_up:
  assumes "0 \<le> start" and "0 \<le> count" and "in_int start" and "in_int count" and "tables_texts (w_tables (ab e))"
    and "length (json_text True 0 (files_answer (share_page start count (w_tables (ab e))))) + 2 \<le> INT_MAX"
    and "\<And>e' ret out. ab e' = ab e \<Longrightarrow> (ret, out) = list_answer (share_page start count (w_tables (ab e))) \<Longrightarrow> Q (ret, out, e')"
  shows "returns (get_share_filelist sv g start count e) Q"
proof -
  let ?t = "w_tables (ab e)"
  define rows where "rows = take (nat count) (drop (nat start) (join_info s_md5 share_cols (t_file_info ?t) (t_share_file_list ?t)))"
  have sql: "sprintf_sql Sel_Share_Files [N start, N count] = Some (sql_text Sel_Share_Files [N start, N count])"
    using sql_text_short [OF short_args_len, of "[N start, N count]" Sel_Share_Files] assms(3,4)
    by (simp add: short_args_def sprintf_sql_def SQL_MAX_LEN_def store_def)
  have exec: "sql_exec Sel_Share_Files [N start, N count] ?t = (Q_Ok (Some rows), ?t)" using assms(1,2) by (simp add: rows_def)
  have empty: "rows = [] \<longleftrightarrow> share_page start count ?t = []" by (simp add: join_info_joined share_page_def rows_def)
  note select = select_list_up [where k = Sel_Share_Files and args = "[N start, N count]" and rows = rows]
  note items = items_ok(2) [OF assms(5), of start count]
  show ?thesis
    unfolding get_share_filelist_def
    using assms(7) exec print_files_answer(1) [OF conjunct1 [OF items] conjunct2 [OF items] assms(6)]
    by (auto simp: ret_simps sql empty add_rows_share [OF assms(5), where start = start and count = count, folded rows_def] list_answer_def piece_defs simp del: sql_exec.simps
        intro!: conn_up select)
qed

end

text \<open>
  C11: the list of the files of a user and a page of the list of shared files are JSON texts that \<open>cJSON_Parse\<close> reads
  back as \<open>{"files": [...]}\<close>, with one object for each row joined with its stored file, in order, and the
  columns under their names; without rows the answer is \<open>{"code": "015"}\<close>. Nothing is changed. The page
  of the shared files obeys \<open>start\<close> and \<open>count\<close>; the list of a user is always complete.
\<close>

theorem file_lists_well_formed:
  assumes "disk_world_up sv ab cfg" and "tables_texts (w_tables (ab e))" and "list_all (plain sq) user" and "length user < 128"
    and "0 \<le> start" and "0 \<le> count" and "in_int start" and "in_int count"
    and "length (json_text True 0 (files_answer (user_files user (w_tables (ab e))))) + 2 \<le> INT_MAX"
    and "length (json_text True 0 (files_answer (share_page start count (w_tables (ab e))))) + 2 \<le> INT_MAX"
  shows "returns (get_user_filelist sv g user e) (\<lambda>(ret, out, e'). ab e' = ab e
        \<and> (let items = user_files user (w_tables (ab e)) in ret = (if items = [] then - 1 else 0) \<and> cJSON_Parse out = Ok (list_value items)))
    \<and> returns (get_share_filelist sv g start count e) (\<lambda>(ret, out, e'). ab e' = ab e
        \<and> (let items = share_page start count (w_tables (ab e)) in ret = (if items = [] then - 1 else 0) \<and> cJSON_Parse out = Ok (list_value items)))"
proof
  show "returns (get_user_filelist sv g user e) (\<lambda>(ret, out, e'). ab e' = ab e
        \<and> (let items = user_files user (w_tables (ab e)) in ret = (if items = [] then - 1 else 0) \<and> cJSON_Parse out = Ok (list_value items)))"
    using items_ok(1) [OF assms(2)] assms(9)
    by (intro disk_world_up.user_filelist_up [OF assms(1,3,4,2,9)]) (auto simp: parse_list_answer)
  show "returns (get_share_filelist sv g start count e) (\<lambda>(ret, out, e'). ab e' = ab e
        \<and> (let items = share_page start count (w_tables (ab e)) in ret = (if items = [] then - 1 else 0) \<and> cJSON_Parse out = Ok (list_value items)))"
    using items_ok(2) [OF assms(2)] assms(10)
    by (intro disk_world_up.share_filelist_up [OF assms(1,5,6,7,8,2,10)]) (auto simp: parse_list_answer)
qed

theorem file_lists_well_formed_witness:
  "returns (get_user_filelist ref_up globals0 ''ann'' disk3) (\<lambda>(ret, out, e'). ret = 0 \<and> e' = disk3)
   \<and> returns (get_share_filelist ref_up globals0 0 10 disk3) (\<lambda>(ret, out, e'). ret = 0)
   \<and> returns (get_share_filelist ref_up globals0 1 10 disk3) (\<lambda>(ret, out, e'). ret = - 1)"
proof -
  let ?f = "hd (t_file_info (w_tables disk3))" and ?time = "''2020-08-04 19:06:00''"
  have size: "read_int ''5'' = 5" by code_simp
  have texts: "tables_texts (w_tables (id disk3))" "list_all (plain sq) ''ann''" "length ''ann'' < 128"
    by (simp_all add: tables_texts_def texts_ok_def disk3_def tables1_def in_int_def plain_def sq_def size)
  have ints: "in_int 0" "in_int 1" "in_int 10" by (simp_all add: in_int_def)
  have items: "user_files ''ann'' (w_tables disk3) = [file_item ''ann'' ''0a'' ?time ''a.txt'' 0 0 ?f]"
    "share_page 0 10 (w_tables disk3) = [file_item ''ann'' ''0a'' [] ''a.txt'' 1 0 ?f]"
    "share_page 1 10 (w_tables disk3) = []"
    by (simp_all add: user_files_def share_page_def joined_def disk3_def tables1_def file_of_def user_item_def share_item_def)
  have nums: "length (number_text (dbl_of_int i)) \<le> 11" if "in_int i" for i
    using int_text [of "dbl_of_int i" i] show_int_length [OF that] that by (simp add: in_int_def INT_MIN_def INT_MAX_def)
  have len: "length (json_text True 0 (files_answer [file_item ''ann'' ''0a'' t ''a.txt'' shared 0 ?f])) + 2 \<le> INT_MAX"
    if "in_int shared" "t \<in> {?time, []}" for shared t
    using nums [OF that(1)] nums [of 0] nums [of 5] that(2)
    by (auto simp: files_answer_def file_item_def number_def disk3_def tables1_def size in_int_def escape_def escape_char_def quote_char_def backslash_def INT_MAX_def)
  have none: "length (json_text True 0 (files_answer [])) + 2 \<le> INT_MAX"
    by (simp add: files_answer_def escape_def escape_char_def quote_char_def backslash_def INT_MAX_def)
  note lists = file_lists_well_formed [OF ref_up.disk_world_up_axioms texts, where count = 10 and g = globals0, unfolded id_apply]
  have "returns (get_user_filelist ref_up globals0 ''ann'' disk3) (\<lambda>(ret, out, e'). ret = 0 \<and> e' = disk3)"
    "returns (get_share_filelist ref_up globals0 0 10 disk3) (\<lambda>(ret, out, e'). ret = 0)"
    using lists [where start = 0, unfolded items] len [OF ints(1)] len [OF ints(2)] ints by (auto elim!: returns_mono)
  moreover have "returns (get_share_filelist ref_up globals0 1 10 disk3) (\<lambda>(ret, out, e'). ret = - 1)"
    using lists [where start = 1, unfolded items] len [OF ints(1)] none ints by (auto elim!: returns_mono)
  ultimately show ?thesis by blast
qed

end
