(* ===== verification/Disk_Ranking.thy ===== *)
theory Disk_Ranking
  imports Disk_Listing
begin

text \<open>
  The ranking of the shared files by downloads (\<open>get_ranking_filelist\<close> of \<open>src/src/cgi/cgi_sharefiles.c\<close>): a page of
  the Redis set, which is rebuilt from the table first if the two numbers of shared files differ.
\<close>

section \<open>The set that is ranked\<close>

definition share_key :: "share_row \<Rightarrow> string" where
  "share_key r = s_md5 r @ s_filename r"

text \<open>The set and the names of its members made from the shares.\<close>

definition shares_zset :: "share_row list \<Rightarrow> (string \<times> int) list" where
  "shares_zset rs = map (\<lambda>r. (share_key r, s_pv r)) rs"

definition shares_names :: "share_row list \<Rightarrow> (string \<times> string) list" where
  "shares_names rs = map (\<lambda>r. (share_key r, s_filename r)) rs"

definition by_pv :: "share_row list \<Rightarrow> share_row list" where
  "by_pv rs = sort_key (\<lambda>r. - s_pv r) rs"

definition rank_item :: "string \<Rightarrow> int \<Rightarrow> cJSON" where
  "rank_item name pv = cJSON_Object [(''filename'', cJSON_String name), (''pv'', number pv)]"

text \<open>A set and names that the handler can show: every member has a name, and nothing is too long for its array.\<close>

definition rankable :: "(string \<times> int) list \<Rightarrow> (string \<times> string) list \<Rightarrow> bool" where
  "rankable z h \<longleftrightarrow> distinct (map fst z) \<and> length z < 2 ^ 31 \<and>
     (\<forall>(m, s) \<in> set z. CHR 0x00 \<notin> set m \<and> length m < VALUES_ID_SIZE \<and> 0 \<le> s \<and> in_int s
        \<and> (case map_of h m of None \<Rightarrow> False | Some nm \<Rightarrow> CHR 0x00 \<notin> set nm \<and> length nm < 1024))"

definition rank_items :: "(string \<times> int) list \<Rightarrow> (string \<times> string) list \<Rightarrow> cJSON list" where
  "rank_items page h = map (\<lambda>(m, s). rank_item (the (map_of h m)) s) page"

definition rank_page :: "int \<Rightarrow> int \<Rightarrow> (string \<times> int) list \<Rightarrow> (string \<times> int) list" where
  "rank_page start count z = take (nat count) (drop (nat start) (ranked z))"

lemma rank_page_mem: "x \<in> set (rank_page start count z) \<Longrightarrow> x \<in> set z"
  by (auto simp: rank_page_def ranked_def dest!: in_set_takeD in_set_dropD)

lemma show_int_no_nul: "CHR 0x00 \<notin> set (show_int i)"
  using show_int_set [of "CHR 0x00" i] by (auto simp: c_isdigit_def)

lemma copy_row_text: "CHR 0x00 \<notin> set m \<Longrightarrow> length m < VALUES_ID_SIZE \<Longrightarrow> c_str (copy_row True m old) = m"
proof -
  assume m: "CHR 0x00 \<notin> set m" "length m < VALUES_ID_SIZE"
  have "c_str (m @ CHR 0x00 # s) = m" for s using m(1) unfolding c_str_def by (subst takeWhile_append2) auto
  moreover have "\<exists>s. copy_row True m old = m @ CHR 0x00 # s"
    using m by (cases "VALUES_ID_SIZE - 1 - length m") (auto simp: copy_row_def)
  ultimately show ?thesis by metis
qed

lemma copy_rows_all:
  "length ms \<le> length rows \<Longrightarrow> copy_rows True (map REPLY_STRING ms) rows
     = Some (map (\<lambda>(m, old). copy_row True m old) (zip ms rows) @ drop (length ms) rows)"
proof (induction ms arbitrary: rows)
  case (Cons m ms)
  then show ?case by (cases rows) auto
qed simp

lemma redis_range_page: "0 \<le> start \<Longrightarrow> 0 < count \<Longrightarrow> redis_range start (start + count - 1) xs = take (nat count) (drop (nat start) xs)"
  by (simp add: redis_range_def)

context disk_world_up
begin

lemma zrevrange_up:
  assumes "public (ab e) = Some z" and "rankable z h" and "0 \<le> start" and "0 < count" and "in_int start" and "in_int (start + count)" and "in_int count"
    and "\<And>e' vs n. ab e' = ab e \<Longrightarrow> map c_str (take (nat n) vs) = map fst (rank_page start count z) \<Longrightarrow> Q (0, vs, n, e')"
  shows "returns (rop_zset_zrevrange sv FILE_PUBLIC_ZSET start (start + count - 1) (replicate (nat count) row) n0 e) Q"
proof -
  let ?page = "rank_page start count z"
  have "redis_exec [''ZREVRANGE'', FILE_PUBLIC_ZSET, show_int start, show_int (start + count - 1)] (w_redis (ab e))
      = Some (REPLY_ARRAY (map REPLY_STRING (map fst ?page)), w_redis (ab e))"
    using assms(1,3,4) by (simp add: redis_exec_def exec_zrevrange_def with_zset_def public_def read_show_int redis_range_page rank_page_def comp_def split_beta)
  then obtain e' where e': "redisCommand sv [''ZREVRANGE'', FILE_PUBLIC_ZSET, show_int start, show_int (start + count - 1)] e
      = (Some (REPLY_ARRAY (map REPLY_STRING (map fst ?page))), e')" "ab e' = ab e"
    by (rule redis_exact) simp
  have len: "length ?page \<le> nat count" by (simp add: rank_page_def)
  have "int (length ?page) \<le> count" using len assms(4) by linarith
  moreover have "unat (of_int count :: u64) = nat count"
    using assms(4,7) by (simp add: in_int_def unat_eq_nat_uint uint_word_of_int take_bit_int_eq_self)
  ultimately have mx: "range_max count (length ?page) = int (length ?page)"
    using assms(4,7) len by (simp add: range_max_def to_int_id in_int_def)
  have cnt: "range_count start (start + count - 1) = Some count"
    using assms(3,4,5,7) by (simp add: range_count_def in_int_def)
  let ?vs = "map (\<lambda>(m, old). copy_row True m old) (zip (map fst ?page) (replicate (nat count) row)) @ drop (length ?page) (replicate (nat count) row)"
  have "map c_str (take (length ?page) ?vs) = map fst ?page"
  proof (rule nth_equalityI)
    show "length (map c_str (take (length ?page) ?vs)) = length (map fst ?page)" using len by simp
    fix i assume "i < length (map c_str (take (length ?page) ?vs))"
    then have i: "i < length ?page" using len by simp
    obtain m s where m: "?page ! i = (m, s)" by fastforce
    then have "(m, s) \<in> set z" using rank_page_mem i by (metis nth_mem)
    then have "c_str (copy_row True m row) = m" using assms(2) by (intro copy_row_text) (auto simp: rankable_def)
    then show "map c_str (take (length ?page) ?vs) ! i = map fst ?page ! i" using i len m by (simp add: nth_append)
  qed
  then show ?thesis
    using assms(8) [OF e'(2), of "int (length ?page)" ?vs] copy_rows_all [of "map fst ?page" "replicate (nat count) row"] len
    by (simp add: rop_zset_zrevrange_def cnt e'(1) mx)
qed

lemma ranking_items_up:
  assumes "public (ab e) = Some z" and "names (ab e) = Some h" and "rankable z h" and "map c_str vs = map fst page" and "set page \<subseteq> set z"
    and "\<And>e'. ab e' = ab e \<Longrightarrow> Q (0, cJSON_Array (items @ rank_items page h), e')"
  shows "returns (ranking_items sv vs (cJSON_Array items) e) Q"
  using assms
proof (induction vs arbitrary: page items e)
  case (Cons v vs)
  then obtain m s page' where page: "page = (m, s) # page'" "c_str v = m" by (cases page) auto
  have ms: "(m, s) \<in> set z" using Cons.prems(5) page(1) by simp
  then obtain nm where nm: "map_of h m = Some nm" "CHR 0x00 \<notin> set nm" "length nm < 1024" "0 \<le> s" "in_int s"
    using Cons.prems(3) by (auto simp: rankable_def split: option.splits)
  have s: "map_of z m = Some s" using ms Cons.prems(3) by (simp add: rankable_def)
  have "redis_exec [''hget'', FILE_NAME_HASH, m] (w_redis (ab e)) = Some (REPLY_STRING nm, w_redis (ab e))"
    using Cons.prems(2) nm(1) by (simp add: redis_exec_def exec_hget_def with_hash_def names_def)
  then obtain e1 where e1: "redisCommand sv [''hget'', FILE_NAME_HASH, m] e = (Some (REPLY_STRING nm), e1)" "ab e1 = ab e"
    by (rule redis_exact) simp
  have "redis_exec [''ZSCORE'', FILE_PUBLIC_ZSET, m] (w_redis (ab e1)) = Some (REPLY_STRING (show_int s), w_redis (ab e1))"
    using Cons.prems(1) s e1(2) by (simp add: redis_exec_def exec_zscore_def with_zset_def public_def)
  then obtain e2 where e2: "redisCommand sv [''ZSCORE'', FILE_PUBLIC_ZSET, m] e1 = (Some (REPLY_STRING (show_int s)), e2)" "ab e2 = ab e"
    by (rule redis_exact) (simp add: e1(2))
  have "returns (ranking_items sv vs (cJSON_Array (items @ [rank_item nm s])) e2) Q"
    by (rule Cons.IH [of e2 page']) (use Cons.prems e2(2) page nm(1) in \<open>auto simp: rank_items_def\<close>)
  moreover have "rop_hash_get sv FILE_NAME_HASH m 1024 [] e = Some (0, nm, e1)"
    using nm by (simp add: rop_hash_get_def e1(1) store_def VALUES_ID_SIZE_def)
  moreover have "rop_zset_get_score sv FILE_PUBLIC_ZSET m e1 = Some (s, e2)"
    using nm by (simp add: rop_zset_get_score_def e2(1) rop_test_reply_type_def c_atoi_show_int show_int_no_nul)
  ultimately show ?case
    using nm page(2) by (simp add: cJSON_CreateObject_def add_string_Object add_number_Object rank_item_def)
qed (simp add: rank_items_def)

lemma ranking_page_up:
  assumes "public (ab e) = Some z" and "names (ab e) = Some h" and "rankable z h"
    and "0 \<le> start" and "0 < count" and "in_int (start + count)"
    and "\<And>e'. ab e' = ab e \<Longrightarrow> Q (0, cJSON_Array (rank_items (rank_page start count z) h), e')"
  shows "returns (ranking_page sv start count e) Q"
proof -
  have ints: "in_int start" "in_int count" "in_int (start + count - 1)" using assms(4-6) by (simp_all add: in_int_def)
  have sum: "int_add start count = Some (start + count)" "int_add (start + count) (- 1) = Some (start + count - 1)"
    using assms(6) ints by (simp_all add: int_add_def)
  have sub: "set (rank_page start count z) \<subseteq> set z" using rank_page_mem by blast
  have "returns (ranking_items sv (take (nat n) vs) (cJSON_Array []) e') Q"
    if "ab e' = ab e" "map c_str (take (nat n) vs) = map fst (rank_page start count z)" for e' vs n
    by (rule ranking_items_up [OF _ _ assms(3) that(2) sub]) (use assms(1,2,7) that(1) in auto)
  then show ?thesis
    using assms(5) unfolding ranking_page_def
    by (auto simp: sum returns_bind cJSON_CreateArray_def intro!: zrevrange_up [OF assms(1,3,4,5) ints(1) assms(6) ints(2)])
qed

end

section \<open>Rebuilding\<close>

lemma update_new: "k \<notin> fst ` set xs \<Longrightarrow> AList.update k v xs = xs @ [(k, v)]"
  by (induction xs) auto

lemma keys_apart: "FILE_PUBLIC_ZSET \<noteq> FILE_NAME_HASH"
  by (simp add: FILE_PUBLIC_ZSET_def FILE_NAME_HASH_def)

lemma put_public: "public (d \<lparr>w_redis := put_zset FILE_PUBLIC_ZSET z db\<rparr>) = Some z"
    "names (d \<lparr>w_redis := put_zset FILE_PUBLIC_ZSET z db\<rparr>) = names (d \<lparr>w_redis := db\<rparr>)"
  using keys_apart by (simp_all add: public_def names_def put_zset_def)

text \<open>Two states that differ in the two ranking keys only, the second with the given set and names.\<close>

definition ranking_set :: "(string \<times> int) list \<Rightarrow> (string \<times> string) list \<Rightarrow> disk \<Rightarrow> disk \<Rightarrow> bool" where
  "ranking_set z h d d' \<longleftrightarrow> public d' = Some z \<and> names d' = Some h \<and> w_tables d' = w_tables d \<and> w_shell d' = w_shell d
     \<and> (\<forall>k. k \<notin> {FILE_PUBLIC_ZSET, FILE_NAME_HASH} \<longrightarrow> w_redis d' k = w_redis d k)"

lemma ranking_set_step:
  "ranking_set z h d (d \<lparr>w_redis := put_hash FILE_NAME_HASH h (put_zset FILE_PUBLIC_ZSET z (w_redis d))\<rparr>)"
  using keys_apart by (auto simp: ranking_set_def public_def names_def put_zset_def put_hash_def)

context disk_world_up
begin

lemma ranking_rows_up:
  assumes "public (ab e) = Some z" and "names (ab e) = Some h"
    and "distinct (map fst z @ map share_key rs)" and "map fst h = map fst z"
    and "\<forall>r \<in> set rs. length (share_key r) < 1024 \<and> in_int (s_pv r)"
    and "\<And>e'. ranking_set (z @ shares_zset rs) (h @ shares_names rs) (ab e) (ab e') \<Longrightarrow> Q (0, e')"
  shows "returns (ranking_rows sv (map (\<lambda>r. [Some (s_md5 r), Some (s_filename r), num_col (s_pv r)]) rs) e) Q"
  using assms
proof (induction rs arbitrary: z h e)
  case Nil
  have "ranking_set z h (ab e) (ab e)" using Nil.prems(1,2) by (simp add: ranking_set_def)
  then show ?case using Nil.prems(6) [of e] by (simp add: shares_zset_def shares_names_def)
next
  case (Cons r rs)
  let ?k = "share_key r" and ?z = "z @ [(share_key r, s_pv r)]" and ?h = "h @ [(share_key r, s_filename r)]"
  have "fst ` set h = fst ` set z" using arg_cong [OF Cons.prems(4), of set] by simp
  then have new: "AList.update ?k (s_pv r) z = ?z" "AList.update ?k (s_filename r) h = ?h"
    using Cons.prems(3) by (auto intro!: update_new)
  have rest: "returns (ranking_rows sv (map (\<lambda>r. [Some (s_md5 r), Some (s_filename r), num_col (s_pv r)]) rs) e') Q"
    if "ranking_set ?z ?h (ab e) (ab e')" for e'
    by (rule Cons.IH [of e' ?z ?h]) (use that Cons.prems in \<open>auto simp: ranking_set_def shares_zset_def shares_names_def\<close>)
  have hash: "returns (case rop_hash_set sv FILE_NAME_HASH ?k (s_filename r) e1 of (ret, e2) \<Rightarrow> f ret e2) Q"
    if "ab e1 = ab e \<lparr>w_redis := put_zset FILE_PUBLIC_ZSET ?z (w_redis (ab e))\<rparr>"
      "\<And>ret e2. ranking_set ?z ?h (ab e) (ab e2) \<Longrightarrow> returns (f ret e2) Q" for e1 f
    by (rule hash_set_up [where h = h]) (use that Cons.prems(2) in \<open>auto simp: put_public new ranking_set_step\<close>)
  show ?case
    using Cons.prems(5) rest
    by (auto simp: returns_bind returns_store num_col_def c_atoi_show_int Let_def new share_key_def [symmetric]
        intro!: zset_add_up [OF Cons.prems(1)] hash)
qed

lemma del_key_up:
  assumes "\<And>ret e'. ab e' = ab e \<lparr>w_redis := (w_redis (ab e)) (k := None)\<rparr> \<Longrightarrow> Q (ret, e')"
  shows "returns (rop_del_key sv k e) Q"
proof -
  have "redis_exec [''DEL'', k] (w_redis (ab e)) = Some (new_count (w_redis (ab e) k \<noteq> None), (w_redis (ab e)) (k := None))"
    by (simp add: redis_exec_def exec_del_def)
  then show ?thesis by (rule redis_exact) (use assms in \<open>auto simp: rop_del_key_def new_count_def\<close>)
qed

lemma zcard_up:
  assumes "public (ab e) = Some z" and "length z < 2 ^ 31" and "\<And>e'. ab e' = ab e \<Longrightarrow> Q (int (length z), e')"
  shows "returns (rop_zset_zcard sv FILE_PUBLIC_ZSET e) Q"
proof -
  have "redis_exec [''ZCARD'', FILE_PUBLIC_ZSET] (w_redis (ab e)) = Some (REPLY_INTEGER (int (length z)), w_redis (ab e))"
    using assms(1) by (simp add: redis_exec_def exec_zcard_def with_zset_def public_def)
  then show ?thesis
    by (rule redis_exact) (use assms(2,3) in \<open>auto simp: rop_zset_zcard_def to_int_id in_int_def\<close>)
qed

lemma rebuild_ranking_up:
  assumes "t_share_file_list (w_tables (ab e)) \<noteq> []" and "rs = by_pv (t_share_file_list (w_tables (ab e)))"
    and "rankable (shares_zset rs) (shares_names rs)"
    and "\<And>e'. ranking_set (shares_zset rs) (shares_names rs) (ab e) (ab e') \<Longrightarrow> Q (0, e')"
  shows "returns (rebuild_ranking sv e) Q"
proof -
  let ?rows = "map (\<lambda>r. [Some (s_md5 r), Some (s_filename r), num_col (s_pv r)]) rs"
  have sql: "sprintf_sql Sel_Ranking [] = Some (sql_text Sel_Ranking [])"
    using sql_text_short [of "[]" Sel_Ranking] by (simp add: sprintf_sql_def SQL_MAX_LEN_def store_def)
  have ne: "?rows \<noteq> []" using assms(1,2) by (simp add: by_pv_def flip: length_greater_0_conv)
  have ok: "distinct (map share_key rs)" "\<forall>r \<in> set rs. length (share_key r) < 1024 \<and> in_int (s_pv r)"
    using assms(3) by (auto simp: rankable_def shares_zset_def comp_def VALUES_ID_SIZE_def)
  define d1 where "d1 = ab e \<lparr>w_redis := (w_redis (ab e)) (FILE_PUBLIC_ZSET := None, FILE_NAME_HASH := None)\<rparr>"
  have d1: "public d1 = Some []" "names d1 = Some []" using keys_apart by (simp_all add: d1_def public_def names_def)
  have rows: "returns (ranking_rows sv ?rows e') Q" if "ab e' = d1" for e'
  proof (rule ranking_rows_up [where z = "[]" and h = "[]"])
    fix e'' assume "ranking_set ([] @ shares_zset rs) ([] @ shares_names rs) (ab e') (ab e'')"
    then have "ranking_set (shares_zset rs) (shares_names rs) (ab e) (ab e'')" by (simp add: ranking_set_def that d1_def)
    then show "Q (0, e'')" by (rule assms(4))
  qed (use ok that d1 in simp_all)
  note select = select_list_up [where k = Sel_Ranking and args = "[]" and rows = ?rows]
  show ?thesis
    unfolding rebuild_ranking_def using rows ne assms(2)
    by (auto simp: returns_bind sql by_pv_def d1_def intro!: del_key_up select)
qed

end

section \<open>The handler\<close>

text \<open>The set and the names that are shown: the ones in Redis, or new ones if their number is not the one counted.\<close>

definition shown :: "count_row \<Rightarrow> (string \<times> int) list \<Rightarrow> (string \<times> string) list \<Rightarrow> tables \<Rightarrow> (string \<times> int) list \<times> (string \<times> string) list" where
  "shown sc z h t =
     (let rs = by_pv (t_share_file_list t)
      in if int (length z) = c_count sc then (z, h) else (shares_zset rs, shares_names rs))"

lemma rank_page_sorted: "sorted_wrt (\<lambda>a b. snd b \<le> snd a) (rank_page start count z)"
proof -
  have "sorted (map (\<lambda>(m, s). (s, m)) (sort_key (\<lambda>(m, s). (s, m)) z))" by simp
  then have "sorted_wrt (\<lambda>a b. snd a \<le> snd b) (sort_key (\<lambda>(m, s). (s, m)) z)"
    unfolding sorted_map by (rule sorted_wrt_mono_rel [rotated]) (auto simp: less_eq_prod_def)
  then show ?thesis by (simp add: rank_page_def ranked_def sorted_wrt_rev sorted_wrt_take sorted_wrt_drop)
qed

lemma canonical_rank_items:
  assumes "rankable z h" and "set page \<subseteq> set z"
  shows "list_all canonical (rank_items page h)" and "list_all (\<lambda>v. nesting v \<le> 1) (rank_items page h)"
proof -
  have "canonical (rank_item (the (map_of h m)) s)" if "(m, s) \<in> set page" for m s
    using assms that by (fastforce simp: rankable_def rank_item_def canonical_number split: option.splits)
  then show "list_all canonical (rank_items page h)" by (auto simp: rank_items_def list_all_iff)
  show "list_all (\<lambda>v. nesting v \<le> 1) (rank_items page h)" by (auto simp: rank_items_def list_all_iff rank_item_def number_def)
qed

context disk_world_up
begin

lemma ranking_body_up:
  assumes "find (count_of share_user) (t_user_file_count (w_tables (ab e))) = Some sc" and "counts_in 9 (t_user_file_count (w_tables (ab e)))"
    and "public (ab e) = Some z" and "names (ab e) = Some h" and "length z < 2 ^ 31" and "t_share_file_list (w_tables (ab e)) \<noteq> []"
    and "shown sc z h (w_tables (ab e)) = (z', h')" and "rankable z' h'" and "0 \<le> start" and "0 < count" and "in_int (start + count)"
    and "\<And>e'. ranking_set z' h' (ab e) (ab e') \<Longrightarrow> Q (0, cJSON_Array (rank_items (rank_page start count z') h'), e')"
  shows "returns (ranking_body sv start count e) Q"
proof -
  have sel: "returns (select_one sv Sel_Count_Of [S share_user] (Some (512, [])) e) Q'"
    if "\<And>e'. ab e' = ab e \<Longrightarrow> Q' (0, show_int (c_count sc), e')" for Q'
    by (rule select_num_up [where P = "count_of share_user" and g = c_count and rs = "t_user_file_count (w_tables (ab e))"])
      (use assms(1,2) that share_user_plain in \<open>auto simp: short_args_def piece_defs counts_in_def in_limit_int share_user_def plain_def dq_def\<close>)
  have int: "in_int (c_count sc)" using find_found(1) [OF assms(1)] assms(2) by (auto simp: counts_in_def dest!: in_limit_int)
  have page: "returns (ranking_page sv start count e') Q" if "ranking_set z' h' (ab e) (ab e')" for e'
    by (rule ranking_page_up [OF _ _ assms(8-11)]) (use that assms(12) in \<open>auto simp: ranking_set_def\<close>)
  have same: "ranking_set z h (ab e) (ab e')" if "ab e' = ab e" for e' using assms(3,4) that by (simp add: ranking_set_def)
  show ?thesis
  proof (cases "int (length z) = c_count sc")
    case True
    then have "z' = z" "h' = h" using assms(7) by (simp_all add: shown_def Let_def)
    then show ?thesis
      unfolding ranking_body_def using assms(3,5) page same True
      by (auto simp: ret_simps c_atoi_show_int int [folded True] simp flip: True intro!: sel zcard_up [where z = z])
  next
    case False
    let ?rs = "by_pv (t_share_file_list (w_tables (ab e)))"
    have z': "z' = shares_zset ?rs" "h' = shares_names ?rs" using assms(7) False by (simp_all add: shown_def Let_def)
    have rebuild: "returns (rebuild_ranking sv e') Q'" if "ab e' = ab e" "\<And>e''. ranking_set z' h' (ab e) (ab e'') \<Longrightarrow> Q' (0, e'')" for e' Q'
      by (rule rebuild_ranking_up [where rs = ?rs]) (use assms(6,8) that z' in auto)
    show ?thesis
      unfolding ranking_body_def using assms(3,5) page False
      by (auto simp: ret_simps c_atoi_show_int int intro!: sel zcard_up [where z = z] rebuild)
  qed
qed

lemma ranking_filelist_up:
  assumes "port_of (redis_port g) \<noteq> None"
    and "find (count_of share_user) (t_user_file_count (w_tables (ab e))) = Some sc" and "counts_in 9 (t_user_file_count (w_tables (ab e)))"
    and "public (ab e) = Some z" and "names (ab e) = Some h" and "length z < 2 ^ 31" and "t_share_file_list (w_tables (ab e)) \<noteq> []"
    and "shown sc z h (w_tables (ab e)) = (z', h')" and "rankable z' h'" and "0 \<le> start" and "0 < count" and "in_int (start + count)"
    and "length (json_text True 0 (files_answer (rank_items (rank_page start count z') h'))) + 2 \<le> INT_MAX"
    and "\<And>e'. ranking_set z' h' (ab e) (ab e') \<Longrightarrow> Q (0, json_text True 0 (files_answer (rank_items (rank_page start count z') h')), e')"
  shows "returns (get_ranking_filelist sv g start count e) Q"
proof -
  have "set (rank_page start count z') \<subseteq> set z'" using rank_page_mem by blast
  note items = canonical_rank_items [OF assms(9) this]
  have body: "returns (ranking_body sv start count e') Q'"
    if "ab e' = ab e" "\<And>e''. ranking_set z' h' (ab e) (ab e'') \<Longrightarrow> Q' (0, cJSON_Array (rank_items (rank_page start count z') h'), e'')" for e' Q'
    by (rule ranking_body_up [where sc = sc and z = z and h = h]) (use assms(2-12) that in auto)
  show ?thesis
    unfolding get_ranking_filelist_def using assms(14) print_files_answer(1) [OF items assms(13)]
    by (auto simp: ret_simps intro!: connectdb_up [OF assms(1)] conn_up body)
qed

end

text \<open>
  C12: the ranking of the shared files. The answer is the JSON text of a page of the files with their numbers
  of downloads, highest first. If the counted number of shares is not the number of members of the Redis set, the set and
  the names are first rebuilt from the table of shares, exactly; nothing else in Redis or in the tables changes.
\<close>

theorem ranking_correct:
  assumes "disk_world_up sv ab cfg" and "port_of (redis_port g) \<noteq> None"
    and "find (count_of share_user) (t_user_file_count (w_tables (ab e))) = Some sc" and "bounded 0 (w_tables (ab e))"
    and "public (ab e) = Some z" and "names (ab e) = Some h" and "length z < 2 ^ 31" and "t_share_file_list (w_tables (ab e)) \<noteq> []"
    and "shown sc z h (w_tables (ab e)) = (z', h')" and "rankable z' h'" and "0 \<le> start" and "0 < count" and "in_int (start + count)"
    and "length (json_text True 0 (files_answer (rank_items (rank_page start count z') h'))) + 2 \<le> INT_MAX"
  shows "returns (get_ranking_filelist sv g start count e) (\<lambda>(ret, out, e'). ret = 0
      \<and> cJSON_Parse out = Ok (files_answer (rank_items (rank_page start count z') h'))
      \<and> sorted_wrt (\<lambda>a b. snd b \<le> snd a) (rank_page start count z') \<and> ranking_set z' h' (ab e) (ab e'))"
proof -
  have "set (rank_page start count z') \<subseteq> set z'" using rank_page_mem by blast
  note items = canonical_rank_items [OF assms(10) this]
  have "counts_in 9 (t_user_file_count (w_tables (ab e)))" using bounded_9 [OF assms(4)] by simp
  from disk_world_up.ranking_filelist_up [OF assms(1,2,3) this assms(5-14)] print_files_answer(2) [OF items assms(14)]
  show ?thesis by (auto simp: rank_page_sorted)
qed

theorem ranking_correct_witness:
  "returns (get_ranking_filelist ref_up globals0 0 10 (disk3 \<lparr>w_redis := Map.empty\<rparr>)) (\<lambda>(ret, out, e').
      cJSON_Parse out = Ok (files_answer [rank_item ''a.txt'' 0]) \<and> public e' = Some [(''0aa.txt'', 0)] \<and> names e' = Some [(''0aa.txt'', ''a.txt'')])"
proof -
  let ?d = "disk3 \<lparr>w_redis := Map.empty\<rparr>" and ?sc = "\<lparr>c_user = share_user, c_count = 1\<rparr>"
  let ?z = "[(''0aa.txt'', 0 :: int)]" and ?h = "[(''0aa.txt'', ''a.txt'')]"
  have start: "find (count_of share_user) (t_user_file_count (w_tables (id ?d))) = Some ?sc" "bounded 0 (w_tables (id ?d))"
    "public (id ?d) = Some []" "names (id ?d) = Some []" "t_share_file_list (w_tables (id ?d)) \<noteq> []"
    using disk3_ok(1,5) by (simp_all add: public_def names_def disk3_def)
  have shown: "shown ?sc [] [] (w_tables (id ?d)) = (?z, ?h)"
    by (simp add: shown_def by_pv_def shares_zset_def shares_names_def share_key_def disk3_def)
  have ok: "rankable ?z ?h" by (simp add: rankable_def VALUES_ID_SIZE_def in_int_def)
  have items: "rank_items (rank_page 0 10 ?z) ?h = [rank_item ''a.txt'' 0]" by (simp add: rank_items_def rank_page_def ranked_def)
  have len: "length (json_text True 0 (files_answer (rank_items (rank_page 0 10 ?z) ?h))) + 2 \<le> INT_MAX"
    using int_text [of "dbl_of_int 0" 0] show_int_length [of 0] unfolding items
    by (simp add: files_answer_def rank_item_def number_def escape_def escape_char_def quote_char_def backslash_def INT_MAX_def INT_MIN_def in_int_def)
  have port: "port_of (redis_port globals0) \<noteq> None" by code_simp
  show ?thesis
    by (rule returns_mono [OF ranking_correct [OF ref_up.disk_world_up_axioms port start(1-4) _ start(5) shown ok _ _ _ len]])
      (auto simp: ranking_set_def items in_int_def)
qed

end
