(* ===== verification/Disk_Upload.thy ===== *)
theory Disk_Upload
  imports Cgi_Upload Disk_Invariant
begin

text \<open>
  What \<open>recv_save_file\<close> of \<open>src/src/cgi/cgi_upload.c\<close> makes of form data as a browser sends them.
\<close>

section \<open>Form data\<close>

text \<open>
  The parts of a body: the boundary line, the header line of the first part, the fields of the info line, the two
  header lines of the second part, the contents of the file.
\<close>

record upload =
  up_boundary :: string
  up_header1 :: string
  up_user :: string
  up_filename :: string
  up_md5 :: string
  up_size :: string
  up_header2 :: string
  up_header3 :: string
  up_data :: string

definition up_info :: "upload \<Rightarrow> string" where
  "up_info u = up_user u @ ''|'' @ up_filename u @ ''|'' @ up_md5 u @ ''|'' @ up_size u"

definition up_front :: "upload \<Rightarrow> string" where
  "up_front u = up_boundary u @ crlf @ up_header1 u @ crlf @ crlf @ up_info u @ crlf
     @ up_boundary u @ crlf @ up_header2 u @ crlf @ up_header3 u @ crlf @ crlf"

definition up_body :: "upload \<Rightarrow> string" where
  "up_body u = up_front u @ up_data u @ crlf @ up_boundary u @ ''--''"

definition a_line :: "string \<Rightarrow> bool" where
  "a_line s \<longleftrightarrow> CHR 0x0D \<notin> set s \<and> CHR 0x00 \<notin> set s"

definition a_field :: "string \<Rightarrow> nat \<Rightarrow> bool" where
  "a_field s n \<longleftrightarrow> a_line s \<and> CHR ''|'' \<notin> set s \<and> s \<noteq> [] \<and> length s < n"

text \<open>Lines and fields that fit their arrays; nothing is required of the contents.\<close>

definition up_ok :: "upload \<Rightarrow> bool" where
  "up_ok u \<longleftrightarrow> a_line (up_boundary u) \<and> up_boundary u \<noteq> [] \<and> length (up_boundary u) < TEMP_BUF_MAX_LEN
     \<and> a_line (up_header1 u) \<and> length (up_header1 u) \<le> TEMP_BUF_MAX_LEN
     \<and> a_field (up_user u) USER_NAME_LEN \<and> a_field (up_filename u) FILE_NAME_LEN \<and> a_field (up_md5 u) MD5_LEN \<and> a_field (up_size u) 128
     \<and> length (up_info u) < TEMP_BUF_MAX_LEN \<and> a_line (up_header2 u) \<and> a_line (up_header3 u)"

section \<open>Lines and fields\<close>

lemma scan_line: "a_line s \<Longrightarrow> scan (s @ crlf @ rest) crlf = Some (Some (length s))"
  by (induction s) (auto simp: a_line_def crlf_def)

lemma next_line_at: "a_line s \<Longrightarrow> length pre = p \<Longrightarrow> next_line (pre @ s @ crlf @ rest) p = Some (p + length s + 2)"
  by (auto simp: next_line_def scan_line)

lemma split_bar_ne: "split_bar s \<noteq> []"
  by (induction s) (auto split: list.splits)

lemma split_bar_plain: "CHR ''|'' \<notin> set s \<Longrightarrow> split_bar s = [s]"
  by (induction s) auto

lemma split_bar_field: "CHR ''|'' \<notin> set s \<Longrightarrow> split_bar (s @ CHR ''|'' # rest) = s # split_bar rest"
  by (induction s) auto

lemma upload_info_fields:
  assumes "up_ok u"
  shows "upload_info (up_info u) = Some (up_user u, up_filename u, up_md5 u)"
  using assms by (simp add: up_ok_def a_field_def upload_info_def strtok_bar_def up_info_def split_bar_field split_bar_plain store_def)

lemma up_info_line: "up_ok u \<Longrightarrow> a_line (up_info u)"
  by (auto simp: up_ok_def a_field_def a_line_def up_info_def)

lemma upload_header_front:
  assumes "up_ok u"
  shows "upload_header (up_front u @ rest) =
    Some (Some (up_boundary u, up_info u, length (up_boundary u) + length (up_header1 u) + length (up_info u) + 6))"
proof -
  let ?b = "up_boundary u" and ?h = "up_header1 u" and ?i = "up_info u"
  define tail where "tail = up_boundary u @ crlf @ up_header2 u @ crlf @ up_header3 u @ crlf @ crlf @ rest"
  define buf where "buf = up_front u @ rest"
  have buf: "buf = ?b @ crlf @ ?h @ crlf @ crlf @ ?i @ crlf @ tail" by (simp add: buf_def up_front_def tail_def)
  have lines: "a_line ?b" "a_line ?h" "a_line ?i" using assms up_info_line [OF assms] by (simp_all add: up_ok_def)
  have fit: "length ?b < TEMP_BUF_MAX_LEN" "length ?h \<le> TEMP_BUF_MAX_LEN" "length ?i < TEMP_BUF_MAX_LEN"
    using assms by (simp_all add: up_ok_def)
  have crlf: "length crlf = 2" by (simp add: crlf_def)
  have "scan buf crlf = Some (Some (length ?b))" using scan_line [OF lines(1)] by (simp add: buf)
  moreover have "take (length ?b) buf = ?b" by (simp add: buf)
  moreover have "next_line buf (length ?b + 2) = Some (length ?b + length ?h + 4)"
    using next_line_at [OF lines(2), of "?b @ crlf" "length ?b + 2" "crlf @ ?i @ crlf @ tail"] by (simp add: buf crlf)
  moreover have "take (length ?h) (drop (length ?b + 2) buf) = ?h" by (simp add: buf crlf)
  moreover have "drop (length ?b + length ?h + 6) buf = ?i @ crlf @ tail" by (simp add: buf crlf)
  ultimately have "upload_header buf = Some (Some (?b, ?i, length ?b + length ?h + length ?i + 6))"
    using fit scan_line [OF lines(3), of tail]
    by (simp add: upload_header_def store_def min_less_iff_disj add.commute add.left_commute numeral_eq_Suc)
  then show ?thesis by (simp only: buf_def)
qed

lemma next_lines:
  assumes "up_ok u" and "p = length (up_boundary u) + length (up_header1 u) + length (up_info u) + 6"
  shows "do { p \<leftarrow> next_line (up_front u @ rest) (p + 2); p \<leftarrow> next_line (up_front u @ rest) p; next_line (up_front u @ rest) p }
    = Some (length (up_front u) - 2)"
proof -
  define pre where "pre = up_boundary u @ crlf @ up_header1 u @ crlf @ crlf @ up_info u @ crlf"
  have lines: "a_line (up_boundary u)" "a_line (up_header2 u)" "a_line (up_header3 u)" using assms by (simp_all add: up_ok_def)
  have crlf: "length crlf = 2" by (simp add: crlf_def)
  have pre: "length pre = p + 2" using assms(2) by (simp add: pre_def crlf)
  define buf where "buf = up_front u @ rest"
  have buf: "buf = pre @ up_boundary u @ crlf @ up_header2 u @ crlf @ up_header3 u @ crlf @ crlf @ rest"
    by (simp add: buf_def up_front_def pre_def)
  have "next_line buf (p + 2) = Some (p + 2 + length (up_boundary u) + 2)"
    unfolding buf by (rule next_line_at [OF lines(1) pre])
  moreover have "next_line buf (p + 2 + length (up_boundary u) + 2) = Some (p + 2 + length (up_boundary u) + 2 + length (up_header2 u) + 2)"
    using next_line_at [OF lines(2), of "pre @ up_boundary u @ crlf" _ "up_header3 u @ crlf @ crlf @ rest"] by (simp add: buf pre crlf)
  moreover have "next_line buf (p + 2 + length (up_boundary u) + 2 + length (up_header2 u) + 2)
      = Some (p + 2 + length (up_boundary u) + 2 + length (up_header2 u) + 2 + length (up_header3 u) + 2)"
    using next_line_at [OF lines(3), of "pre @ up_boundary u @ crlf @ up_header2 u @ crlf" _ "crlf @ rest"] by (simp add: buf pre crlf add.assoc)
  moreover have "length (up_front u) - 2 = p + 2 + length (up_boundary u) + 2 + length (up_header2 u) + 2 + length (up_header3 u) + 2"
    using assms(2) by (simp add: up_front_def crlf)
  ultimately show ?thesis unfolding buf_def by (simp del: add_2_eq_Suc')
qed

section \<open>The end of the contents\<close>

text \<open>
  \<open>memstr\<close> with a length beyond the data: it stops at the first occurrence of the pattern, and reads behind the
  data if there is none.
\<close>

lemma memstr_loop_first:
  assumes "strstr data substr = Some k" and "substr \<noteq> []" and "k < n" and "i \<le> k"
  shows "memstr_loop data n substr i = Some (Some k)"
  using assms(4)
proof (induction "k - i" arbitrary: i)
  case 0
  then have "i = k" by simp
  moreover have "take (length substr) (drop k data) = substr" "k + length substr \<le> length data" using strstr_Some [OF assms(1)] by simp_all
  moreover from this have "data ! k = hd substr"
    using assms(2) by (metis hd_drop_conv_nth hd_take length_greater_0_conv less_le_trans less_add_same_cancel1)
  ultimately show ?case using assms(2,3) by (subst memstr_loop.simps) auto
next
  case (Suc m)
  then have i: "i < k" by simp
  have "k + length substr \<le> length data" using strstr_Some [OF assms(1)] by simp
  moreover have "take (length substr) (drop i data) \<noteq> substr" using strstr_first [OF assms(1) i] .
  moreover have "memstr_loop data n substr (i + 1) = Some (Some k)" using Suc i by simp
  ultimately show ?case using i assms(3) by (subst memstr_loop.simps) auto
qed

lemma memstr_loop_overread:
  assumes "strstr data substr = None" and "length data < n" and "i \<le> length data"
  shows "memstr_loop data n substr i = None"
  using assms(3)
proof (induction "length data - i" arbitrary: i)
  case 0
  then show ?case using assms(2) by (subst memstr_loop.simps) auto
next
  case (Suc m)
  moreover have "take (length substr) (drop i data) \<noteq> substr" using assms(1) Suc.prems by (simp add: strstr_None)
  ultimately show ?case using assms(2) by (subst memstr_loop.simps) auto
qed

lemma upload_contents_front:
  assumes "up_ok u" and "p = length (up_boundary u) + length (up_header1 u) + length (up_info u) + 6"
  shows "upload_contents (up_front u @ rest) len boundary p = do {
      r \<leftarrow> memstr rest (to_int (len + int (length (up_front u)))) boundary;
      (case r of None \<Rightarrow> Some None | Some i \<Rightarrow> if i < 2 then None else Some (Some (take (i - 2) rest)))
    }"
proof -
  have front: "length (up_front u) - 2 + 2 = length (up_front u)" by (simp add: up_front_def crlf_def)
  have "upload_contents (up_front u @ rest) len boundary p = do {
      p \<leftarrow> do { p \<leftarrow> next_line (up_front u @ rest) (p + 2); p \<leftarrow> next_line (up_front u @ rest) p; next_line (up_front u @ rest) p };
      let data = p + 2;
      if length (up_front u @ rest) < data then None
      else do {
        r \<leftarrow> memstr (drop data (up_front u @ rest)) (to_int (len + int data)) boundary;
        (case r of None \<Rightarrow> Some None | Some i \<Rightarrow> if i < 2 then None else Some (Some (take (i - 2) (drop data (up_front u @ rest)))))
      }
    }" unfolding upload_contents_def by simp
  then show ?thesis
    unfolding next_lines [OF assms]
    by (cases "memstr rest (to_int (len + int (length (up_front u)))) boundary") (auto simp: front Let_def simp del: add_2_eq_Suc' split: option.splits)
qed

lemma recv_save_file_front:
  assumes "up_ok u" and "buf = up_front u @ rest" and "nat len = length buf"
  shows "recv_save_file sv True len (buf @ later) arrays e = do {
      r \<leftarrow> memstr rest (to_int (len + int (length (up_front u)))) (up_boundary u);
      contents \<leftarrow> (case r of None \<Rightarrow> Some None | Some i \<Rightarrow> if i < 2 then None else Some (Some (take (i - 2) rest)));
      (case contents of
         None \<Rightarrow> Some (- 1, (up_user u, up_filename u, up_md5 u), e)
       | Some contents \<Rightarrow>
           let (ok, e) = write_file sv (up_filename u) contents e
           in Some (if \<not> ok then - 1 else 0, (up_user u, up_filename u, up_md5 u), e))
    }"
proof -
  have "buf \<noteq> []" using assms(1,2) by (auto simp: up_front_def up_ok_def)
  then show ?thesis
    using upload_contents_front [OF assms(1) refl, of rest len "up_boundary u"] upload_header_front [OF assms(1), of rest]
    by (cases "memstr rest (to_int (len + int (length (up_front u)))) (up_boundary u)")
      (auto simp: recv_save_file_def assms(3) upload_info_fields [OF assms(1)] Let_def split: option.splits simp flip: assms(2))
qed

lemma strstr_extend: "strstr (pre @ key) key = Some (length pre) \<Longrightarrow> strstr (pre @ key @ post) key = Some (length pre)"
proof (rule strstr_upto)
  fix j
  assume "strstr (pre @ key) key = Some (length pre)" and j: "j < length pre"
  from strstr_first [OF this] show "take (length key) (drop j (pre @ key @ post)) \<noteq> key" using j by simp
qed

lemma recv_save_file_saves:
  assumes "up_ok u" and "length (up_body u) < 2 ^ 30"
    and "strstr (up_data u @ crlf @ up_boundary u) (up_boundary u) = Some (length (up_data u) + 2)"
  shows "recv_save_file sv True (int (length (up_body u))) (up_body u @ later) arrays e =
      (let (ok, e) = write_file sv (up_filename u) (up_data u) e
       in Some (if ok then 0 else - 1, (up_user u, up_filename u, up_md5 u), e))"
proof -
  let ?b = "up_boundary u"
  have b: "?b \<noteq> []" "length ?b \<le> length (up_front u)" using assms(1) by (simp_all add: up_ok_def up_front_def)
  have first: "strstr (up_data u @ crlf @ ?b @ ''--'') ?b = Some (length (up_data u) + 2)"
    using strstr_extend [of "up_data u @ crlf" ?b "''--''"] assms(3) by (simp add: crlf_def)
  define len where "len = int (length (up_body u)) + int (length (up_front u))"
  have "in_int len" using assms(2) by (simp add: len_def in_int_def up_body_def)
  have "memstr (up_data u @ crlf @ ?b @ ''--'') (to_int len) ?b = Some (Some (length (up_data u) + 2))"
    unfolding to_int_id [OF \<open>in_int len\<close>] memstr_def using b memstr_loop_first [OF first b(1), where i = 0]
    by (simp add: len_def up_body_def crlf_def)
  then show ?thesis
    using recv_save_file_front [OF assms(1) up_body_def, of "int (length (up_body u))" sv later arrays e]
    by (simp add: len_def split: prod.splits)
qed

lemma recv_save_file_overread:
  assumes "up_ok u" and "length (up_body u) < 2 ^ 30" and "strstr (up_data u) (up_boundary u) = None"
  shows "recv_save_file sv True (int (length (up_front u @ up_data u))) (up_front u @ up_data u) arrays e = None"
proof -
  let ?b = "up_boundary u"
  have b: "?b \<noteq> []" "length ?b < length (up_front u)" using assms(1) by (simp_all add: up_ok_def up_front_def crlf_def)
  define len where "len = int (length (up_front u @ up_data u)) + int (length (up_front u))"
  have "in_int len" using assms(2) by (simp add: len_def in_int_def up_body_def)
  have "memstr (up_data u) (to_int len) ?b = None"
    unfolding to_int_id [OF \<open>in_int len\<close>] memstr_def using b memstr_loop_overread [OF assms(3), where i = 0] by (simp add: len_def)
  then show ?thesis
    using recv_save_file_front [OF assms(1), of "up_front u @ up_data u" "up_data u" "int (length (up_front u @ up_data u))" sv "[]"]
    by (simp add: len_def)
qed

text \<open>
  C10: from the form data of a browser \<open>recv_save_file\<close> takes the user, the file name and the MD5 sum, and writes
  exactly the bytes between the headers and the closing boundary under the file name, whatever they are (NUL
  bytes included), provided the boundary does not occur earlier. If the closing boundary is missing, it reads
  behind the end of the data received: the length it passes to \<open>memstr\<close> is too large by twice the
  offset of the contents.
\<close>

theorem recv_save_file_correct:
  assumes "up_ok u" and "length (up_body u) < 2 ^ 30"
  shows "(strstr (up_data u @ crlf @ up_boundary u) (up_boundary u) = Some (length (up_data u) + 2) \<longrightarrow>
      recv_save_file sv True (int (length (up_body u))) (up_body u @ later) arrays e =
        (let (ok, e) = write_file sv (up_filename u) (up_data u) e
         in Some (if ok then 0 else - 1, (up_user u, up_filename u, up_md5 u), e)))
    \<and> (strstr (up_data u) (up_boundary u) = None \<longrightarrow>
      recv_save_file sv True (int (length (up_front u @ up_data u))) (up_front u @ up_data u) arrays e = None)"
  by (simp add: recv_save_file_saves [OF assms] recv_save_file_overread [OF assms] del: length_append)

definition upload0 :: upload where
  "upload0 = \<lparr>up_boundary = ''--X7'', up_header1 = ''Content-Disposition: form-data'', up_user = ''ann'', up_filename = ''a.txt'',
     up_md5 = ''0a'', up_size = ''5'', up_header2 = ''Content-Disposition: form-data'', up_header3 = ''Content-Type: text/plain'',
     up_data = [CHR ''a'', CHR 0x00, CHR ''-'', CHR ''-'', CHR 0x0A]\<rparr>"

theorem recv_save_file_correct_witness:
  "recv_save_file ref_up True (int (length (up_body upload0))) (up_body upload0 @ []) ([], [], []) disk0 = Some (0, (''ann'', ''a.txt'', ''0a''), disk0)
   \<and> recv_save_file ref_up True (int (length (up_front upload0 @ up_data upload0))) (up_front upload0 @ up_data upload0) ([], [], []) disk0 = None"
proof -
  have "up_ok upload0" by (simp add: up_ok_def upload0_def a_field_def a_line_def up_info_def array_sizes)
  moreover have "length (up_body upload0) < 2 ^ 30" by (simp add: up_body_def up_front_def up_info_def upload0_def crlf_def)
  moreover have "strstr (up_data upload0 @ crlf @ up_boundary upload0) (up_boundary upload0) = Some (length (up_data upload0) + 2)"
    "strstr (up_data upload0) (up_boundary upload0) = None"
    by (simp_all add: upload0_def crlf_def)
  moreover have "up_user upload0 = ''ann''" "up_filename upload0 = ''a.txt''" "up_md5 upload0 = ''0a''" by (simp_all add: upload0_def)
  moreover have "write_file ref_up = (\<lambda>path contents. Pair True)" by (simp add: ref_up_def)
  ultimately show ?thesis
    using recv_save_file_correct [of upload0 ref_up "[]" "([], [], [])" disk0] by simp
qed

end
