(* ===== verification/Disk_Store.thy ===== *)
theory Disk_Store
  imports Disk_Upload Disk_Account
begin

text \<open>
  A whole request of the program \<open>upload\<close>: from the form data over the local file and the FastDFS tools to the
  tables.
\<close>

section \<open>The storage\<close>

text \<open>The files in the working directory, and those in FastDFS by their identifiers.\<close>

record space =
  sp_local :: "string \<rightharpoonup> string"
  sp_dfs :: "string \<rightharpoonup> string"

definition put_local :: "string \<Rightarrow> string option \<Rightarrow> space \<Rightarrow> space" where
  "put_local path contents s = s \<lparr>sp_local := (sp_local s)(path := contents)\<rparr>"

definition put_dfs :: "string \<Rightarrow> string \<Rightarrow> space \<Rightarrow> space" where
  "put_dfs fileid contents s = s \<lparr>sp_dfs := (sp_dfs s)(fileid \<mapsto> contents)\<rparr>"

definition file_name :: "string \<Rightarrow> bool" where
  "file_name path \<longleftrightarrow> path \<notin> {[], ''.'', ''..''} \<and> CHR ''/'' \<notin> set path"

text \<open>
  An identifier of FastDFS (a group of at most 16 bytes, the path, 27 characters of name and a suffix of at most 6),
  the address of a host, and a report of \<open>fdfs_file_info\<close>, which has a line with this address.
\<close>

definition fileid_ok :: "string \<Rightarrow> bool" where
  "fileid_ok fileid \<longleftrightarrow> fileid \<noteq> [] \<and> length fileid \<le> 64 \<and> list_all (\<lambda>c. plain sq c \<and> \<not> c_isspace c \<and> c \<noteq> CHR 0x00) fileid"

definition host_ok :: "string \<Rightarrow> bool" where
  "host_ok h \<longleftrightarrow> length h < HOST_NAME_LEN \<and> list_all (\<lambda>c. plain sq c \<and> c \<noteq> CHR 0x0A) h"

definition report_of :: "string \<Rightarrow> string \<Rightarrow> bool" where
  "report_of h s \<longleftrightarrow> (\<exists>before after. s = before @ source_ip @ h @ newline @ after \<and> strstr s source_ip = Some (length before))
     \<and> length s < TEMP_BUF_MAX_LEN \<and> CHR 0x00 \<notin> set s"

definition url_of :: "cJSON \<Rightarrow> (string \<Rightarrow> string) \<Rightarrow> string \<Rightarrow> string" where
  "url_of cfg host fileid = ''http://'' @ host fileid @ '':'' @ cfg_at cfg ''storage_web_server'' ''port'' @ ''/'' @ fileid"

text \<open>A new file and its first entry.\<close>

definition new_file :: "string \<Rightarrow> string \<Rightarrow> string \<Rightarrow> int \<Rightarrow> string \<Rightarrow> file_row" where
  "new_file md5 fileid url fsize suffix =
     \<lparr>f_md5 = md5, f_file_id = fileid, f_url = url, f_size = show_int fsize, f_type = suffix, f_count = 1\<rparr>"

definition add_file :: "file_row \<Rightarrow> list_row \<Rightarrow> tables \<Rightarrow> tables" where
  "add_file f r t = t
     \<lparr>t_file_info := t_file_info t @ [f], t_user_file_list := t_user_file_list t @ [r],
      t_user_file_count := bump_count (l_user r) (t_user_file_count t)\<rparr>"

lemma suffix_plain: "list_all (plain sq) p \<Longrightarrow> list_all (plain sq) (get_file_suffix p)"
  by (auto simp: get_file_suffix_def Let_def list_all_iff plain_def sq_def dest!: in_set_takeD in_set_dropD)

lemma trim_fileid:
  assumes "fileid_ok fileid"
  shows "trim_space (fileid @ newline) = Some fileid" and "pipe_text (fileid @ newline) = Some (fileid @ newline)"
proof -
  have chars: "fileid \<noteq> []" "\<forall>c \<in> set fileid. \<not> c_isspace c" "CHR 0x00 \<notin> set fileid" "length fileid \<le> 64"
    using assms by (auto simp: fileid_ok_def list_all_iff)
  have "c_isspace (CHR 0x0A)" by (simp add: c_isspace_def)
  moreover have "takeWhile c_isspace (fileid @ newline) = []" "dropWhile c_isspace (fileid @ newline) = fileid @ newline"
    using chars(1,2) by (cases fileid; simp)+
  moreover have "dropWhile c_isspace (rev fileid) = rev fileid" using chars(1,2) by (cases fileid rule: rev_cases) auto
  ultimately show "trim_space (fileid @ newline) = Some fileid" using chars(1) by (simp add: trim_space_eq newline_def)
  show "pipe_text (fileid @ newline) = Some (fileid @ newline)" using chars(3,4) by (simp add: pipe_text_def array_sizes newline_def)
qed

lemma report_host:
  assumes "report_of h s" and "host_ok h"
  shows "pipe_text s = Some s"
    and "do { p \<leftarrow> strstr s source_ip; let q = drop (p + length source_ip) s; k \<leftarrow> strstr q newline; store HOST_NAME_LEN (take k q) } = Some h"
proof -
  obtain before after where s: "s = before @ source_ip @ h @ newline @ after" "strstr s source_ip = Some (length before)"
    "length s < TEMP_BUF_MAX_LEN" "CHR 0x00 \<notin> set s" using assms(1) by (auto simp: report_of_def)
  show "pipe_text s = Some s" using s(3,4) by (simp add: pipe_text_def)
  have "CHR 0x0A \<notin> set h" "length h < HOST_NAME_LEN" using assms(2) by (auto simp: host_ok_def list_all_iff)
  moreover from this have "strstr (h @ newline @ after) newline = Some (length h)"
    using strstr_append [of newline h after] by (simp add: newline_def)
  ultimately show "do { p \<leftarrow> strstr s source_ip; let q = drop (p + length source_ip) s; k \<leftarrow> strstr q newline; store HOST_NAME_LEN (take k q) } = Some h"
    unfolding s(2) by (simp add: s(1) store_def)
qed

text \<open>
  The upload \<open>u\<close> has been stored: under an identifier that was free, with its contents; the file in the working
  directory is gone; the tables have a new file with this identifier and address, a new entry, and one more file
  of the user.
\<close>

definition uploaded :: "cJSON \<Rightarrow> (string \<Rightarrow> string) \<Rightarrow> upload \<Rightarrow> int \<Rightarrow> disk \<Rightarrow> space \<Rightarrow> disk \<Rightarrow> space \<Rightarrow> bool" where
  "uploaded cfg host u fsize d s d' s' \<longleftrightarrow> (\<exists>fileid now. sp_dfs s fileid = None \<and> valid_tm now
     \<and> s' = put_dfs fileid (up_data u) (put_local (up_filename u) None s)
     \<and> d' = d \<lparr>w_tables := add_file (new_file (up_md5 u) fileid (url_of cfg host fileid) fsize (get_file_suffix (up_filename u)))
         (new_entry (up_user u) (up_md5 u) (up_filename u) now) (w_tables d)\<rparr>)"

definition single_boundary :: "upload \<Rightarrow> bool" where
  "single_boundary u \<longleftrightarrow> strstr (up_data u @ crlf @ up_boundary u) (up_boundary u) = Some (length (up_data u) + 2)"

lemma returns_also:
  assumes "returns m Q" and "\<And>x. m = Some x \<Longrightarrow> P x"
  shows "returns m (\<lambda>x. Q x \<and> P x)"
  using assms by (cases m) auto

text \<open>
  What the program relies on beyond the servers. A file can be written and removed in the working directory.
  \<open>fdfs_upload_file\<close> prints the identifier it has given to a copy of the file, an unused one, or nothing when the
  storage has no room. \<open>fdfs_file_info\<close> reports the host that has a file. MySQL and the clock leave files alone.
\<close>

locale storage = disk_world_up sv ab cfg for sv :: "'e services" and ab and cfg +
  fixes sp :: "'e \<Rightarrow> space" and room :: "'e \<Rightarrow> bool" and host :: "string \<Rightarrow> string"
  assumes write_law: "file_name path \<Longrightarrow> write_file sv path contents e = (ok, e') \<Longrightarrow>
        ok \<and> ab e' = ab e \<and> room e' = room e \<and> sp e' = put_local path (Some contents) (sp e)"
    and unlink_law: "file_name path \<Longrightarrow>
        ab (unlink_file sv path e) = ab e \<and> sp (unlink_file sv path e) = put_local path None (sp e)"
    and upload_law: "room e \<Longrightarrow> sp_local (sp e) path = Some contents \<Longrightarrow>
        run_piped sv [''fdfs_upload_file'', cfg_at cfg ''dfs_path'' ''client'', path] TEMP_BUF_MAX_LEN e = (r, e') \<Longrightarrow>
        \<exists>fileid. r = Pipe_Read (fileid @ newline) \<and> fileid_ok fileid \<and> sp_dfs (sp e) fileid = None
          \<and> ab e' = ab e \<and> sp e' = put_dfs fileid contents (sp e)"
    and refuse_law: "\<not> room e \<Longrightarrow>
        run_piped sv [''fdfs_upload_file'', cfg_at cfg ''dfs_path'' ''client'', path] TEMP_BUF_MAX_LEN e = (r, e') \<Longrightarrow> r = Pipe_Read []"
    and info_law: "sp_dfs (sp e) fileid \<noteq> None \<Longrightarrow>
        run_piped sv [''fdfs_file_info'', cfg_at cfg ''dfs_path'' ''client'', fileid] TEMP_BUF_MAX_LEN e = (r, e') \<Longrightarrow>
        host_ok (host fileid) \<and> (\<exists>s. r = Pipe_Read s \<and> report_of (host fileid) s) \<and> ab e' = ab e \<and> sp e' = sp e"
    and init_frame: "sp (snd (mysql_init sv e)) = sp e" and connect_frame: "sp (snd (mysql_real_connect sv u p d e)) = sp e"
    and query_frame: "sp (snd (mysql_query sv sql_cmd e)) = sp e" and close_frame: "sp (mysql_close sv e) = sp e"
    and time_frame: "sp (snd (localtime sv e)) = sp e"
    and web_port: "list_all (plain sq) (cfg_at cfg ''storage_web_server'' ''port'')"
begin

lemma upload_to_dstorage_up:
  assumes "room e" and "sp_local (sp e) path = Some contents"
  obtains fileid e' where "upload_to_dstorage sv path e = Some (0, fileid, e')" and "fileid_ok fileid" and "sp_dfs (sp e) fileid = None"
    and "ab e' = ab e" and "sp e' = put_dfs fileid contents (sp e)"
proof -
  obtain r e' where r: "run_piped sv [''fdfs_upload_file'', cfg_at cfg ''dfs_path'' ''client'', path] TEMP_BUF_MAX_LEN e = (r, e')"
    by fastforce
  from upload_law [OF assms r] obtain fileid where f: "r = Pipe_Read (fileid @ newline)" "fileid_ok fileid" "sp_dfs (sp e) fileid = None"
    "ab e' = ab e" "sp e' = put_dfs fileid contents (sp e)" by blast
  then have "upload_to_dstorage sv path e = Some (0, fileid, e')"
    using r trim_fileid [OF f(2)] by (simp add: upload_to_dstorage_def cfg_values fileid_ok_def)
  then show ?thesis using that f by blast
qed

lemma upload_to_dstorage_refused: "\<not> room e \<Longrightarrow> upload_to_dstorage sv path e = None"
  using refuse_law [of e path]
  by (cases "run_piped sv [''fdfs_upload_file'', cfg_at cfg ''dfs_path'' ''client'', path] TEMP_BUF_MAX_LEN e")
    (simp add: upload_to_dstorage_def cfg_values pipe_text_def array_sizes trim_space_eq)

lemma web_port_len: "length (cfg_at cfg ''storage_web_server'' ''port'') < 20"
  using cfg_valid by (auto simp: cfg_ok_def cfg_entry_def cfg_at_def split: option.splits)

lemma make_file_url_up:
  assumes "sp_dfs (sp e) fileid \<noteq> None" and "fileid_ok fileid"
  obtains e' where "make_file_url sv fileid [] e = Some (0, url_of cfg host fileid, e')" and "host_ok (host fileid)" and "ab e' = ab e" and "sp e' = sp e"
proof -
  obtain r e' where r: "run_piped sv [''fdfs_file_info'', cfg_at cfg ''dfs_path'' ''client'', fileid] TEMP_BUF_MAX_LEN e = (r, e')"
    by fastforce
  from info_law [OF assms(1) r] obtain s where s: "r = Pipe_Read s" "host_ok (host fileid)" "report_of (host fileid) s" "ab e' = ab e" "sp e' = sp e"
    by blast
  from report_host [OF s(3,2)] have "make_file_url sv fileid [] e = Some (0, url_of cfg host fileid, e')"
    using r s(1,2) web_port_len assms(2)
    by (auto simp: make_file_url_def cfg_values url_of_def fileid_ok_def host_ok_def array_sizes store_def Let_def
        split: bind_splits)
  then show ?thesis using that s by blast
qed

lemma url_of_fits:
  assumes "fileid_ok fileid" and "host_ok (host fileid)"
  shows "list_all (plain sq) (url_of cfg host fileid)" and "length (url_of cfg host fileid) \<le> 121"
proof -
  have "list_all (plain sq) fileid" "list_all (plain sq) (host fileid)" "length fileid \<le> 64" "length (host fileid) < 30"
    using assms by (simp_all add: fileid_ok_def host_ok_def list_all_iff array_sizes)
  then show "list_all (plain sq) (url_of cfg host fileid)" "length (url_of cfg host fileid) \<le> 121"
    using web_port web_port_len by (simp_all add: url_of_def plain_def sq_def)
qed

lemma store_fileinfo_frame:
  assumes "store_fileinfo_to_mysql sv g user filename md5 fsize fileid url e = Some (ret, e')"
  shows "sp e' = sp e"
proof -
  have query: "mysql_query sv q e = (r, e') \<Longrightarrow> sp e' = sp e" for q r e e' using query_frame by (metis snd_conv)
  have clock: "localtime sv e = (t, e') \<Longrightarrow> sp e' = sp e" for t e e' using time_frame by (metis snd_conv)
  have names: "sp (set_names sv e) = sp e" for e by (simp add: set_names_def query_frame)
  have conn: "msql_conn sv u p d e = (c, e') \<Longrightarrow> sp e' = sp e" for u p d c e e'
    using init_frame [of e] connect_frame [of u p d] close_frame by (auto simp: msql_conn_def split: prod.splits if_splits) (metis snd_conv)+
  have close: "sp (close_conn sv c e) = sp e" for c e by (simp add: close_conn_def close_frame)
  have run: "run_sql sv k args e = Some (ok, e') \<Longrightarrow> sp e' = sp e" for k args ok e e'
    by (auto simp: run_sql_def Let_def split: bind_splits prod.splits dest: query)
  have one: "process_result_one sv q buf e = Some (ret, tmp, e') \<Longrightarrow> sp e' = sp e" for q buf ret tmp e e'
    by (cases "mysql_query sv q e")
      (auto simp: process_result_one_eq result_one_def Let_def split: bind_splits prod.splits option.splits dest: query)
  have count: "count_file sv ins user tmp e = Some (ret, e') \<Longrightarrow> sp e' = sp e" for ins user tmp ret e e'
    by (auto simp: count_file_def Let_def split: bind_splits prod.splits if_splits dest!: query one)
  show ?thesis
    using assms
    by (auto simp: store_fileinfo_to_mysql_def store_fileinfo_body_def Let_def names close split: bind_splits prod.splits if_splits
        dest!: clock conn run count)
qed

lemma store_fileinfo_up:
  assumes "bounded 0 (w_tables (ab e))" and "args_ok user md5 filename" and "length md5 \<le> 80" and "in_long fsize"
    and "length (get_file_suffix filename) < 8" and "list_all (plain sq) (get_file_suffix filename)"
    and "list_all (plain sq) fileid" and "length fileid \<le> 64" and "list_all (plain sq) url" and "length url \<le> 121"
    and "\<And>now e'. valid_tm now \<Longrightarrow> ab e' = ab e \<lparr>w_tables := add_file (new_file md5 fileid url fsize (get_file_suffix filename))
        (new_entry user md5 filename now) (w_tables (ab e))\<rparr> \<Longrightarrow> Q (0, e')"
  shows "returns (store_fileinfo_to_mysql sv g user filename md5 fsize fileid url e) Q"
  unfolding store_fileinfo_to_mysql_def store_fileinfo_body_def
  using assms bounded_9 [OF assms(1)] show_long_length [of fsize]
  by (auto simp: ret_simps stmt_simps array_sizes args_ok_def show_int_plain new_entry_def new_file_def add_file_def
      intro!: conn_up clock_wp run_sql_up count_up)

text \<open>The request up to the database.\<close>

lemma upload_file_stored:
  assumes "up_ok u" and "length (up_body u) < 2 ^ 30" and "single_boundary u" and "file_name (up_filename u)" and "room e"
  obtains fileid e' where "upload_file sv g True fsize (int (length (up_body u))) (up_body u) e = do {
      (ret, e) \<leftarrow> store_fileinfo_to_mysql sv g (up_user u) (up_filename u) (up_md5 u) fsize fileid (url_of cfg host fileid) e';
      Some (if ret < 0 then - 1 else 0, e)
    }" and "fileid_ok fileid" and "host_ok (host fileid)" and "sp_dfs (sp e) fileid = None" and "ab e' = ab e"
    and "sp e' = put_dfs fileid (up_data u) (put_local (up_filename u) None (sp e))"
proof -
  let ?f = "up_filename u"
  obtain ok e1 where w: "write_file sv ?f (up_data u) e = (ok, e1)" by fastforce
  note e1 = write_law [OF assms(4) w]
  have "room e1" "sp_local (sp e1) ?f = Some (up_data u)" using e1 assms(5) by (simp_all add: put_local_def)
  then obtain fileid e2 where e2: "upload_to_dstorage sv ?f e1 = Some (0, fileid, e2)" "fileid_ok fileid" "sp_dfs (sp e1) fileid = None"
    "ab e2 = ab e1" "sp e2 = put_dfs fileid (up_data u) (sp e1)" by (rule upload_to_dstorage_up)
  define e3 where "e3 = unlink_file sv ?f e2"
  have e3: "ab e3 = ab e2" "sp e3 = put_local ?f None (sp e2)" using unlink_law [OF assms(4), of e2] by (simp_all add: e3_def)
  then have "sp_dfs (sp e3) fileid \<noteq> None" using e2 by (simp add: put_local_def put_dfs_def)
  then obtain e4 where e4: "make_file_url sv fileid [] e3 = Some (0, url_of cfg host fileid, e4)" "host_ok (host fileid)" "ab e4 = ab e3" "sp e4 = sp e3"
    using e2(2) by (rule make_file_url_up)
  show ?thesis
  proof (rule that [OF _ e2(2) e4(2)])
    show "sp_dfs (sp e) fileid = None" "ab e4 = ab e" "sp e4 = put_dfs fileid (up_data u) (put_local ?f None (sp e))"
      using e1 e2 e3 e4 by (simp_all add: put_local_def put_dfs_def)
    show "upload_file sv g True fsize (int (length (up_body u))) (up_body u) e = do {
        (ret, e) \<leftarrow> store_fileinfo_to_mysql sv g (up_user u) ?f (up_md5 u) fsize fileid (url_of cfg host fileid) e4;
        Some (if ret < 0 then - 1 else 0, e)
      }"
      using recv_save_file_saves [OF assms(1,2), of sv "[]" "([], [], [])" e] assms(3) w e1 e2(1) e4(1)
      by (simp add: upload_file_def single_boundary_def e3_def)
  qed
qed

lemma upload_file_refused:
  assumes "up_ok u" and "length (up_body u) < 2 ^ 30" and "single_boundary u" and "file_name (up_filename u)" and "\<not> room e"
  shows "upload_file sv g True fsize (int (length (up_body u))) (up_body u) e = None"
proof -
  obtain ok e1 where w: "write_file sv (up_filename u) (up_data u) e = (ok, e1)" by fastforce
  show ?thesis
    using recv_save_file_saves [OF assms(1,2), of sv "[]" "([], [], [])" e] assms(3,5) w write_law [OF assms(4) w]
    by (simp add: upload_file_def single_boundary_def upload_to_dstorage_refused)
qed

lemma upload_file_up:
  assumes "up_ok u" and "length (up_body u) < 2 ^ 30" and "single_boundary u" and "file_name (up_filename u)" and "room e"
    and "bounded 0 (w_tables (ab e))" and "args_ok (up_user u) (up_md5 u) (up_filename u)" and "length (up_md5 u) \<le> 80" and "in_long fsize"
    and "length (get_file_suffix (up_filename u)) < SUFFIX_LEN"
  shows "returns (upload_file sv g True fsize (int (length (up_body u))) (up_body u) e)
    (\<lambda>(ret, e'). ret = 0 \<and> uploaded cfg host u fsize (ab e) (sp e) (ab e') (sp e'))"
proof -
  let ?suffix = "get_file_suffix (up_filename u)"
  obtain fileid e1 where up: "upload_file sv g True fsize (int (length (up_body u))) (up_body u) e = do {
      (ret, e) \<leftarrow> store_fileinfo_to_mysql sv g (up_user u) (up_filename u) (up_md5 u) fsize fileid (url_of cfg host fileid) e1;
      Some (if ret < 0 then - 1 else 0, e)
    }" and id: "fileid_ok fileid" "host_ok (host fileid)" and e1: "sp_dfs (sp e) fileid = None" "ab e1 = ab e"
      "sp e1 = put_dfs fileid (up_data u) (put_local (up_filename u) None (sp e))"
    by (rule upload_file_stored [OF assms(1-5)])
  have suffix: "length ?suffix < 8" "list_all (plain sq) ?suffix" using assms(7,10) suffix_plain by (auto simp: args_ok_def array_sizes)
  have plain_id: "list_all (plain sq) fileid" "length fileid \<le> 64" using id(1) by (auto simp: fileid_ok_def list_all_iff)
  note url = url_of_fits [OF id]
  have stored: "uploaded cfg host u fsize (ab e) (sp e) (ab e') (sp e')"
    if "valid_tm now" "sp e' = sp e1" "ab e' = ab e1 \<lparr>w_tables := add_file (new_file (up_md5 u) fileid (url_of cfg host fileid) fsize ?suffix)
        (new_entry (up_user u) (up_md5 u) (up_filename u) now) (w_tables (ab e1))\<rparr>" for now e'
    unfolding uploaded_def using that e1 by (intro exI [of _ fileid] exI [of _ now]) simp
  have "returns (store_fileinfo_to_mysql sv g (up_user u) (up_filename u) (up_md5 u) fsize fileid (url_of cfg host fileid) e1)
      (\<lambda>x. (fst x = 0 \<and> (sp (snd x) = sp e1 \<longrightarrow> uploaded cfg host u fsize (ab e) (sp e) (ab (snd x)) (sp (snd x)))) \<and> sp (snd x) = sp e1)"
  proof (rule returns_also)
    show "sp (snd x) = sp e1" if "store_fileinfo_to_mysql sv g (up_user u) (up_filename u) (up_md5 u) fsize fileid (url_of cfg host fileid) e1 = Some x" for x
      using that store_fileinfo_frame by (cases x) simp
    have "bounded 0 (w_tables (ab e1))" using assms(6) e1(2) by simp
    then show "returns (store_fileinfo_to_mysql sv g (up_user u) (up_filename u) (up_md5 u) fsize fileid (url_of cfg host fileid) e1)
        (\<lambda>x. fst x = 0 \<and> (sp (snd x) = sp e1 \<longrightarrow> uploaded cfg host u fsize (ab e) (sp e) (ab (snd x)) (sp (snd x))))"
      by (rule store_fileinfo_up [OF _ assms(7,8,9) suffix plain_id url]) (intro conjI impI, simp, erule stored, simp_all)
  qed
  then show ?thesis by (simp add: up returns_bind case_prod_unfold) (erule returns_mono, simp)
qed

lemma upload_file_suffix:
  assumes "up_ok u" and "length (up_body u) < 2 ^ 30" and "single_boundary u" and "file_name (up_filename u)" and "room e"
    and "SUFFIX_LEN \<le> length (get_file_suffix (up_filename u))"
  shows "upload_file sv g True fsize (int (length (up_body u))) (up_body u) e = None"
proof -
  obtain fileid e1 where up: "upload_file sv g True fsize (int (length (up_body u))) (up_body u) e = do {
      (ret, e) \<leftarrow> store_fileinfo_to_mysql sv g (up_user u) (up_filename u) (up_md5 u) fsize fileid (url_of cfg host fileid) e1;
      Some (if ret < 0 then - 1 else 0, e)
    }" by (rule upload_file_stored [OF assms(1-5)])
  obtain conn e2 where "msql_conn sv (mysql_user g) (mysql_pwd g) (mysql_db g) e1 = (conn, e2)" by fastforce
  moreover from this have conn by (rule msql_conn_up)
  ultimately show ?thesis
    using assms(6) by (simp add: up store_fileinfo_to_mysql_def store_fileinfo_body_def store_def)
qed

end

section \<open>Reference storage\<close>

text \<open>
  The reference servers with a working directory and a FastDFS that numbers its files and has room for a million; all of them
  are on one host.
\<close>

type_synonym stored_disk = "disk \<times> (string \<rightharpoonup> string) \<times> string list"

definition dfs_id :: "nat \<Rightarrow> string" where
  "dfs_id n = ''group1/M00/00/00/'' @ show_int (int n)"

definition ref_space :: "stored_disk \<Rightarrow> space" where
  "ref_space e = (case e of (d, l, s) \<Rightarrow> \<lparr>sp_local = l, sp_dfs = map_of (zip (map dfs_id [0..<length s]) s)\<rparr>)"

definition ref_room :: "stored_disk \<Rightarrow> bool" where
  "ref_room e \<longleftrightarrow> length (snd (snd e)) < 1000000"

definition ref_report :: string where
  "ref_report = ''source storage id: 0'' @ newline @ source_ip @ ''127.0.0.1'' @ newline @ ''file size: 5'' @ newline"

definition ref_tools :: "string list \<Rightarrow> stored_disk \<Rightarrow> piped \<times> stored_disk" where
  "ref_tools argv e =
     (case argv of
        [tool, conf, x] \<Rightarrow>
          (case e of (d, l, s) \<Rightarrow>
             if tool = ''fdfs_file_info'' then (Pipe_Read ref_report, e)
             else if ref_room e then
               (case l x of None \<Rightarrow> (Pipe_Read [], e) | Some c \<Rightarrow> (Pipe_Read (dfs_id (length s) @ newline), d, l, s @ [c]))
             else (Pipe_Read [], e))
      | _ \<Rightarrow> (Pipe_Err, e))"

definition ref_store :: "stored_disk services" where
  "ref_store =
     \<lparr>mysql_init = Pair True, mysql_real_connect = \<lambda>u p d. Pair True, mysql_query = \<lambda>sql_cmd. lift (ref_mysql sql_cmd), mysql_close = id,
      redisConnect = \<lambda>ip port. Pair Connected, redisConnectWithTimeout = \<lambda>ip port timeout. Pair Connected,
      redisConnectUnix = \<lambda>path. Pair Connected, redisFree = id, redisCommand = \<lambda>cmd. lift (ref_redis cmd),
      redisCommandText = \<lambda>cmd d. None, redisAppendCommand = \<lambda>cmd. Pair False, redisAppendText = \<lambda>cmd d. None,
      redisGetReply = Pair None, read_file = \<lambda>path d. ref_file path,
      write_file = \<lambda>path contents (d, l, s). (True, d, l(path \<mapsto> contents), s),
      unlink_file = \<lambda>path (d, l, s). (d, l(path := None), s), localtime = Pair tm0, c_srand = id, c_rand = Pair 7,
      c_system = \<lambda>cmd. lift (\<lambda>d. (0, d \<lparr>w_shell := w_shell d @ [cmd]\<rparr>)), run_piped = \<lambda>argv n. ref_tools argv\<rparr>"

lemma dfs_id_inj: "dfs_id m = dfs_id n \<longleftrightarrow> m = n"
  by (metis dfs_id_def same_append_eq decimal.decode_encode of_nat_eq_iff option.inject)

lemma digit_stored: "c_isdigit c \<Longrightarrow> plain sq c \<and> \<not> c_isspace c \<and> c \<noteq> CHR 0x00"
  by (auto simp: c_isdigit_def plain_def sq_def c_isspace_def)

lemma dfs_id_ok:
  assumes "n < 1000000"
  shows "fileid_ok (dfs_id n)"
proof -
  have "list_all (\<lambda>c. plain sq c \<and> \<not> c_isspace c \<and> c \<noteq> CHR 0x00) ''group1/M00/00/00/''"
    by (simp add: plain_def sq_def c_isspace_def)
  moreover have "list_all (\<lambda>c. plain sq c \<and> \<not> c_isspace c \<and> c \<noteq> CHR 0x00) (show_int (int n))"
    using show_nat_digits digit_stored by (auto simp: list_all_iff show_int_def)
  moreover have "length (show_int (int n)) \<le> 11" using assms by (intro show_int_length) (simp add: in_int_def)
  ultimately show ?thesis unfolding fileid_ok_def dfs_id_def by simp
qed

lemma dfs_grows:
  "map_of (zip (map dfs_id [0..<length s]) s) (dfs_id (length s)) = None"
  "map_of (zip (map dfs_id [0..<length (s @ [c])]) (s @ [c])) = (map_of (zip (map dfs_id [0..<length s]) s))(dfs_id (length s) \<mapsto> c)"
proof -
  show new: "map_of (zip (map dfs_id [0..<length s]) s) (dfs_id (length s)) = None"
    by (auto simp: map_of_eq_None_iff dfs_id_inj dest!: set_zip_leftD)
  have append: "map_of (zip (map dfs_id [0..<length (s @ [c])]) (s @ [c])) = [dfs_id (length s) \<mapsto> c] ++ map_of (zip (map dfs_id [0..<length s]) s)"
    by simp
  show "map_of (zip (map dfs_id [0..<length (s @ [c])]) (s @ [c])) = (map_of (zip (map dfs_id [0..<length s]) s))(dfs_id (length s) \<mapsto> c)"
    unfolding append by (rule ext) (auto simp: map_add_def new simp del: map_of_zip_is_None split: option.splits)
qed

lemma ref_report_ok: "report_of ''127.0.0.1'' ref_report"
  unfolding report_of_def
proof (intro conjI exI)
  show "ref_report = (''source storage id: 0'' @ newline) @ source_ip @ ''127.0.0.1'' @ newline @ (''file size: 5'' @ newline)"
    by (simp add: ref_report_def)
  show "strstr ref_report source_ip = Some (length (''source storage id: 0'' @ newline))" by code_simp
qed (code_simp)+

lemma local_host: "host_ok ''127.0.0.1''"
  by code_simp

interpretation ref_store: storage ref_store fst cfg0 ref_space ref_room "\<lambda>_. ''127.0.0.1''"
proof unfold_locales
  show "\<exists>reply e' db. redisCommand ref_store cmd e = (Some reply, e') \<and> fst e' = fst e \<lparr>w_redis := db\<rparr>
      \<and> (text_command cmd \<longrightarrow> reply_str reply \<noteq> None)" for cmd e
    using ref_redis_reply [of cmd "fst e"] by (cases e) (auto simp: ref_store_def lift_def)
  show "\<exists>fileid. r = Pipe_Read (fileid @ newline) \<and> fileid_ok fileid \<and> sp_dfs (ref_space e) fileid = None
      \<and> fst e' = fst e \<and> ref_space e' = put_dfs fileid contents (ref_space e)"
    if "ref_room e" "sp_local (ref_space e) path = Some contents"
      "run_piped ref_store [''fdfs_upload_file'', cfg_at cfg0 ''dfs_path'' ''client'', path] TEMP_BUF_MAX_LEN e = (r, e')" for e path contents r e'
  proof -
    obtain d l s where e: "e = (d, l, s)" by (cases e)
    then have "r = Pipe_Read (dfs_id (length s) @ newline)" "e' = (d, l, s @ [contents])" "fileid_ok (dfs_id (length s))"
      using that dfs_id_ok by (auto simp: ref_store_def ref_tools_def ref_space_def ref_room_def)
    then show ?thesis
      using dfs_grows(1) [of s] dfs_grows(2) [of s contents] unfolding e ref_space_def put_dfs_def by (intro exI [of _ "dfs_id (length s)"]) simp
  qed
  show "list_all (plain sq) (cfg_at cfg0 ''storage_web_server'' ''port'')" by code_simp
qed (auto simp: ref_store_def ref_mysql_exec ref_file_cfg cfg0_ok tm0_def valid_tm_def ref_redis_def lift_def ref_tools_def ref_space_def ref_room_def
  put_local_def ref_report_ok local_host split: prod.splits option.splits)

section \<open>The request\<close>

text \<open>
  C9: a whole upload. If the storage has room and the suffix of the file name has fewer than eight bytes, the
  program answers 008, and then FastDFS has the contents of the file under a new identifier, the tables have the file
  with this identifier and its address, an entry for the user and one more in the user's count, and the working directory is as
  before without the file. Otherwise the program runs into undefined behaviour instead of answering 009: a tool that
  prints nothing leaves \<open>trim_space\<close> an empty string, and a longer suffix overruns \<open>suffix[8]\<close>.
\<close>

theorem upload_request_correct:
  assumes "storage sv ab cfg sp room host" and "up_ok u" and "length (up_body u) < 2 ^ 30" and "single_boundary u"
    and "file_name (up_filename u)" and "args_ok (up_user u) (up_md5 u) (up_filename u)" and "length (up_md5 u) \<le> 80"
    and "in_long fsize" and "bounded 0 (w_tables (ab e))"
  shows "if room e \<and> length (get_file_suffix (up_filename u)) < SUFFIX_LEN
    then returns (upload_request sv g True fsize (post (up_body u)) e) (\<lambda>(out, e').
      out = http_header @ status_text ''008'' \<and> uploaded cfg host u fsize (ab e) (sp e) (ab e') (sp e'))
    else upload_request sv g True fsize (post (up_body u)) e = None"
proof -
  let ?n = "int (length (up_body u))"
  have "up_body u \<noteq> []" using assms(2) by (auto simp: up_body_def up_front_def up_ok_def)
  then have request: "upload_request sv g True fsize (post (up_body u)) e = do {
      (ret, e) \<leftarrow> upload_file sv g True fsize ?n (up_body u) e;
      out \<leftarrow> return_status (if ret = 0 then ''008'' else ''009'');
      Some (http_header @ out, e)
    }" using assms(3) by (simp add: upload_request_def post_def c_strtol_def)
  note laws = storage.upload_file_up [OF assms(1-5) _ assms(9,6-8)] storage.upload_file_refused [OF assms(1-5)]
    storage.upload_file_suffix [OF assms(1-5)]
  show ?thesis
  proof (cases "room e")
    case True
    show ?thesis
    proof (cases "length (get_file_suffix (up_filename u)) < SUFFIX_LEN")
      case short: True
      have "returns (upload_request sv g True fsize (post (up_body u)) e) (\<lambda>(out, e').
          out = http_header @ status_text ''008'' \<and> uploaded cfg host u fsize (ab e) (sp e) (ab e') (sp e'))"
        unfolding request returns_bind by (rule returns_mono [OF laws(1) [OF True short]]) auto
      with True short show ?thesis by simp
    qed (use laws(3) [OF True] in \<open>simp add: request not_less\<close>)
  qed (use laws(2) in \<open>simp add: request\<close>)
qed

theorem upload_request_correct_witness:
  "returns (upload_request ref_store globals0 True 5 (post (up_body upload0)) (disk0, Map.empty, []))
     (\<lambda>(out, e'). out = http_header @ status_text ''008''
        \<and> (\<exists>fileid. sp_dfs (ref_space e') fileid = Some (up_data upload0)
            \<and> map (\<lambda>f. (f_md5 f, f_file_id f, f_url f, f_type f)) (t_file_info (w_tables (fst e')))
              = [(''0a'', fileid, ''http://127.0.0.1:8080/'' @ fileid, ''txt'')]))
   \<and> upload_request ref_store globals0 True 5 (post (up_body (upload0 \<lparr>up_filename := ''a.markdown''\<rparr>))) (disk0, Map.empty, []) = None"
proof -
  let ?v = "upload0 \<lparr>up_filename := ''a.markdown''\<rparr>" and ?e = "(disk0, Map.empty, []) :: stored_disk"
  have ok: "up_ok upload0" "up_ok ?v" by (simp_all add: up_ok_def upload0_def a_field_def a_line_def up_info_def array_sizes)
  have len: "length (up_body upload0) < 2 ^ 30" "length (up_body ?v) < 2 ^ 30"
    by (simp_all add: up_body_def up_front_def up_info_def upload0_def crlf_def)
  have single: "single_boundary upload0" "single_boundary ?v" by (simp_all add: single_boundary_def upload0_def crlf_def)
  have path: "file_name (up_filename upload0)" "file_name (up_filename ?v)" by (simp_all add: file_name_def upload0_def)
  have args: "args_ok (up_user upload0) (up_md5 upload0) (up_filename upload0)" "args_ok (up_user ?v) (up_md5 ?v) (up_filename ?v)"
    by (simp_all add: args_ok_def plain_def sq_def upload0_def)
  have md5: "length (up_md5 upload0) \<le> 80" "length (up_md5 ?v) \<le> 80" by (simp_all add: upload0_def)
  have world: "in_long 5" "bounded 0 (w_tables (fst ?e))" "ref_room ?e"
    using tables_examples(1) by (simp_all add: in_long_def ref_room_def)
  have suffix: "get_file_suffix (up_filename upload0) = ''txt''" "get_file_suffix (up_filename ?v) = ''markdown''" by code_simp+
  have port: "cfg_at cfg0 ''storage_web_server'' ''port'' = ''8080''" by code_simp
  have "returns (upload_request ref_store globals0 True 5 (post (up_body upload0)) ?e) (\<lambda>(out, e').
      out = http_header @ status_text ''008'' \<and> uploaded cfg0 (\<lambda>_. ''127.0.0.1'') upload0 5 (fst ?e) (ref_space ?e) (fst e') (ref_space e'))"
    using upload_request_correct [OF ref_store.storage_axioms ok(1) len(1) single(1) path(1) args(1) md5(1) world(1,2), of globals0] world(3) suffix(1)
    by (simp add: array_sizes)
  moreover have "upload_request ref_store globals0 True 5 (post (up_body ?v)) ?e = None"
    using upload_request_correct [OF ref_store.storage_axioms ok(2) len(2) single(2) path(2) args(2) md5(2) world(1,2), of globals0] suffix(2)
    by (simp add: array_sizes)
  moreover have "\<exists>fileid. sp_dfs (ref_space e') fileid = Some (up_data upload0)
      \<and> map (\<lambda>f. (f_md5 f, f_file_id f, f_url f, f_type f)) (t_file_info (w_tables (fst e')))
        = [(''0a'', fileid, ''http://127.0.0.1:8080/'' @ fileid, ''txt'')]"
    if "uploaded cfg0 (\<lambda>_. ''127.0.0.1'') upload0 5 (fst ?e) (ref_space ?e) (fst e') (ref_space e')" for e'
  proof -
    have "up_md5 upload0 = ''0a''" by (simp add: upload0_def)
    with that suffix(1) port show ?thesis
      by (auto simp: uploaded_def put_dfs_def add_file_def new_file_def url_of_def disk0_def)
  qed
  ultimately show ?thesis by (auto elim!: returns_mono)
qed

end
