(* ===== verification/Make_Log.thy ===== *)
theory Make_Log
  imports Services
begin

text \<open>
  The log of \<open>src/src/common/make_log.c\<close>: the path of the log file of the day, the directories on the way to it, and
  the line appended to it. The calls of the file system and the clock are parameters; \<open>file_system\<close> states what
  the module relies on. A message is the text that \<open>vsprintf\<close> makes of its format and arguments.
\<close>

record 'e log_services =
  log_time :: "'e \<Rightarrow> tm \<times> 'e"
  access_ok :: "string \<Rightarrow> 'e \<Rightarrow> bool"
  make_dir :: "string \<Rightarrow> 'e \<Rightarrow> bool \<times> 'e"
  append_file :: "string \<Rightarrow> string \<Rightarrow> 'e \<Rightarrow> bool \<times> 'e"

text \<open>\<open>%0kd\<close>, and \<open>snprintf\<close> into \<open>n\<close> bytes.\<close>

definition zpad :: "nat \<Rightarrow> int \<Rightarrow> string" where
  "zpad k i =
     (let ds = show_nat (nat \<bar>i\<bar>)
      in if i < 0 then CHR ''-'' # replicate (k - 1 - length ds) (CHR ''0'') @ ds else replicate (k - length ds) (CHR ''0'') @ ds)"

definition snprintf :: "nat \<Rightarrow> string \<Rightarrow> string" where
  "snprintf n s = take (n - 1) s"

section \<open>Directories\<close>

text \<open>The chain of \<open>mkdir\<close>s, which stops at the first failure, and the chain of \<open>access\<close>es before it.\<close>

fun mkdir_chain :: "'e log_services \<Rightarrow> string list \<Rightarrow> 'e \<Rightarrow> 'e" where
  "mkdir_chain sv [] e = e"
| "mkdir_chain sv (d # ds) e = (let (ok, e) = make_dir sv d e in if ok then mkdir_chain sv ds e else e)"

fun make_missing :: "'e log_services \<Rightarrow> string list \<Rightarrow> 'e \<Rightarrow> 'e" where
  "make_missing sv [] e = e"
| "make_missing sv (d # ds) e = (if access_ok sv d e then make_missing sv ds e else mkdir_chain sv (d # ds) e)"

definition log_path :: "string \<Rightarrow> string \<Rightarrow> tm \<Rightarrow> string" where
  "log_path module_name proc_name t =
     ''./logs/'' @ module_name @ ''/'' @ zpad 4 (tm_year t + 1900) @ ''/'' @ zpad 2 (tm_mon t + 1) @ ''/''
       @ proc_name @ ''-'' @ zpad 2 (tm_mday t) @ ''.log''"

text \<open>\<open>make_path\<close>: \<open>d_dir\<close> is only written.\<close>

definition make_path :: "'e log_services \<Rightarrow> string \<Rightarrow> string \<Rightarrow> 'e \<Rightarrow> (string \<times> 'e) option" where
  "make_path sv module_name proc_name e = do {
     let top_dir = ''.'';
     let second_dir = ''./logs'';
     let (now, e) = log_time sv e;
     let path = snprintf 1024 (log_path module_name proc_name now);
     third_dir \<leftarrow> store 1024 (second_dir @ ''/'' @ module_name);
     y_dir \<leftarrow> store 1024 (third_dir @ ''/'' @ zpad 4 (tm_year now + 1900) @ ''/'');
     m_dir \<leftarrow> store 1024 (y_dir @ ''/'' @ zpad 2 (tm_mon now + 1) @ ''/'');
     d_dir \<leftarrow> store 1024 (m_dir @ ''/'' @ zpad 2 (tm_mday now) @ ''/'');
     Some (path, make_missing sv [top_dir, second_dir, third_dir, y_dir, m_dir] e)
   }"

section \<open>Lines\<close>

text \<open>Failures of \<open>open\<close> and \<open>write\<close> are only reported on the standard error stream.\<close>

definition out_put_file :: "'e log_services \<Rightarrow> string \<Rightarrow> string \<Rightarrow> 'e \<Rightarrow> 'e" where
  "out_put_file sv path buf e = snd (append_file sv path buf e)"

definition log_line :: "tm \<Rightarrow> string \<Rightarrow> int \<Rightarrow> string \<Rightarrow> string" where
  "log_line t filename line mesg =
     ''['' @ zpad 4 (tm_year t + 1900) @ ''-'' @ zpad 2 (tm_mon t + 1) @ ''-'' @ zpad 2 (tm_mday t) @ '' '' @ zpad 2 (tm_hour t) @ '':''
       @ zpad 2 (tm_min t) @ '':'' @ zpad 2 (tm_sec t) @ '']--['' @ filename @ '':'' @ show_int line @ '']--'' @ mesg"

definition dumpmsg_to_file ::
    "'e log_services \<Rightarrow> string \<Rightarrow> string \<Rightarrow> string \<Rightarrow> int \<Rightarrow> string \<Rightarrow> 'e \<Rightarrow> (int \<times> 'e) option" where
  "dumpmsg_to_file sv module_name proc_name filename line mesg e = do {
     let (now, e) = log_time sv e;
     mesg \<leftarrow> store 4096 mesg;
     let buf = snprintf 4096 (log_line now filename line mesg);
     (filepath, e) \<leftarrow> make_path sv module_name proc_name e;
     Some (0, out_put_file sv filepath buf e)
   }"

section \<open>File systems\<close>

text \<open>The names on a path, without empty ones and \<open>.\<close>.\<close>

fun split_slash :: "string \<Rightarrow> string list" where
  "split_slash [] = [[]]"
| "split_slash (c # s) =
     (if c = CHR ''/'' then [] # split_slash s
      else case split_slash s of n # ns \<Rightarrow> (c # n) # ns | [] \<Rightarrow> [[c]])"

definition names_of :: "string \<Rightarrow> string list" where
  "names_of path = filter (\<lambda>n. n \<noteq> [] \<and> n \<noteq> ''.'') (split_slash path)"

lemma split_slash_append: "CHR ''/'' \<notin> set s \<Longrightarrow> split_slash (s @ CHR ''/'' # rest) = s # split_slash rest"
  by (induction s) auto

lemma split_slash_plain: "CHR ''/'' \<notin> set s \<Longrightarrow> split_slash s = [s]"
  by (induction s) auto

text \<open>A name that a path can have between two slashes.\<close>

definition name_ok :: "string \<Rightarrow> bool" where
  "name_ok s \<longleftrightarrow> s \<noteq> [] \<and> CHR ''/'' \<notin> set s \<and> s \<noteq> ''.'' \<and> s \<noteq> ''..''"

lemma zpad_set: "c \<in> set (zpad k i) \<Longrightarrow> c_isdigit c \<or> c = CHR ''-''"
  by (auto simp: zpad_def Let_def c_isdigit_def dest!: show_nat_digits split: if_splits)

lemma zpad_ne: "zpad k i \<noteq> []"
  by (simp add: zpad_def Let_def)

lemma zpad_ok: "name_ok (zpad k i)"
  using zpad_set [of "CHR ''.''" k i] zpad_set [of "CHR ''/''" k i] by (auto simp: name_ok_def c_isdigit_def zpad_ne)

lemma length_zpad: "0 \<le> i \<Longrightarrow> i < 10 ^ k \<Longrightarrow> 0 < k \<Longrightarrow> length (zpad k i) = k"
  using show_nat_length [of "nat i" k] by (simp add: zpad_def Let_def nat_less_iff)

record fs =
  fs_dirs :: "string list set"
  fs_files :: "string list \<Rightarrow> string"

text \<open>
  Directories as a set of name lists, files as texts. For paths without \<open>..\<close>: \<open>access\<close> tells whether a directory is
  there, \<open>mkdir\<close> creates a missing one whose parent is there, and opening a file for appending in
  a directory that is there and writing to it adds the text at its end.
\<close>

definition is_tree :: "fs \<Rightarrow> bool" where
  "is_tree d \<longleftrightarrow> [] \<in> fs_dirs d \<and> (\<forall>ns \<in> fs_dirs d. butlast ns \<in> fs_dirs d)"

locale file_system =
  fixes sv :: "'e log_services" and fs :: "'e \<Rightarrow> fs"
  assumes clock: "log_time sv e = (t, e') \<Longrightarrow> valid_tm t \<and> fs e' = fs e"
    and access: "''..'' \<notin> set (names_of d) \<Longrightarrow> access_ok sv d e \<longleftrightarrow> names_of d \<in> fs_dirs (fs e)"
    and mkdir: "''..'' \<notin> set (names_of d) \<Longrightarrow> butlast (names_of d) \<in> fs_dirs (fs e) \<Longrightarrow> names_of d \<notin> fs_dirs (fs e) \<Longrightarrow>
        make_dir sv d e = (ok, e') \<Longrightarrow> ok \<and> fs e' = fs e \<lparr>fs_dirs := insert (names_of d) (fs_dirs (fs e))\<rparr>"
    and append: "''..'' \<notin> set (names_of p) \<Longrightarrow> butlast (names_of p) \<in> fs_dirs (fs e) \<Longrightarrow> names_of p \<notin> fs_dirs (fs e) \<Longrightarrow>
        append_file sv p s e = (ok, e') \<Longrightarrow> ok \<and> fs e' = fs e \<lparr>fs_files := (fs_files (fs e)) (names_of p := fs_files (fs e) (names_of p) @ s)\<rparr>"
begin

text \<open>
  A chain of directories, each inside the one before: from the first missing one on all are missing when the
  directories that are there have their parents, and all are there afterwards.
\<close>

lemma mkdir_chain_all:
  assumes "successively (\<lambda>d d'. butlast (names_of d') = names_of d) (par # ds)" and "\<forall>d \<in> set ds. ''..'' \<notin> set (names_of d) \<and> names_of d \<notin> fs_dirs (fs e)"
    and "distinct (map names_of ds)" and "names_of par \<in> fs_dirs (fs e)"
  shows "fs (mkdir_chain sv ds e) = fs e \<lparr>fs_dirs := fs_dirs (fs e) \<union> names_of ` set ds\<rparr>"
  using assms
proof (induction ds arbitrary: par e)
  case (Cons d ds)
  obtain ok e' where mk: "make_dir sv d e = (ok, e')" by fastforce
  with Cons.prems have e': "ok" "fs e' = fs e \<lparr>fs_dirs := insert (names_of d) (fs_dirs (fs e))\<rparr>" by (auto dest!: mkdir)
  have "fs (mkdir_chain sv ds e') = fs e' \<lparr>fs_dirs := fs_dirs (fs e') \<union> names_of ` set ds\<rparr>"
    using Cons.prems e'(2) by (intro Cons.IH [of d]) (auto simp: image_iff)
  then show ?case using e' by (simp add: mk)
qed simp

lemma missing_below:
  "successively (\<lambda>d d'. butlast (names_of d') = names_of d) (d # ds) \<Longrightarrow> names_of d \<notin> fs_dirs (fs e) \<Longrightarrow> is_tree (fs e) \<Longrightarrow>
     \<forall>d' \<in> set ds. names_of d' \<notin> fs_dirs (fs e)"
proof (induction ds arbitrary: d)
  case (Cons d' ds)
  then have "names_of d' \<notin> fs_dirs (fs e)" by (auto simp: is_tree_def)
  with Cons.IH [of d'] Cons.prems(1,3) show ?case by simp
qed simp

lemma make_missing_all:
  assumes "successively (\<lambda>d d'. butlast (names_of d') = names_of d) (par # ds)" and "\<forall>d \<in> set ds. ''..'' \<notin> set (names_of d)"
    and "distinct (map names_of ds)" and "names_of par \<in> fs_dirs (fs e)" and "is_tree (fs e)"
  shows "fs (make_missing sv ds e) = fs e \<lparr>fs_dirs := fs_dirs (fs e) \<union> names_of ` set ds\<rparr>"
  using assms
proof (induction ds arbitrary: par)
  case (Cons d ds)
  show ?case
  proof (cases "names_of d \<in> fs_dirs (fs e)")
    case True
    with Cons.prems Cons.IH [of d] show ?thesis by (simp add: access insert_absorb)
  next
    case False
    have "\<forall>d' \<in> set (d # ds). ''..'' \<notin> set (names_of d') \<and> names_of d' \<notin> fs_dirs (fs e)"
      using Cons.prems(1,2) missing_below [of d ds e] False assms(5) by auto
    from mkdir_chain_all [OF Cons.prems(1) this Cons.prems(3,4)] False Cons.prems(2) show ?thesis by (simp add: access del: mkdir_chain.simps)
  qed
qed simp

end

section \<open>The log\<close>

definition log_dirs :: "string \<Rightarrow> tm \<Rightarrow> string list set" where
  "log_dirs module_name t = {[''logs''], [''logs'', module_name], [''logs'', module_name, zpad 4 (tm_year t + 1900)],
     [''logs'', module_name, zpad 4 (tm_year t + 1900), zpad 2 (tm_mon t + 1)]}"

definition log_file :: "string \<Rightarrow> string \<Rightarrow> tm \<Rightarrow> string list" where
  "log_file module_name proc_name t =
     [''logs'', module_name, zpad 4 (tm_year t + 1900), zpad 2 (tm_mon t + 1), proc_name @ ''-'' @ zpad 2 (tm_mday t) @ ''.log'']"

lemma zpad_names: "zpad k i \<noteq> ''.''" "zpad k i \<noteq> ''..''" "CHR ''/'' \<notin> set (zpad k i)"
  using zpad_ok [of k i] by (simp_all add: name_ok_def)

lemma names_of_paths:
  assumes "name_ok m" and "CHR ''/'' \<notin> set f" and "f \<noteq> []" and "f \<noteq> ''.''"
  shows "names_of ''.'' = []" and "names_of ''./logs'' = [''logs'']" and "names_of (''./logs/'' @ m) = [''logs'', m]"
    and "names_of ((''./logs/'' @ m) @ ''/'' @ zpad 4 y @ ''/'') = [''logs'', m, zpad 4 y]"
    and "names_of (((''./logs/'' @ m) @ ''/'' @ zpad 4 y @ ''/'') @ ''/'' @ zpad 2 mon @ ''/'') = [''logs'', m, zpad 4 y, zpad 2 mon]"
    and "names_of (''./logs/'' @ m @ ''/'' @ zpad 4 y @ ''/'' @ zpad 2 mon @ ''/'' @ f) = [''logs'', m, zpad 4 y, zpad 2 mon, f]"
  using assms by (simp_all add: names_of_def name_ok_def split_slash_append split_slash_plain zpad_names zpad_ne)

lemma names_of_log_path:
  assumes "name_ok module_name" and "name_ok proc_name"
  shows "names_of (log_path module_name proc_name t) = log_file module_name proc_name t"
proof -
  have "CHR ''/'' \<notin> set (proc_name @ ''-'' @ zpad 2 (tm_mday t) @ ''.log'')" "proc_name @ ''-'' @ zpad 2 (tm_mday t) @ ''.log'' \<noteq> ''.''"
    using assms(2) by (auto simp: name_ok_def zpad_names append_eq_Cons_conv)
  from names_of_paths(6) [OF assms(1) this(1) _ this(2)] show ?thesis by (simp add: log_path_def log_file_def)
qed

lemma make_path_fits:
  assumes "valid_tm t" and "length module_name + length proc_name \<le> 900" and "log_time sv e = (t, e1)"
  shows "make_path sv module_name proc_name e = Some (log_path module_name proc_name t,
    make_missing sv [''.'', ''./logs'', ''./logs/'' @ module_name, (''./logs/'' @ module_name) @ ''/'' @ zpad 4 (tm_year t + 1900) @ ''/'',
      ((''./logs/'' @ module_name) @ ''/'' @ zpad 4 (tm_year t + 1900) @ ''/'') @ ''/'' @ zpad 2 (tm_mon t + 1) @ ''/''] e1)"
proof -
  have "length (zpad 4 (tm_year t + 1900)) = 4" "length (zpad 2 (tm_mon t + 1)) = 2" "length (zpad 2 (tm_mday t)) = 2"
    using assms(1) by (simp_all add: length_zpad valid_tm_def)
  then show ?thesis using assms(2,3) by (simp add: make_path_def store_def snprintf_def log_path_def)
qed

context file_system
begin

lemma make_path_dirs:
  assumes "name_ok module_name" and "name_ok proc_name" and "length module_name + length proc_name \<le> 900" and "is_tree (fs e)"
    and t: "log_time sv e = (t, e1)"
  obtains e' where "make_path sv module_name proc_name e = Some (log_path module_name proc_name t, e')"
    and "fs e' = fs e \<lparr>fs_dirs := fs_dirs (fs e) \<union> log_dirs module_name t\<rparr>"
proof -
  have e1: "valid_tm t" "fs e1 = fs e" using clock [OF t] by simp_all
  let ?ds = "[''./logs'', ''./logs/'' @ module_name, (''./logs/'' @ module_name) @ ''/'' @ zpad 4 (tm_year t + 1900) @ ''/'',
    ((''./logs/'' @ module_name) @ ''/'' @ zpad 4 (tm_year t + 1900) @ ''/'') @ ''/'' @ zpad 2 (tm_mon t + 1) @ ''/'']"
  have f: "CHR ''/'' \<notin> set ''f''" "''f'' \<noteq> []" "''f'' \<noteq> ''.''" by simp_all
  note names = names_of_paths [OF assms(1) f, simplified]
  have "fs (make_missing sv ?ds e1) = fs e1 \<lparr>fs_dirs := fs_dirs (fs e1) \<union> names_of ` set ?ds\<rparr>"
    by (rule make_missing_all [where par = "''.''"]) (use assms(1,4) [folded e1(2)] zpad_names in \<open>auto simp: names name_ok_def is_tree_def dest: sym\<close>)
  moreover have "access_ok sv ''.'' e1" using access [of "''.''" e1] assms(4) e1(2) by (simp add: names(1) is_tree_def)
  ultimately show thesis
    using that [OF make_path_fits [OF e1(1) assms(3) t]] e1(2) by (simp add: names log_dirs_def)
qed

lemma dumpmsg_file:
  assumes "name_ok module_name" and "name_ok proc_name" and "length module_name + length proc_name \<le> 900" and "length mesg < 4096"
    and "log_file module_name proc_name t' \<notin> fs_dirs (fs e)" and "is_tree (fs e)"
    and t: "log_time sv e = (t, e1)" and t': "log_time sv e1 = (t', e2)"
  obtains e' where "dumpmsg_to_file sv module_name proc_name filename line mesg e = Some (0, e')"
    and "fs e' = \<lparr>fs_dirs = fs_dirs (fs e) \<union> log_dirs module_name t', fs_files = (fs_files (fs e))
      (log_file module_name proc_name t' := fs_files (fs e) (log_file module_name proc_name t') @ snprintf 4096 (log_line t filename line mesg))\<rparr>"
proof -
  have e1: "fs e1 = fs e" using clock [OF t] by simp
  obtain e3 where path: "make_path sv module_name proc_name e1 = Some (log_path module_name proc_name t', e3)"
    and e3: "fs e3 = fs e1 \<lparr>fs_dirs := fs_dirs (fs e1) \<union> log_dirs module_name t'\<rparr>"
    using make_path_dirs [OF assms(1-3) _ t'] assms(6) e1 by auto
  let ?p = "log_path module_name proc_name t'" and ?f = "log_file module_name proc_name t'" and ?s = "snprintf 4096 (log_line t filename line mesg)"
  have names: "names_of ?p = ?f" by (rule names_of_log_path [OF assms(1,2)])
  obtain ok e4 where app: "append_file sv ?p ?s e3 = (ok, e4)" by fastforce
  have "''..'' \<notin> set ?f" "?f \<notin> log_dirs module_name t'" "butlast ?f \<in> log_dirs module_name t'"
    using assms(1) zpad_names by (auto simp: log_file_def log_dirs_def name_ok_def Cons_eq_append_conv dest: sym)
  then have "fs e4 = fs e3 \<lparr>fs_files := (fs_files (fs e3)) (?f := fs_files (fs e3) ?f @ ?s)\<rparr>"
    using append [of ?p e3 ?s ok e4] app assms(5) e1 e3 by (simp add: names)
  moreover have "dumpmsg_to_file sv module_name proc_name filename line mesg e = Some (0, e4)"
    using assms(4) path app by (simp add: dumpmsg_to_file_def t store_def out_put_file_def)
  ultimately show thesis using that e1 e3 by simp
qed

end

section \<open>A file system in memory\<close>

definition mem_fs :: "fs log_services" where
  "mem_fs =
     \<lparr>log_time = Pair \<lparr>tm_year = 120, tm_mon = 7, tm_mday = 4, tm_hour = 19, tm_min = 6, tm_sec = 0\<rparr>,
      access_ok = \<lambda>d e. names_of d \<in> fs_dirs e,
      make_dir = \<lambda>d e. if butlast (names_of d) \<in> fs_dirs e \<and> names_of d \<notin> fs_dirs e
        then (True, e \<lparr>fs_dirs := insert (names_of d) (fs_dirs e)\<rparr>) else (False, e),
      append_file = \<lambda>p s e. if butlast (names_of p) \<in> fs_dirs e \<and> names_of p \<notin> fs_dirs e
        then (True, e \<lparr>fs_files := (fs_files e) (names_of p := fs_files e (names_of p) @ s)\<rparr>) else (False, e)\<rparr>"

interpretation mem_fs: file_system mem_fs id
  by unfold_locales (auto simp: mem_fs_def valid_tm_def split: if_splits)

text \<open>
  C22: a message of fewer than 4096 bytes is appended, after the time and the place it comes from, to the log file
  of the module, the program and the day, below directories that are created as needed; no other file changes. The time in
  the line is the first reading of the clock, the day of the file the second one, and the line is cut off after 4095
  bytes. A longer message overruns the buffer.
\<close>

theorem dumpmsg_to_file_appends:
  assumes "file_system sv fs" and "is_tree (fs e)" and "name_ok module_name" and "name_ok proc_name"
    and "length module_name + length proc_name \<le> 900" and "log_time sv e = (t, e1)" and "log_time sv e1 = (t', e2)"
    and "log_file module_name proc_name t' \<notin> fs_dirs (fs e)"
  shows "if length mesg < 4096
    then \<exists>e'. dumpmsg_to_file sv module_name proc_name filename line mesg e = Some (0, e')
      \<and> fs e' = \<lparr>fs_dirs = fs_dirs (fs e) \<union> log_dirs module_name t', fs_files = (fs_files (fs e))
          (log_file module_name proc_name t' :=
             fs_files (fs e) (log_file module_name proc_name t') @ snprintf 4096 (log_line t filename line mesg))\<rparr>
    else dumpmsg_to_file sv module_name proc_name filename line mesg e = None"
proof (cases "length mesg < 4096")
  case True
  show ?thesis
    by (rule file_system.dumpmsg_file [OF assms(1,3,4,5) True assms(8,2,6,7), of filename line]) (use True in auto)
next
  case False
  then show ?thesis by (simp add: dumpmsg_to_file_def store_def split: prod.splits)
qed

theorem dumpmsg_to_file_appends_witness:
  "\<exists>e'. dumpmsg_to_file mem_fs ''cgi'' ''login'' ''cgi_login.c'' 42 ''msql_conn err'' \<lparr>fs_dirs = {[]}, fs_files = \<lambda>_. []\<rparr> = Some (0, e')
     \<and> fs_files e' [''logs'', ''cgi'', ''2020'', ''08'', ''login-04.log'']
       = ''[2020-08-04 19:06:00]--[cgi_login.c:42]--msql_conn err''"
proof -
  let ?e = "\<lparr>fs_dirs = {[]}, fs_files = \<lambda>_. []\<rparr>"
  let ?t = "\<lparr>tm_year = 120, tm_mon = 7, tm_mday = 4, tm_hour = 19, tm_min = 6, tm_sec = 0\<rparr>"
  have pre: "is_tree (id ?e)" "name_ok ''cgi''" "name_ok ''login''" "length ''cgi'' + length ''login'' \<le> 900"
    "log_time mem_fs ?e = (?t, ?e)" "log_file ''cgi'' ''login'' ?t \<notin> fs_dirs (id ?e)"
    by (simp_all add: is_tree_def name_ok_def log_file_def mem_fs_def)
  have path: "log_file ''cgi'' ''login'' ?t = [''logs'', ''cgi'', ''2020'', ''08'', ''login-04.log'']" by code_simp
  have line: "snprintf 4096 (log_line ?t ''cgi_login.c'' 42 ''msql_conn err'') = ''[2020-08-04 19:06:00]--[cgi_login.c:42]--msql_conn err''"
    by code_simp
  from dumpmsg_to_file_appends [OF mem_fs.file_system_axioms pre(1-5) pre(5,6), of "''msql_conn err''" "''cgi_login.c''" 42]
  show ?thesis unfolding path line by auto
qed

end
