(* ===== verification/Spec2Isabelle.thy ===== *)
theory Spec2Isabelle
  imports CJson_Safe CJson_Minify CJson_List Redis_Db Cgi_Login Cgi_Register Cgi_Md5 Cgi_Upload Cgi_Files Cgi_Filesop Cgi_Sharefiles
    Cgi_Sharefilesop Disk_Account Disk_Ranking Disk_Store Make_Log
begin

text \<open>
  CloudDisk is a file storage server in C: eight FastCGI programs (\<open>src/src/cgi\<close>) behind a web server, which keep
  users, files and shares in a MySQL database, login tokens and the ranking of shared files in Redis, and
  the files themselves in FastDFS, and a library they share (\<open>src/src/common\<close>). This development models
  the programs and the library function by function and proves what makes them correct, and where they are not.

  \<^bold>\<open>Reading the model.\<close> A definition has the name of the C function it translates where there is one; functions that
  are long are cut into definitions at the places where the code has blocks. Undefined behaviour (an access outside an
  array, a null pointer that is followed, an \<open>int\<close> overflow, an indeterminate value that is read) is
  \<^const>\<open>None\<close> (except that the size of an upload, which the code never assigns, and an MD5 context before its
  initialisation are arguments, so that the results hold for every value of them), or \<open>UB\<close> in the \<open>outcome\<close> type of the cJSON theories, so that a theorem that a function returns
  \<^const>\<open>Some\<close> includes that it has none. Return codes are \<^typ>\<open>int\<close>s. State is passed explicitly. Code outside the
  repository is the record \<open>services\<close> (MySQL client, hiredis, clock, random numbers, files, processes) over an
  arbitrary state, an argument of every definition that uses it.

  \<^bold>\<open>Library.\<close>
  \<^item> \<open>Disk_Prelude\<close>, \<open>C_String\<close>, \<open>C_Double\<close>: machine types, outcomes, the contract \<open>codec\<close> of reversible encodings;
    the string functions, decimal conversions and floating-point numbers of the C library the sources use.
  \<^item> \<open>Base64\<close>, \<open>Md5\<close>, \<open>Des\<close>: \<open>base64.c\<close>, \<open>md5.c\<close>, \<open>des.c\<close>. Round trips of Base64 and of the cipher with its padding, MD5
    against RFC 1321, the cipher's tables against FIPS 46-3 (four entries differ), every return
    value of \<open>DesDec\<close>. \<open>des.c\<close> uses \<open>unsigned long\<close>; its width is a type argument, and the results hold for 32 bits.
    The key schedule is kept as the bytes of memory that \<open>memcpy\<close> and the stores through cast pointers write, from
    which it follows that 64 bits are undefined behaviour. Logins encrypt the token, so their results are for 32 bits too.
    Lengths of data are unbounded numbers in \<open>Des\<close> and \<open>Base64\<close>: data of nearly \<open>2^31\<close> bytes are outside the model.
  \<^item> \<open>Cgi_Util\<close>: the string functions of \<open>cgi_util.c\<close> against their specifications.
  \<^item> \<open>CJson\<close>, \<open>CJson_Parse\<close>, \<open>CJson_Safe\<close>, \<open>CJson_Roundtrip\<close>, \<open>CJson_Tree\<close>, \<open>CJson_Minify\<close>, \<open>CJson_List\<close>: \<open>cJSON.c\<close>. The
    printer with its growing or fixed buffer, the parser on a buffer of bytes, the functions on trees,
    minification, comparison, and the doubly linked child lists on a heap of structs. Printing is complete or fails cleanly, parsing
    is safe on every text and reads back what is printed, the list operations refine the operations on lists.
    The parser's recursion is bounded by \<open>CJSON_NESTING_LIMIT\<close> (1000), the limit of the code; its other loops are
    total functions with a termination proof, and the walks along \<open>next\<close> are partial functions that may run forever.
  \<^item> \<open>Make_Log\<close>: \<open>make_log.c\<close> on a file system that is a parameter, with the locale \<open>file_system\<close> as its contract.

  \<^bold>\<open>Servers.\<close>
  \<^item> \<open>Services\<close>: the parameter record and the predicate \<open>returns\<close>, total correctness of a computation.
  \<^item> \<open>Redis_Op\<close>, \<open>Mysql_Op\<close>, \<open>Cfg\<close>: \<open>redis_op.c\<close>, \<open>mysql_op.c\<close>, \<open>cfg.c\<close> on this record.
  \<^item> \<open>Sql\<close>, \<open>Tables\<close>: the 32 statements of the programs as texts built by \<open>sprintf\<close> into 512 bytes, and
    their effect on the five tables. The parser of these texts translates no source: it is the first half of the
    reference servers. The rows of a join come in the order of the tables, which MySQL does not promise without
    \<open>ORDER BY\<close>. \<open>Redis_Db\<close>: the Redis commands used, as documented.
  \<^item> \<open>Disk_Server\<close>: the contract between the programs and the servers. \<open>disk_world\<close> lets MySQL refuse any statement
    and Redis answer each command with any reply (a lost connection, where hiredis returns \<open>NULL\<close>, is not
    covered by it; it is undefined behaviour, as \<open>login_redis_lost\<close> shows for a login); \<open>disk_world_up\<close> adds that nothing is refused. Both are interpreted on
    reference servers (\<open>ref_faulty\<close>, \<open>ref_up\<close>) that execute \<open>Tables\<close> and \<open>Redis_Db\<close> with the configuration of
    \<open>conf/cfg.json\<close>. Each step of a handler has a rule in these locales, so that a handler is verified by
    unfolding it and applying the rules.

  \<^bold>\<open>Programs.\<close>
  \<^item> \<open>Cgi_Common\<close>: what they share: status answers, \<open>verify_token\<close>, members of a JSON request, one statement, the
    reading of a request and the loop around \<open>FCGI_Accept\<close>, which is a function over the list of requests.
  \<^item> \<open>Cgi_Register\<close>, \<open>Cgi_Login\<close>, \<open>Cgi_Md5\<close>, \<open>Cgi_Upload\<close>, \<open>Cgi_Files\<close>, \<open>Cgi_Filesop\<close>, \<open>Cgi_Sharefiles\<close>, \<open>Cgi_Sharefilesop\<close>: one
    theory per program \<open>cgi_*.c\<close>, every function of it and its \<open>main\<close>.

  \<^bold>\<open>Properties of the programs.\<close>
  \<^item> \<open>Disk_Invariant\<close>: the step relation \<open>reachable\<close> over the requests that change files. In every reachable state,
    also with refused statements in between, entries refer to stored files and counts are large enough; a user who
    deletes an entry of their own never removes a file from the storage that somebody still has.
  \<^item> \<open>Disk_Effects\<close>: answer and exact change of tables and Redis keys, branch by branch, with servers that are up;
    three places where the result is not the intended one.
  \<^item> \<open>Disk_Session\<close>, \<open>Disk_Account\<close>: passwords and tokens; whole requests of \<open>register\<close> and \<open>login\<close> from the JSON text to
    the answer; the size of a registration that overruns the statement's buffer; \<open>login\<close> answers every sequence of
    requests as long as Redis replies, and has undefined behaviour when the connection to Redis is lost.
  \<^item> \<open>Disk_Listing\<close>: the lists of files are well-formed JSON with the rows of the tables.
  \<^item> \<open>Disk_Ranking\<close>: the ranking of the shared files is a page of the Redis set in the order of the downloads, after
    the set and the names have been rebuilt from the table of shares if the two numbers of shares differ.
  \<^item> \<open>Disk_Upload\<close>, \<open>Disk_Store\<close>: form data are taken apart exactly; a whole request of \<open>upload\<close> from the form data over the
    working directory and the FastDFS tools to the tables, and the two cases in which it has undefined behaviour. The laws
    of the tools are the locale \<open>storage\<close>, which extends the servers' and is interpreted on \<open>ref_store\<close>.

  \<^bold>\<open>Hypotheses.\<close> Arguments of statements are free of quotes and backslashes where a property needs the statement to be
  read as meant (the code does not escape them), and short enough for the 512 bytes (\<open>args_ok\<close>, \<open>short_args\<close>: 310
  bytes are enough for each of the 32 statements). Counters are within \<open>2^30\<close> (\<open>bounded\<close>).
  Times are in the years 0 to 9999. Requests are shorter than the array of 4096 bytes they are read into.

  \<^bold>\<open>Not modelled.\<close>
  \<^item> The calls of \<open>LOG\<close>: the programs are modelled as compiled with \<open>_LOG\<close> defined, where \<open>LOG\<close> expands to nothing. With
    logging on, a message of 4096 bytes or more overruns a buffer (\<open>Make_Log\<close>).
  \<^item> Messages on the standard error stream, and freeing of memory: \<open>free\<close>, \<open>cJSON_Delete\<close> and \<open>mysql_free_result\<close> have
    no effect on the values the model describes. Leaks and double frees are therefore outside its scope.
  \<^item> The size of the array that \<open>str_replace\<close> writes its longer result back to, and a failing \<open>malloc\<close> in it.
    \<open>trim_space\<close> copies a string without leading white space onto itself; this is taken to have no effect, while
    copies that overlap otherwise are undefined.
  \<^item> cJSON's reference items, allocation hooks and \<open>cJSON_Utils\<close>-style helpers nothing here calls.
  \<^item> Concurrency: FastCGI runs one request at a time in a process; several processes interleave at the level of
    single statements, which the sequences of requests here do not split up. The expiry of Redis keys is not modelled.
  \<^item> The child process after \<open>fork\<close> in \<open>cgi_upload.c\<close>, which only becomes the FastDFS tool; the web front end; build rules,
    start scripts and the vendored third-party sources under \<open>lib\<close>.
\<close>

end
